theory Spec2Isabelle
  imports Main "HOL-Library.Word"
begin

unbundle bit_operations_syntax

chapter \<open>Definitions\<close>

section \<open>Outcomes of C code that does not return normally\<close>

text \<open>
  The sources guard their invariants with \<^verbatim>\<open>_dbus_assert\<close> and
  \<^verbatim>\<open>_dbus_assert_not_reached\<close>, which abort the process, and they read memory
  through raw pointers. A function of the model that can reach one of these returns a sum:
  \<open>Inl\<close> names the assertion that fired (by its text in the source), or a read outside
  the bytes of a string; \<open>Inr\<close> carries what the C function returns and the state it
  leaves. A C identifier with a leading underscore loses it, since an Isabelle name starts
  with a letter.
\<close>

datatype failure = Assert string | Not_reached string | Invalid_read

section \<open>Event loop: timeouts and the poll set (dbus-mainloop.c)\<close>

subsection \<open>C integers\<close>

text \<open>
  \<^verbatim>\<open>unsigned long\<close> and \<^verbatim>\<open>long\<close> are \<open>lb\<close> bits wide (32 or 64, by the
  platform), \<^verbatim>\<open>int\<close> is 32 bits. Values are integers; every assignment to a variable
  of one of these types reduces the value to the type's range, so wrap-around is explicit.
  Division of \<^verbatim>\<open>int\<close> truncates towards zero.
\<close>

definition to_ulong :: "nat \<Rightarrow> int \<Rightarrow> int" where
  "to_ulong lb x = x mod 2 ^ lb"

definition to_long :: "nat \<Rightarrow> int \<Rightarrow> int" where
  "to_long lb x = (x + 2 ^ (lb - 1)) mod 2 ^ lb - 2 ^ (lb - 1)"

definition to_int :: "int \<Rightarrow> int" where
  "to_int x = (x + 2 ^ 31) mod 2 ^ 32 - 2 ^ 31"

definition c_div :: "int \<Rightarrow> int \<Rightarrow> int" where
  "c_div a b = sgn a * sgn b * (\<bar>a\<bar> div \<bar>b\<bar>)"

definition DBUS_INT_MAX :: int where
  "DBUS_INT_MAX = 2147483647"

subsection \<open>Timeouts\<close>

text \<open>
  A \<^verbatim>\<open>DBusTimeout\<close> is an object of the library outside the loop; the loop only asks for
  its interval in milliseconds and whether it is enabled.
\<close>

record DBusTimeout =
  to_interval :: int
  to_enabled :: bool

definition dbus_timeout_get_interval :: "DBusTimeout \<Rightarrow> int" where
  "dbus_timeout_get_interval t = to_interval t"

definition dbus_timeout_get_enabled :: "DBusTimeout \<Rightarrow> bool" where
  "dbus_timeout_get_enabled t = to_enabled t"

record TimeoutCallback =
  timeout :: DBusTimeout
  last_tv_sec :: int
  last_tv_usec :: int

text \<open>
  \<^verbatim>\<open>check_timeout (tv_sec, tv_usec, tcb, &timeout)\<close>: the result is the returned flag, the
  callback as the function leaves it, and the value stored through \<^verbatim>\<open>timeout\<close>.
\<close>

definition check_timeout ::
  "nat \<Rightarrow> int \<Rightarrow> int \<Rightarrow> TimeoutCallback \<Rightarrow> bool \<times> TimeoutCallback \<times> int" where
  "check_timeout lb tv_sec tv_usec tcb =
    (let interval = dbus_timeout_get_interval (timeout tcb);
         interval_seconds = to_long lb (c_div interval 1000);
         interval_milliseconds = to_long lb (interval - interval_seconds * 1000);
         expiration_tv_sec0 = to_ulong lb (last_tv_sec tcb + interval_seconds);
         expiration_tv_usec0 = to_ulong lb (last_tv_usec tcb + interval_milliseconds * 1000);
         expiration_tv_usec =
           (if expiration_tv_usec0 \<ge> 1000000 then to_ulong lb (expiration_tv_usec0 - 1000000)
            else expiration_tv_usec0);
         expiration_tv_sec =
           (if expiration_tv_usec0 \<ge> 1000000 then to_ulong lb (expiration_tv_sec0 + 1)
            else expiration_tv_sec0)
     in if expiration_tv_sec < tv_sec \<or>
           (expiration_tv_sec = tv_sec \<and> expiration_tv_usec < tv_usec)
        then (False, tcb\<lparr>last_tv_sec := tv_sec, last_tv_usec := tv_usec\<rparr>, interval)
        else
          (let sec_remaining = to_long lb (expiration_tv_sec - tv_sec);
               msec_remaining0 = to_long lb (to_ulong lb (expiration_tv_usec - tv_usec) div 1000);
               msec_remaining =
                 (if sec_remaining < 0 \<or> (sec_remaining = 0 \<and> msec_remaining0 < 0) then 0
                  else
                    (let msec_remaining1 =
                           (if msec_remaining0 < 0 then to_long lb (msec_remaining0 + 1000)
                            else msec_remaining0)
                     in if msec_remaining1 > DBUS_INT_MAX then DBUS_INT_MAX else msec_remaining1))
           in (msec_remaining = 0, tcb, to_int msec_remaining)))"

text \<open>
  The time left until the timeout expires, in microseconds and without any rounding or
  wrap-around: last-fired time plus interval, minus the current time. A time value is
  well formed when its seconds fit an \<^verbatim>\<open>unsigned long\<close> and its microseconds are below
  one million, as the system clock delivers them.
\<close>

definition remaining_usec :: "int \<Rightarrow> int \<Rightarrow> TimeoutCallback \<Rightarrow> int" where
  "remaining_usec tv_sec tv_usec tcb =
     (last_tv_sec tcb * 1000000 + last_tv_usec tcb + to_interval (timeout tcb) * 1000)
       - (tv_sec * 1000000 + tv_usec)"

definition timeval_ok :: "nat \<Rightarrow> int \<Rightarrow> int \<Rightarrow> bool" where
  "timeval_ok lb sec usec = (0 \<le> sec \<and> sec < 2 ^ lb \<and> 0 \<le> usec \<and> usec < 1000000)"

subsection \<open>Watches, callbacks and the loop\<close>

record DBusWatch =
  watch_fd :: int
  watch_flags :: "32 word"
  watch_enabled :: bool

definition dbus_watch_get_enabled :: "DBusWatch \<Rightarrow> bool" where
  "dbus_watch_get_enabled w = watch_enabled w"

definition dbus_watch_get_flags :: "DBusWatch \<Rightarrow> 32 word" where
  "dbus_watch_get_flags w = watch_flags w"

definition dbus_watch_get_fd :: "DBusWatch \<Rightarrow> int" where
  "dbus_watch_get_fd w = watch_fd w"

text \<open>
  Modelled from the spec: the flag constants of the watch and poll interfaces (their
  headers are not among the sources); a watch requests readable and writable events, which
  the loop translates to the poll events of the same meaning.
\<close>

definition DBUS_WATCH_READABLE :: "32 word" where "DBUS_WATCH_READABLE = 1"
definition DBUS_WATCH_WRITABLE :: "32 word" where "DBUS_WATCH_WRITABLE = 2"
definition DBUS_POLLIN :: "16 word" where "DBUS_POLLIN = 1"
definition DBUS_POLLOUT :: "16 word" where "DBUS_POLLOUT = 4"

record WatchCallback =
  watch :: DBusWatch
  last_iteration_oom :: bool

datatype Callback = CALLBACK_WATCH WatchCallback | CALLBACK_TIMEOUT TimeoutCallback

record DBusPollFD =
  fd :: int
  events :: "16 word"
  revents :: "16 word"

record DBusLoop =
  callbacks :: "Callback list"
  callback_list_serial :: int
  watch_count :: int
  timeout_count :: int
  depth :: int
  need_dispatch :: "nat list"

text \<open>
  The local variables of \<^verbatim>\<open>_dbus_loop_iterate\<close> that its first loop fills: the poll
  vector, the callback behind each entry (its position in the callback list), and the two
  flags.
\<close>

record fill_state =
  fds :: "DBusPollFD list"
  watches_for_fds :: "nat list"
  oom_watch_pending :: bool
  retval :: bool

text \<open>
  The poll entry that the first loop of \<^verbatim>\<open>_dbus_loop_iterate\<close> writes for an enabled
  watch: its descriptor and the poll events for the flags it requests.
\<close>

definition poll_fd_of_watch :: "DBusWatch \<Rightarrow> DBusPollFD" where
  "poll_fd_of_watch w =
     (let flags = dbus_watch_get_flags w;
          ev0 = (0 :: 16 word);
          ev1 = (if flags AND DBUS_WATCH_READABLE \<noteq> 0 then ev0 OR DBUS_POLLIN else ev0);
          ev2 = (if flags AND DBUS_WATCH_WRITABLE \<noteq> 0 then ev1 OR DBUS_POLLOUT else ev1)
      in \<lparr>fd = dbus_watch_get_fd w, events = ev2, revents = 0\<rparr>)"

text \<open>
  The first loop of \<^verbatim>\<open>_dbus_loop_iterate\<close> ("fill our array of fds and watches"), from the
  link at position \<open>i\<close> on. It returns the callbacks as the loop leaves them.
\<close>

fun fill_fds :: "Callback list \<Rightarrow> nat \<Rightarrow> fill_state \<Rightarrow> Callback list \<times> fill_state" where
  "fill_fds [] i st = ([], st)"
| "fill_fds (CALLBACK_TIMEOUT tcb # link) i st =
     (case fill_fds link (Suc i) st of (rest, st') \<Rightarrow> (CALLBACK_TIMEOUT tcb # rest, st'))"
| "fill_fds (CALLBACK_WATCH wcb # link) i st =
     (if last_iteration_oom wcb then
        (case fill_fds link (Suc i) (st\<lparr>oom_watch_pending := True, retval := True\<rparr>) of
           (rest, st') \<Rightarrow> (CALLBACK_WATCH (wcb\<lparr>last_iteration_oom := False\<rparr>) # rest, st'))
      else if dbus_watch_get_enabled (watch wcb) then
        (case fill_fds link (Suc i)
                (st\<lparr>fds := fds st @ [poll_fd_of_watch (watch wcb)],
                    watches_for_fds := watches_for_fds st @ [i]\<rparr>) of
           (rest, st') \<Rightarrow> (CALLBACK_WATCH wcb # rest, st'))
      else
        (case fill_fds link (Suc i) st of (rest, st') \<Rightarrow> (CALLBACK_WATCH wcb # rest, st')))"

text \<open>
  The second loop (before the poll): the smallest time to fire over the enabled timeouts,
  starting from \<open>tmo\<close>; it stops at the first zero. \<^verbatim>\<open>check_timeout\<close> may reset a
  callback on the way.
\<close>

fun scan_timeouts ::
  "nat \<Rightarrow> int \<Rightarrow> int \<Rightarrow> Callback list \<Rightarrow> int \<Rightarrow> failure + (Callback list \<times> int)" where
  "scan_timeouts lb tv_sec tv_usec [] tmo = Inr ([], tmo)"
| "scan_timeouts lb tv_sec tv_usec (CALLBACK_WATCH wcb # link) tmo =
     (case scan_timeouts lb tv_sec tv_usec link tmo of
        Inl e \<Rightarrow> Inl e
      | Inr (rest, t) \<Rightarrow> Inr (CALLBACK_WATCH wcb # rest, t))"
| "scan_timeouts lb tv_sec tv_usec (CALLBACK_TIMEOUT tcb # link) tmo =
     (if dbus_timeout_get_enabled (timeout tcb) then
        (let (fired, tcb', msecs_remaining) = check_timeout lb tv_sec tv_usec tcb;
             tmo' = (if tmo < 0 then msecs_remaining else min msecs_remaining tmo)
         in if \<not> tmo' \<ge> 0 then Inl (Assert ''timeout >= 0'')
            else if tmo' = 0 then Inr (CALLBACK_TIMEOUT tcb' # link, tmo')
            else
              (case scan_timeouts lb tv_sec tv_usec link tmo' of
                 Inl e \<Rightarrow> Inl e
               | Inr (rest, t) \<Rightarrow> Inr (CALLBACK_TIMEOUT tcb' # rest, t)))
      else
        (case scan_timeouts lb tv_sec tv_usec link tmo of
           Inl e \<Rightarrow> Inl e
         | Inr (rest, t) \<Rightarrow> Inr (CALLBACK_TIMEOUT tcb # rest, t)))"

text \<open>\<^verbatim>\<open>_dbus_get_oom_wait\<close> in a build without the test suite.\<close>

definition dbus_get_oom_wait :: int where
  "dbus_get_oom_wait = 500"

text \<open>
  \<^verbatim>\<open>_dbus_loop_iterate\<close> from its entry to the call \<^verbatim>\<open>_dbus_poll (fds, n_fds, timeout)\<close>:
  the loop as it stands at the call, the filled variables, and the timeout handed to the
  poll, where a negative timeout asks the poll to block until a descriptor is ready.
  \<open>None\<close> when the callback list is empty and the function jumps past the poll. The clock
  reads \<open>(tv_sec, tv_usec)\<close>.
\<close>

record poll_request =
  pr_loop :: DBusLoop
  pr_fill :: fill_state
  pr_timeout :: int

definition dbus_loop_iterate_to_poll ::
  "nat \<Rightarrow> int \<Rightarrow> int \<Rightarrow> DBusLoop \<Rightarrow> bool \<Rightarrow> failure + poll_request option" where
  "dbus_loop_iterate_to_poll lb tv_sec tv_usec loop block =
     (let st0 = \<lparr>fds = [], watches_for_fds = [], oom_watch_pending = False, retval = False\<rparr>
      in if callbacks loop = [] then Inr None
         else
           (let (cbs1, st1) = fill_fds (callbacks loop) 0 st0;
                scanned =
                  (if timeout_count loop > 0 then scan_timeouts lb tv_sec tv_usec cbs1 (- 1)
                   else Inr (cbs1, - 1))
            in case scanned of
                 Inl e \<Rightarrow> Inl e
               | Inr (cbs2, tmo0) \<Rightarrow>
                   (let tmo1 = (if \<not> block \<or> need_dispatch loop \<noteq> [] then 0 else tmo0);
                        tmo2 = (if oom_watch_pending st1 then min tmo1 dbus_get_oom_wait else tmo1)
                    in Inr (Some \<lparr>pr_loop = loop\<lparr>callbacks := cbs2\<rparr>, pr_fill = st1,
                                  pr_timeout = tmo2\<rparr>))))"

section \<open>Message dispatcher (bus/dispatch.c)\<close>

subsection \<open>Messages, errors and the state of the sending connection\<close>

type_synonym connection = nat

datatype message_kind = METHOD_CALL | METHOD_RETURN | ERROR_MESSAGE | SIGNAL

record DBusMessage =
  msg_type :: message_kind
  msg_destination :: "string option"
  msg_interface :: "string option"
  msg_member :: "string option"
  msg_sender :: "string option"

text \<open>A \<^verbatim>\<open>DBusError\<close> is unset or carries the name of an error.\<close>

type_synonym DBusError = "string option"

text \<open>
  Modelled from the spec: the reserved names and the error names of section 6 (the protocol
  header is not among the sources).
\<close>

definition DBUS_SERVICE_ORG_FREEDESKTOP_DBUS :: string where
  "DBUS_SERVICE_ORG_FREEDESKTOP_DBUS = ''org.freedesktop.DBus''"

definition DBUS_INTERFACE_ORG_FREEDESKTOP_LOCAL :: string where
  "DBUS_INTERFACE_ORG_FREEDESKTOP_LOCAL = ''org.freedesktop.DBus.Local''"

definition DBUS_ERROR_NO_MEMORY :: string where
  "DBUS_ERROR_NO_MEMORY = ''org.freedesktop.DBus.Error.NoMemory''"

definition DBUS_ERROR_SERVICE_DOES_NOT_EXIST :: string where
  "DBUS_ERROR_SERVICE_DOES_NOT_EXIST = ''org.freedesktop.DBus.Error.ServiceDoesNotExist''"

definition DBUS_ERROR_ACCESS_DENIED :: string where
  "DBUS_ERROR_ACCESS_DENIED = ''org.freedesktop.DBus.Error.AccessDenied''"

datatype DBusHandlerResult = DBUS_HANDLER_RESULT_HANDLED | DBUS_HANDLER_RESULT_NOT_YET_HANDLED

text \<open>
  What is appended to the outgoing queue of a connection: a message, an error reply to a
  message, or the preallocated out-of-memory reply to a message.
\<close>

datatype queued = Message DBusMessage | Error_reply string DBusMessage | Oom_error DBusMessage

text \<open>A transaction is the ordered plan of sends. The pointer to it may be \<^verbatim>\<open>NULL\<close>.\<close>

type_synonym BusTransaction = "(connection \<times> queued) list"

datatype bus_event =
  Waited_for_memory | Connection_disconnected | Disconnect | Transaction_cancelled
  | Transaction_executed

text \<open>
  The state that one dispatch reads and writes: of the sending connection, whether its
  out-of-memory reply is preallocated, whether its transport is connected, whether it is
  active (has said Hello) and its unique name; of the bus, the outgoing queues of all
  connections (as one list in the order of queueing) and the sequence of the other effects.
\<close>

record bus_state =
  oom_preallocated :: bool
  connected :: bool
  active :: bool
  unique_name :: string
  outgoing :: "(connection \<times> queued) list"
  trace :: "bus_event list"

subsection \<open>The bus outside the dispatcher\<close>

text \<open>
  What the driver does with a message addressed to it: the error it sets (none when it
  succeeds), the replies and signals it adds to the transaction, and whether it makes the
  connection active (Hello), which also stamps the sender on the message.
\<close>

record driver_outcome =
  drv_error :: DBusError
  drv_sends :: "(connection \<times> queued) list"
  drv_activates :: bool

text \<open>
  The answers of the allocator, the policy, the registry, the matchmaker and the driver
  during one dispatch. \<open>prealloc i\<close> tells whether attempt \<open>i\<close> to preallocate the
  out-of-memory reply finds memory; \<open>policy sender addressed proposed message\<close> is unset
  when the policy allows the delivery and the error it names otherwise; \<open>registry\<close> maps
  a name to the connection of its primary owner; \<open>recipients\<close> are the connections with
  a matching rule (\<open>None\<close> when collecting them runs out of memory); \<open>send_ok r\<close> tells
  whether queueing for recipient \<open>r\<close> in the transaction finds memory.
\<close>

record bus_env =
  prealloc :: "nat \<Rightarrow> bool"
  transaction_new_ok :: bool
  set_sender_ok :: bool
  policy :: "connection option \<Rightarrow> connection option \<Rightarrow> connection option \<Rightarrow> DBusMessage \<Rightarrow> DBusError"
  driver :: "DBusMessage \<Rightarrow> driver_outcome"
  registry :: "string \<Rightarrow> connection option"
  recipients :: "DBusMessage \<Rightarrow> connection list option"
  send_ok :: "connection \<Rightarrow> bool"
  error_reply_ok :: bool

text \<open>
  Modelled from the spec: the operations of the connection and of the transaction that the
  dispatcher calls (connection.c is not among the sources). Section 4.4: each connection
  preallocates a single NoMemory error so that the reply needs no allocation; sending it
  consumes it; add-send appends to the plan or fails atomically; commit flushes the planned
  sends into the outgoing buffers in the order added; cancel discards the plan and never
  touches an outgoing buffer. Section 5: on disconnect the preallocated error is freed.
\<close>

definition bus_connection_preallocate_oom_error :: "bool \<Rightarrow> bus_state \<Rightarrow> bool \<times> bus_state" where
  "bus_connection_preallocate_oom_error memory w =
     (if oom_preallocated w then (True, w)
      else if memory then (True, w\<lparr>oom_preallocated := True\<rparr>)
      else (False, w))"

definition bus_connection_send_oom_error ::
  "connection \<Rightarrow> DBusMessage \<Rightarrow> bus_state \<Rightarrow> failure + bus_state" where
  "bus_connection_send_oom_error c in_reply_to w =
     (if oom_preallocated w
      then Inr (w\<lparr>outgoing := outgoing w @ [(c, Oom_error in_reply_to)], oom_preallocated := False\<rparr>)
      else Inl (Assert ''d->oom_preallocated != NULL''))"

definition bus_connection_disconnected :: "bus_state \<Rightarrow> bus_state" where
  "bus_connection_disconnected w =
     w\<lparr>oom_preallocated := False, active := False, trace := trace w @ [Connection_disconnected]\<rparr>"

definition dbus_connection_disconnect :: "bus_state \<Rightarrow> bus_state" where
  "dbus_connection_disconnect w = w\<lparr>connected := False, trace := trace w @ [Disconnect]\<rparr>"

definition dbus_wait_for_memory :: "bus_state \<Rightarrow> bus_state" where
  "dbus_wait_for_memory w = w\<lparr>trace := trace w @ [Waited_for_memory]\<rparr>"

definition bus_transaction_send ::
  "bus_env \<Rightarrow> BusTransaction \<Rightarrow> connection \<Rightarrow> DBusMessage \<Rightarrow> BusTransaction option" where
  "bus_transaction_send env t c m = (if send_ok env c then Some (t @ [(c, Message m)]) else None)"

definition bus_transaction_send_error_reply ::
  "bus_env \<Rightarrow> BusTransaction \<Rightarrow> connection \<Rightarrow> string \<Rightarrow> DBusMessage \<Rightarrow> BusTransaction option" where
  "bus_transaction_send_error_reply env t c e in_reply_to =
     (if error_reply_ok env then Some (t @ [(c, Error_reply e in_reply_to)]) else None)"

definition bus_transaction_cancel_and_free :: "BusTransaction \<Rightarrow> bus_state \<Rightarrow> bus_state" where
  "bus_transaction_cancel_and_free t w = w\<lparr>trace := trace w @ [Transaction_cancelled]\<rparr>"

definition bus_transaction_execute_and_free :: "BusTransaction \<Rightarrow> bus_state \<Rightarrow> bus_state" where
  "bus_transaction_execute_and_free t w =
     w\<lparr>outgoing := outgoing w @ t, trace := trace w @ [Transaction_executed]\<rparr>"

text \<open>
  \<^verbatim>\<open>bus_context_check_security_policy\<close>: whether the delivery is allowed and, when it is
  not, the error that the call sets if the caller passed a place for it.
\<close>

definition bus_context_check_security_policy ::
  "bus_env \<Rightarrow> connection option \<Rightarrow> connection option \<Rightarrow> connection option \<Rightarrow> DBusMessage \<Rightarrow> bool" where
  "bus_context_check_security_policy env s a p m = (policy env s a p m = None)"

definition dbus_message_is_signal :: "DBusMessage \<Rightarrow> string \<Rightarrow> string \<Rightarrow> bool" where
  "dbus_message_is_signal m iface name =
     (msg_type m = SIGNAL \<and> msg_interface m = Some iface \<and> msg_member m = Some name)"

subsection \<open>The functions of dispatch.c\<close>

text \<open>
  \<^verbatim>\<open>send_one_message\<close>: the returned flag, the transaction and the error as the call
  leaves them. The policy is asked with no place for an error.
\<close>

definition send_one_message ::
  "bus_env \<Rightarrow> connection \<Rightarrow> connection option \<Rightarrow> connection option \<Rightarrow> DBusMessage \<Rightarrow>
     BusTransaction \<Rightarrow> DBusError \<Rightarrow> bool \<times> BusTransaction \<times> DBusError" where
  "send_one_message env c sndr addressed_recipient message transaction error =
     (if \<not> bus_context_check_security_policy env sndr addressed_recipient (Some c) message
      then (True, transaction, error)
      else
        (case bus_transaction_send env transaction c message of
           None \<Rightarrow> (False, transaction, Some DBUS_ERROR_NO_MEMORY)
         | Some t \<Rightarrow> (True, t, error)))"

text \<open>The loop of \<^verbatim>\<open>bus_dispatch_matches\<close> over the recipients; it stops at the first failure.\<close>

fun send_to_recipients ::
  "bus_env \<Rightarrow> connection list \<Rightarrow> connection option \<Rightarrow> connection option \<Rightarrow> DBusMessage \<Rightarrow>
     BusTransaction \<Rightarrow> DBusError \<Rightarrow> BusTransaction \<times> DBusError" where
  "send_to_recipients env [] sndr addressed_recipient message transaction tmp_error =
     (transaction, tmp_error)"
| "send_to_recipients env (dest # link) sndr addressed_recipient message transaction tmp_error =
     (case send_one_message env dest sndr addressed_recipient message transaction tmp_error of
        (False, t, e) \<Rightarrow> (t, e)
      | (True, t, e) \<Rightarrow> send_to_recipients env link sndr addressed_recipient message t e)"

definition bus_dispatch_matches ::
  "bus_env \<Rightarrow> bus_state \<Rightarrow> BusTransaction \<Rightarrow> connection option \<Rightarrow> connection option \<Rightarrow>
     DBusMessage \<Rightarrow> failure + (bool \<times> BusTransaction \<times> DBusError)" where
  "bus_dispatch_matches env w transaction sndr addressed_recipient message =
     (if \<not> (sndr = None \<or> active w)
      then Inl (Assert ''sender == NULL || bus_connection_is_active (sender)'')
      else if msg_sender message = None
      then Inl (Assert ''dbus_message_get_sender (message) != NULL'')
      else
        (case recipients env message of
           None \<Rightarrow> Inr (False, transaction, Some DBUS_ERROR_NO_MEMORY)
         | Some rs \<Rightarrow>
             (case send_to_recipients env rs sndr addressed_recipient message transaction None of
                (t, tmp_error) \<Rightarrow>
                  if tmp_error \<noteq> None then Inr (False, t, tmp_error) else Inr (True, t, None))))"

text \<open>
  The loop at the head of \<^verbatim>\<open>bus_dispatch\<close>, which sleeps until the out-of-memory reply is
  preallocated. It does not return when no attempt ever finds memory.
\<close>

partial_function (option) preallocate_loop :: "(nat \<Rightarrow> bool) \<Rightarrow> nat \<Rightarrow> bus_state \<Rightarrow> bus_state option" where
  "preallocate_loop memory i w =
     (case bus_connection_preallocate_oom_error (memory i) w of
        (ok, w') \<Rightarrow>
          if ok then Some w' else preallocate_loop memory (Suc i) (dbus_wait_for_memory w'))"

text \<open>
  The local variables of \<^verbatim>\<open>bus_dispatch\<close> when control reaches the label \<^verbatim>\<open>out\<close>.
\<close>

record dispatch_state =
  ds_error :: DBusError
  ds_transaction :: "BusTransaction option"
  ds_result :: DBusHandlerResult
  ds_message :: DBusMessage
  ds_bus :: bus_state

text \<open>\<^verbatim>\<open>bus_dispatch\<close> from the end of the preallocation loop to the label \<^verbatim>\<open>out\<close>.\<close>

definition bus_dispatch_route ::
  "bus_env \<Rightarrow> connection \<Rightarrow> DBusMessage \<Rightarrow> bus_state \<Rightarrow> failure + dispatch_state" where
  "bus_dispatch_route env c message w =
     (let st = \<lparr>ds_error = None, ds_transaction = None, ds_result = DBUS_HANDLER_RESULT_HANDLED,
                ds_message = message, ds_bus = w\<rparr>;
          service_name = msg_destination message
      in if service_name = None \<and>
            dbus_message_is_signal message DBUS_INTERFACE_ORG_FREEDESKTOP_LOCAL ''Disconnected''
         then Inr (st\<lparr>ds_bus := bus_connection_disconnected w\<rparr>)
         else if service_name = None \<and> msg_type message \<noteq> SIGNAL
         then Inr (st\<lparr>ds_result := DBUS_HANDLER_RESULT_NOT_YET_HANDLED\<rparr>)
         else if \<not> transaction_new_ok env
         then Inr (st\<lparr>ds_error := Some DBUS_ERROR_NO_MEMORY\<rparr>)
         else
           (let st = st\<lparr>ds_transaction := Some []\<rparr>
            in if active w \<and> \<not> set_sender_ok env
               then Inr (st\<lparr>ds_error := Some DBUS_ERROR_NO_MEMORY\<rparr>)
               else
                 (let message = (if active w then message\<lparr>msg_sender := Some (unique_name w)\<rparr>
                                 else message);
                      st = st\<lparr>ds_message := message\<rparr>;
                      service_name = msg_destination message
                  in if service_name = Some DBUS_SERVICE_ORG_FREEDESKTOP_DBUS
                     then
                       (case policy env (Some c) None None message of
                          Some e \<Rightarrow> Inr (st\<lparr>ds_error := Some e\<rparr>)
                        | None \<Rightarrow>
                            (let d = driver env message;
                                 w' = (if drv_activates d then w\<lparr>active := True\<rparr> else w);
                                 message' = (if drv_activates d
                                             then message\<lparr>msg_sender := Some (unique_name w)\<rparr>
                                             else message);
                                 st = st\<lparr>ds_transaction := Some (drv_sends d), ds_bus := w',
                                         ds_message := message'\<rparr>
                             in case drv_error d of
                                  Some e \<Rightarrow> Inr (st\<lparr>ds_error := Some e\<rparr>)
                                | None \<Rightarrow>
                                    (case bus_dispatch_matches env w' (drv_sends d) (Some c) None message' of
                                       Inl f \<Rightarrow> Inl f
                                     | Inr (ok, t, e) \<Rightarrow>
                                         Inr (st\<lparr>ds_transaction := Some t, ds_error := e\<rparr>))))
                     else if \<not> active w
                     then Inr (st\<lparr>ds_bus := dbus_connection_disconnect w\<rparr>)
                     else
                       (case service_name of
                          Some name \<Rightarrow>
                            (case registry env name of
                               None \<Rightarrow> Inr (st\<lparr>ds_error := Some DBUS_ERROR_SERVICE_DOES_NOT_EXIST\<rparr>)
                             | Some addressed_recipient \<Rightarrow>
                                 (case policy env (Some c) (Some addressed_recipient)
                                         (Some addressed_recipient) message of
                                    Some e \<Rightarrow> Inr (st\<lparr>ds_error := Some e\<rparr>)
                                  | None \<Rightarrow>
                                      (case bus_transaction_send env [] addressed_recipient message of
                                         None \<Rightarrow> Inr (st\<lparr>ds_error := Some DBUS_ERROR_NO_MEMORY\<rparr>)
                                       | Some t \<Rightarrow>
                                           (case bus_dispatch_matches env w t (Some c)
                                                   (Some addressed_recipient) message of
                                              Inl f \<Rightarrow> Inl f
                                            | Inr (ok, t', e) \<Rightarrow>
                                                Inr (st\<lparr>ds_transaction := Some t', ds_error := e\<rparr>)))))
                        | None \<Rightarrow>
                            (case bus_dispatch_matches env w [] (Some c) None message of
                               Inl f \<Rightarrow> Inl f
                             | Inr (ok, t, e) \<Rightarrow>
                                 Inr (st\<lparr>ds_transaction := Some t, ds_error := e\<rparr>))))))"

text \<open>\<^verbatim>\<open>bus_dispatch\<close> from the label \<^verbatim>\<open>out\<close> to its return.\<close>

definition bus_dispatch_out ::
  "bus_env \<Rightarrow> connection \<Rightarrow> dispatch_state \<Rightarrow> failure + (bus_state \<times> DBusHandlerResult)" where
  "bus_dispatch_out env c st =
     (let handled =
            (case ds_error st of
               None \<Rightarrow> Inr (ds_transaction st, ds_bus st)
             | Some e \<Rightarrow>
                 if \<not> connected (ds_bus st) then Inr (ds_transaction st, ds_bus st)
                 else if e = DBUS_ERROR_NO_MEMORY then
                   (case bus_connection_send_oom_error c (ds_message st) (ds_bus st) of
                      Inl f \<Rightarrow> Inl f
                    | Inr w \<Rightarrow>
                        (case ds_transaction st of
                           Some t \<Rightarrow> Inr (None, bus_transaction_cancel_and_free t w)
                         | None \<Rightarrow> Inr (None, w)))
                 else
                   (case ds_transaction st of
                      None \<Rightarrow> Inl (Assert ''transaction != NULL'')
                    | Some t \<Rightarrow>
                        (case bus_transaction_send_error_reply env t c e (ds_message st) of
                           Some t' \<Rightarrow> Inr (Some t', ds_bus st)
                         | None \<Rightarrow>
                             (case bus_connection_send_oom_error c (ds_message st) (ds_bus st) of
                                Inl f \<Rightarrow> Inl f
                              | Inr w \<Rightarrow> Inr (None, bus_transaction_cancel_and_free t w)))))
      in case handled of
           Inl f \<Rightarrow> Inl f
         | Inr (Some t, w) \<Rightarrow> Inr (bus_transaction_execute_and_free t w, ds_result st)
         | Inr (None, w) \<Rightarrow> Inr (w, ds_result st))"

text \<open>
  \<^verbatim>\<open>bus_dispatch\<close>: \<open>None\<close> when the preallocation loop never ends, otherwise the
  state of the bus and the handler result, or the assertion that fired.
\<close>

definition bus_dispatch ::
  "bus_env \<Rightarrow> connection \<Rightarrow> DBusMessage \<Rightarrow> bus_state \<Rightarrow>
     (failure + (bus_state \<times> DBusHandlerResult)) option" where
  "bus_dispatch env c message w =
     (case preallocate_loop (prealloc env) 0 w of
        None \<Rightarrow> None
      | Some w1 \<Rightarrow>
          Some (case bus_dispatch_route env c message w1 of
                  Inl f \<Rightarrow> Inl f
                | Inr st \<Rightarrow> bus_dispatch_out env c st))"

section \<open>Wire codec (dbus-marshal-basic.c)\<close>

subsection \<open>Bytes, type codes and alignment\<close>

type_synonym byte = "8 word"

text \<open>
  Modelled from the spec: the type codes of section 3 as the integers of their ASCII
  letters (the protocol header is not among the sources); \<open>r\<close> is the code that stands
  for a struct where the signature has an opening parenthesis.
\<close>

named_theorems typecode \<open>the values of the type codes\<close>

definition DBUS_TYPE_INVALID :: int where [typecode]: "DBUS_TYPE_INVALID = 0"
definition DBUS_TYPE_BYTE :: int where [typecode]: "DBUS_TYPE_BYTE = 121"
definition DBUS_TYPE_BOOLEAN :: int where [typecode]: "DBUS_TYPE_BOOLEAN = 98"
definition DBUS_TYPE_INT32 :: int where [typecode]: "DBUS_TYPE_INT32 = 105"
definition DBUS_TYPE_UINT32 :: int where [typecode]: "DBUS_TYPE_UINT32 = 117"
definition DBUS_TYPE_INT64 :: int where [typecode]: "DBUS_TYPE_INT64 = 120"
definition DBUS_TYPE_UINT64 :: int where [typecode]: "DBUS_TYPE_UINT64 = 116"
definition DBUS_TYPE_DOUBLE :: int where [typecode]: "DBUS_TYPE_DOUBLE = 100"
definition DBUS_TYPE_STRING :: int where [typecode]: "DBUS_TYPE_STRING = 115"
definition DBUS_TYPE_OBJECT_PATH :: int where [typecode]: "DBUS_TYPE_OBJECT_PATH = 111"
definition DBUS_TYPE_SIGNATURE :: int where [typecode]: "DBUS_TYPE_SIGNATURE = 103"
definition DBUS_TYPE_ARRAY :: int where [typecode]: "DBUS_TYPE_ARRAY = 97"
definition DBUS_TYPE_VARIANT :: int where [typecode]: "DBUS_TYPE_VARIANT = 118"
definition DBUS_TYPE_STRUCT :: int where [typecode]: "DBUS_TYPE_STRUCT = 114"
definition DBUS_STRUCT_BEGIN_CHAR :: int where [typecode]: "DBUS_STRUCT_BEGIN_CHAR = 40"
definition DBUS_STRUCT_END_CHAR :: int where [typecode]: "DBUS_STRUCT_END_CHAR = 41"

text \<open>The two byte orders, as the letters that name them on the wire.\<close>

definition DBUS_LITTLE_ENDIAN :: int where "DBUS_LITTLE_ENDIAN = 108"
definition DBUS_BIG_ENDIAN :: int where "DBUS_BIG_ENDIAN = 66"

text \<open>
  Modelled from the spec: the macro \<^verbatim>\<open>_DBUS_ALIGN_VALUE\<close> (its header is not among the
  sources), which rounds a cursor up to the next multiple of the boundary.
\<close>

definition DBUS_ALIGN_VALUE :: "int \<Rightarrow> int \<Rightarrow> int" where
  "DBUS_ALIGN_VALUE this boundary = (this + (boundary - 1)) div boundary * boundary"

definition dbus_type_get_alignment :: "int \<Rightarrow> failure + int" where
  "dbus_type_get_alignment typecode =
     (if typecode = DBUS_TYPE_BYTE \<or> typecode = DBUS_TYPE_BOOLEAN \<or>
         typecode = DBUS_TYPE_VARIANT \<or> typecode = DBUS_TYPE_SIGNATURE
      then Inr 1
      else if typecode = DBUS_TYPE_INT32 \<or> typecode = DBUS_TYPE_UINT32 \<or>
         typecode = DBUS_TYPE_STRING \<or> typecode = DBUS_TYPE_OBJECT_PATH \<or>
         typecode = DBUS_TYPE_ARRAY
      then Inr 4
      else if typecode = DBUS_TYPE_INT64 \<or> typecode = DBUS_TYPE_UINT64 \<or>
         typecode = DBUS_TYPE_DOUBLE \<or> typecode = DBUS_TYPE_STRUCT
      then Inr 8
      else Inl (Not_reached ''unknown typecode in _dbus_type_get_alignment()''))"

subsection \<open>Memory: strings, the allocator and the byte order of the machine\<close>

text \<open>
  A \<^verbatim>\<open>DBusString\<close> is referred to by its address; readers and writers hold such
  addresses, and two of them may be the same string (the type string of a variant is its
  value string). The memory maps each address to the bytes of the string, without the
  terminating nul that every string carries after its last byte. It also holds the answers
  of the allocator to the coming requests, first request first (a request beyond the list
  succeeds), and the byte order of the machine, \<^verbatim>\<open>DBUS_COMPILER_BYTE_ORDER\<close>.
\<close>

type_synonym strref = nat

record memory =
  strs :: "strref \<Rightarrow> byte list"
  allocs :: "bool list"
  compiler_byte_order :: int

definition allocate :: "memory \<Rightarrow> bool \<times> memory" where
  "allocate h = (case allocs h of [] \<Rightarrow> (True, h) | b # bs \<Rightarrow> (b, h\<lparr>allocs := bs\<rparr>))"

definition insert_at_pos :: "byte list \<Rightarrow> int \<Rightarrow> byte list \<Rightarrow> byte list" where
  "insert_at_pos s pos bs = take (nat pos) s @ bs @ drop (nat pos) s"

text \<open>
  Modelled from the spec: the operations of \<^verbatim>\<open>DBusString\<close> that the codec calls
  (dbus-string.c is not among the sources), each as its name and the comments at its calls
  describe it. An operation that needs memory asks the allocator once and changes nothing
  when it is refused; every operation asserts that its positions lie within the string.
  Section 4.1: the codec inserts padding bytes on encode to satisfy the alignment of the
  next field; reading at the length of the string yields the terminating nul.
\<close>

definition dbus_string_get_length :: "memory \<Rightarrow> strref \<Rightarrow> int" where
  "dbus_string_get_length h s = int (length (strs h s))"

definition dbus_string_get_byte :: "memory \<Rightarrow> strref \<Rightarrow> int \<Rightarrow> failure + int" where
  "dbus_string_get_byte h s start =
     (if 0 \<le> start \<and> start < dbus_string_get_length h s then Inr (uint (strs h s ! nat start))
      else if start = dbus_string_get_length h s then Inr 0
      else Inl (Assert ''start <= real->len''))"

definition grow :: "strref \<Rightarrow> int \<Rightarrow> byte list \<Rightarrow> memory \<Rightarrow> failure + (bool \<times> memory)" where
  "grow s pos bs h =
     (if \<not> (0 \<le> pos \<and> pos \<le> dbus_string_get_length h s) then Inl (Assert ''insert_at <= real->len'')
      else if bs = [] then Inr (True, h)
      else
        (case allocate h of
           (False, h') \<Rightarrow> Inr (False, h')
         | (True, h') \<Rightarrow> Inr (True, h'\<lparr>strs := (strs h')(s := insert_at_pos (strs h' s) pos bs)\<rparr>)))"

definition dbus_string_insert_byte :: "strref \<Rightarrow> int \<Rightarrow> byte \<Rightarrow> memory \<Rightarrow> failure + (bool \<times> memory)" where
  "dbus_string_insert_byte s i b h = grow s i [b] h"

definition dbus_string_insert_bytes ::
  "strref \<Rightarrow> int \<Rightarrow> int \<Rightarrow> byte \<Rightarrow> memory \<Rightarrow> failure + (bool \<times> memory)" where
  "dbus_string_insert_bytes s i n_bytes b h =
     (if n_bytes < 0 then Inl (Assert ''n_bytes >= 0'') else grow s i (replicate (nat n_bytes) b) h)"

definition dbus_string_insert_4_aligned ::
  "strref \<Rightarrow> int \<Rightarrow> byte list \<Rightarrow> memory \<Rightarrow> failure + (bool \<times> memory)" where
  "dbus_string_insert_4_aligned s i octets h =
     grow s i (replicate (nat (DBUS_ALIGN_VALUE i 4 - i)) 0 @ octets) h"

definition dbus_string_insert_8_aligned ::
  "strref \<Rightarrow> int \<Rightarrow> byte list \<Rightarrow> memory \<Rightarrow> failure + (bool \<times> memory)" where
  "dbus_string_insert_8_aligned s i octets h =
     grow s i (replicate (nat (DBUS_ALIGN_VALUE i 8 - i)) 0 @ octets) h"

definition dbus_string_alloc_space :: "strref \<Rightarrow> int \<Rightarrow> memory \<Rightarrow> bool \<times> memory" where
  "dbus_string_alloc_space s extra_bytes h = (if extra_bytes \<le> 0 then (True, h) else allocate h)"

definition dbus_string_delete :: "strref \<Rightarrow> int \<Rightarrow> int \<Rightarrow> memory \<Rightarrow> failure + memory" where
  "dbus_string_delete s start len h =
     (if \<not> (0 \<le> start \<and> 0 \<le> len \<and> start + len \<le> dbus_string_get_length h s)
      then Inl (Assert ''start + len <= real->len'')
      else Inr (h\<lparr>strs := (strs h)(s := take (nat start) (strs h s) @ drop (nat (start + len)) (strs h s))\<rparr>))"

text \<open>
  Copying from bytes that are not a string of the memory (a value behind a pointer, wrapped
  by \<^verbatim>\<open>_dbus_string_init_const_len\<close>), and from a string of the memory.
\<close>

definition copy_bytes_len ::
  "byte list \<Rightarrow> int \<Rightarrow> int \<Rightarrow> strref \<Rightarrow> int \<Rightarrow> memory \<Rightarrow> failure + (bool \<times> memory)" where
  "copy_bytes_len source start len dest i h =
     (if \<not> (0 \<le> start \<and> 0 \<le> len \<and> start + len \<le> int (length source))
      then Inl (Assert ''start + len <= real_source->len'')
      else grow dest i (take (nat len) (drop (nat start) source)) h)"

definition dbus_string_copy_len ::
  "strref \<Rightarrow> int \<Rightarrow> int \<Rightarrow> strref \<Rightarrow> int \<Rightarrow> memory \<Rightarrow> failure + (bool \<times> memory)" where
  "dbus_string_copy_len source start len dest i h = copy_bytes_len (strs h source) start len dest i h"

definition equal_substring_bytes :: "byte list \<Rightarrow> int \<Rightarrow> int \<Rightarrow> byte list \<Rightarrow> int \<Rightarrow> failure + bool" where
  "equal_substring_bytes a a_start a_len b b_start =
     (if \<not> (0 \<le> a_start \<and> 0 \<le> a_len \<and> a_start + a_len \<le> int (length a) \<and>
             0 \<le> b_start \<and> b_start \<le> int (length b))
      then Inl (Assert ''a_start + a_len <= real_a->len'')
      else Inr (take (nat a_len) (drop (nat a_start) a) = take (nat a_len) (drop (nat b_start) b) \<and>
                b_start + a_len \<le> int (length b)))"

definition dbus_string_equal_substring ::
  "memory \<Rightarrow> strref \<Rightarrow> int \<Rightarrow> int \<Rightarrow> strref \<Rightarrow> int \<Rightarrow> failure + bool" where
  "dbus_string_equal_substring h a a_start a_len b b_start =
     equal_substring_bytes (strs h a) a_start a_len (strs h b) b_start"

text \<open>Reading and overwriting \<open>n\<close> bytes in place, through a pointer into the data.\<close>

definition read_bytes :: "memory \<Rightarrow> strref \<Rightarrow> int \<Rightarrow> nat \<Rightarrow> failure + byte list" where
  "read_bytes h s pos n =
     (if 0 \<le> pos \<and> pos + int n \<le> dbus_string_get_length h s
      then Inr (take n (drop (nat pos) (strs h s)))
      else Inl Invalid_read)"

definition write_bytes :: "strref \<Rightarrow> int \<Rightarrow> byte list \<Rightarrow> memory \<Rightarrow> failure + memory" where
  "write_bytes s pos bs h =
     (if 0 \<le> pos \<and> pos + int (length bs) \<le> dbus_string_get_length h s
      then Inr (h\<lparr>strs := (strs h)(s := take (nat pos) (strs h s) @ bs @
                                         drop (nat pos + length bs) (strs h s))\<rparr>)
      else Inl (Assert ''start + len <= real->len''))"

subsection \<open>Integers in memory\<close>

text \<open>
  The bytes of a word with the least significant byte first, and the word of such bytes.
  A machine stores a word in its own byte order; swapping a word reverses its bytes.
\<close>

fun le_bytes :: "nat \<Rightarrow> 'a::len word \<Rightarrow> byte list" where
  "le_bytes 0 w = []"
| "le_bytes (Suc n) w = ucast w # le_bytes n (drop_bit 8 w)"

fun le_word :: "byte list \<Rightarrow> 'a::len word" where
  "le_word [] = 0"
| "le_word (b # bs) = ucast b OR push_bit 8 (le_word bs)"

definition stored_bytes :: "memory \<Rightarrow> nat \<Rightarrow> 'a::len word \<Rightarrow> byte list" where
  "stored_bytes h n w =
     (if compiler_byte_order h = DBUS_LITTLE_ENDIAN then le_bytes n w else rev (le_bytes n w))"

definition loaded_word :: "memory \<Rightarrow> byte list \<Rightarrow> 'a::len word" where
  "loaded_word h bs =
     (if compiler_byte_order h = DBUS_LITTLE_ENDIAN then le_word bs else le_word (rev bs))"

text \<open>
  Modelled from the spec: the byte-swapping macros (their header is not among the
  sources); section 4.1: the codec swaps when the requested order differs from the order
  of the host, and conversion from or to a named order swaps exactly on a host of the
  other order.
\<close>

definition DBUS_UINT32_SWAP_LE_BE :: "32 word \<Rightarrow> 32 word" where
  "DBUS_UINT32_SWAP_LE_BE w = le_word (rev (le_bytes 4 w))"

definition DBUS_UINT64_SWAP_LE_BE :: "64 word \<Rightarrow> 64 word" where
  "DBUS_UINT64_SWAP_LE_BE w = le_word (rev (le_bytes 8 w))"

definition DBUS_UINT32_FROM_LE :: "memory \<Rightarrow> 32 word \<Rightarrow> 32 word" where
  "DBUS_UINT32_FROM_LE h w =
     (if compiler_byte_order h = DBUS_LITTLE_ENDIAN then w else DBUS_UINT32_SWAP_LE_BE w)"

definition DBUS_UINT32_FROM_BE :: "memory \<Rightarrow> 32 word \<Rightarrow> 32 word" where
  "DBUS_UINT32_FROM_BE h w =
     (if compiler_byte_order h = DBUS_LITTLE_ENDIAN then DBUS_UINT32_SWAP_LE_BE w else w)"

definition DBUS_UINT32_TO_LE :: "memory \<Rightarrow> 32 word \<Rightarrow> 32 word" where
  "DBUS_UINT32_TO_LE h w = DBUS_UINT32_FROM_LE h w"

definition DBUS_UINT32_TO_BE :: "memory \<Rightarrow> 32 word \<Rightarrow> 32 word" where
  "DBUS_UINT32_TO_BE h w = DBUS_UINT32_FROM_BE h w"

subsection \<open>Basic values\<close>

text \<open>
  A \<^verbatim>\<open>DBusBasicValue\<close> is a union; the type code passed along tells which member is
  read or written. The members are one byte, four bytes, eight bytes (a 64-bit integer or
  the bits of a double, which the codec only ever copies) and a pointer to a C string,
  which is modelled by the bytes behind the pointer. The characters of a C string are the
  bytes before its first nul.
\<close>

datatype DBusBasicValue = Byt byte | U32 "32 word" | U64 "64 word" | Str "byte list"

definition c_string :: "byte list \<Rightarrow> byte list" where
  "c_string bs = takeWhile (\<lambda>b. b \<noteq> 0) bs"

definition strlen :: "byte list \<Rightarrow> int" where
  "strlen bs = int (length (c_string bs))"


subsection \<open>Packing and unpacking at a position of a string\<close>

text \<open>
  The data of a string starts at an address that is a multiple of eight, so a pointer into
  it is aligned exactly when its offset is. Conversion of an unsigned 32-bit value to
  \<^verbatim>\<open>int\<close> keeps the bits.
\<close>

definition int_of_uint32 :: "32 word \<Rightarrow> int" where
  "int_of_uint32 w = sint w"

definition unpack_4_octets :: "memory \<Rightarrow> int \<Rightarrow> strref \<Rightarrow> int \<Rightarrow> failure + 32 word" where
  "unpack_4_octets h byte_order s pos =
     (if DBUS_ALIGN_VALUE pos 4 \<noteq> pos then Inl (Assert ''_DBUS_ALIGN_ADDRESS (data, 4) == data'')
      else
        (case read_bytes h s pos 4 of
           Inl e \<Rightarrow> Inl e
         | Inr data \<Rightarrow>
             Inr (if byte_order = DBUS_LITTLE_ENDIAN then DBUS_UINT32_FROM_LE h (loaded_word h data)
                  else DBUS_UINT32_FROM_BE h (loaded_word h data))))"

definition pack_4_octets :: "32 word \<Rightarrow> int \<Rightarrow> strref \<Rightarrow> int \<Rightarrow> memory \<Rightarrow> failure + memory" where
  "pack_4_octets v byte_order s pos h =
     (if DBUS_ALIGN_VALUE pos 4 \<noteq> pos then Inl (Assert ''_DBUS_ALIGN_ADDRESS (data, 4) == data'')
      else write_bytes s pos
             (stored_bytes h 4 (if byte_order = DBUS_LITTLE_ENDIAN then DBUS_UINT32_TO_LE h v
                                else DBUS_UINT32_TO_BE h v)) h)"

definition set_4_octets :: "strref \<Rightarrow> int \<Rightarrow> int \<Rightarrow> 32 word \<Rightarrow> memory \<Rightarrow> failure + memory" where
  "set_4_octets s byte_order offset v h =
     (if \<not> (byte_order = DBUS_LITTLE_ENDIAN \<or> byte_order = DBUS_BIG_ENDIAN)
      then Inl (Assert ''byte_order == DBUS_LITTLE_ENDIAN || byte_order == DBUS_BIG_ENDIAN'')
      else pack_4_octets v byte_order s offset h)"

definition dbus_marshal_set_uint32 :: "strref \<Rightarrow> int \<Rightarrow> int \<Rightarrow> 32 word \<Rightarrow> memory \<Rightarrow> failure + memory" where
  "dbus_marshal_set_uint32 s byte_order offset v h = set_4_octets s byte_order offset v h"

text \<open>\<^verbatim>\<open>demarshal_4_octets\<close> and \<^verbatim>\<open>_dbus_demarshal_uint32\<close>: the value and the new position.\<close>

definition demarshal_4_octets :: "memory \<Rightarrow> strref \<Rightarrow> int \<Rightarrow> int \<Rightarrow> failure + (32 word \<times> int)" where
  "demarshal_4_octets h s byte_order pos =
     (let pos = DBUS_ALIGN_VALUE pos 4
      in case unpack_4_octets h byte_order s pos of
           Inl e \<Rightarrow> Inl e
         | Inr v \<Rightarrow> Inr (v, pos + 4))"

definition dbus_demarshal_uint32 :: "memory \<Rightarrow> strref \<Rightarrow> int \<Rightarrow> int \<Rightarrow> failure + (32 word \<times> int)" where
  "dbus_demarshal_uint32 h s byte_order pos = demarshal_4_octets h s byte_order pos"

subsection \<open>Demarshaling and skipping\<close>

text \<open>
  The C string behind a pointer into the data of a string: the bytes from the position to
  the next nul, the terminating nul of the string at the latest.
\<close>

definition string_at :: "memory \<Rightarrow> strref \<Rightarrow> int \<Rightarrow> failure + byte list" where
  "string_at h s pos =
     (if 0 \<le> pos \<and> pos \<le> dbus_string_get_length h s
      then Inr (c_string (drop (nat pos) (strs h s)))
      else Inl Invalid_read)"

text \<open>
  \<^verbatim>\<open>_dbus_demarshal_basic_type (str, type, value, byte_order, pos, new_pos)\<close>: the value
  stored through \<^verbatim>\<open>value\<close> and the position stored through \<^verbatim>\<open>new_pos\<close>.
\<close>

definition dbus_demarshal_basic_type ::
  "memory \<Rightarrow> strref \<Rightarrow> int \<Rightarrow> int \<Rightarrow> int \<Rightarrow> failure + (DBusBasicValue \<times> int)" where
  "dbus_demarshal_basic_type h s type byte_order pos =
     (if type = DBUS_TYPE_BYTE \<or> type = DBUS_TYPE_BOOLEAN then
        (case dbus_string_get_byte h s pos of
           Inl e \<Rightarrow> Inl e
         | Inr b \<Rightarrow> Inr (Byt (word_of_int b), pos + 1))
      else if type = DBUS_TYPE_INT32 \<or> type = DBUS_TYPE_UINT32 then
        (let pos = DBUS_ALIGN_VALUE pos 4
         in case read_bytes h s pos 4 of
              Inl e \<Rightarrow> Inl e
            | Inr data \<Rightarrow>
                (let u32 = loaded_word h data;
                     u32 = (if byte_order \<noteq> compiler_byte_order h then DBUS_UINT32_SWAP_LE_BE u32
                            else u32)
                 in Inr (U32 u32, pos + 4)))
      else if type = DBUS_TYPE_INT64 \<or> type = DBUS_TYPE_UINT64 \<or> type = DBUS_TYPE_DOUBLE then
        (let pos = DBUS_ALIGN_VALUE pos 8
         in case read_bytes h s pos 8 of
              Inl e \<Rightarrow> Inl e
            | Inr data \<Rightarrow>
                (let u64 = loaded_word h data;
                     u64 = (if byte_order \<noteq> compiler_byte_order h then DBUS_UINT64_SWAP_LE_BE u64
                            else u64)
                 in Inr (U64 u64, pos + 8)))
      else if type = DBUS_TYPE_STRING \<or> type = DBUS_TYPE_OBJECT_PATH then
        (case dbus_demarshal_uint32 h s byte_order pos of
           Inl e \<Rightarrow> Inl e
         | Inr (v, pos) \<Rightarrow>
             (let len = int_of_uint32 v
              in case string_at h s pos of
                   Inl e \<Rightarrow> Inl e
                 | Inr cs \<Rightarrow> Inr (Str cs, pos + (len + 1))))
      else if type = DBUS_TYPE_SIGNATURE then
        (case dbus_string_get_byte h s pos of
           Inl e \<Rightarrow> Inl e
         | Inr len \<Rightarrow>
             (let pos = pos + 1
              in case string_at h s pos of
                   Inl e \<Rightarrow> Inl e
                 | Inr cs \<Rightarrow> Inr (Str cs, pos + (len + 1))))
      else Inl (Not_reached ''not a basic type''))"

text \<open>\<^verbatim>\<open>_dbus_marshal_skip_basic_type (str, type, byte_order, &pos)\<close>: the new position.\<close>

definition dbus_marshal_skip_basic_type ::
  "memory \<Rightarrow> strref \<Rightarrow> int \<Rightarrow> int \<Rightarrow> int \<Rightarrow> failure + int" where
  "dbus_marshal_skip_basic_type h s type byte_order pos =
     (if type = DBUS_TYPE_BYTE \<or> type = DBUS_TYPE_BOOLEAN then Inr (pos + 1)
      else if type = DBUS_TYPE_INT32 \<or> type = DBUS_TYPE_UINT32 then
        Inr (DBUS_ALIGN_VALUE pos 4 + 4)
      else if type = DBUS_TYPE_INT64 \<or> type = DBUS_TYPE_UINT64 \<or> type = DBUS_TYPE_DOUBLE then
        Inr (DBUS_ALIGN_VALUE pos 8 + 8)
      else if type = DBUS_TYPE_STRING \<or> type = DBUS_TYPE_OBJECT_PATH then
        (case dbus_demarshal_uint32 h s byte_order pos of
           Inl e \<Rightarrow> Inl e
         | Inr (v, pos) \<Rightarrow> Inr (pos + (int_of_uint32 v + 1)))
      else if type = DBUS_TYPE_SIGNATURE then
        (case dbus_string_get_byte h s pos of
           Inl e \<Rightarrow> Inl e
         | Inr len \<Rightarrow> Inr (pos + (len + 2)))
      else Inl (Not_reached ''not a basic type''))"

text \<open>
  \<^verbatim>\<open>_dbus_marshal_skip_array (str, byte_order, element_type, &pos)\<close>: the new position.
  The sum \<^verbatim>\<open>i + array_len\<close> of an \<^verbatim>\<open>int\<close> and a \<^verbatim>\<open>dbus_uint32_t\<close> is formed in
  unsigned 32-bit arithmetic and stored in an \<^verbatim>\<open>int\<close>, so it wraps around.
\<close>

definition dbus_marshal_skip_array ::
  "memory \<Rightarrow> strref \<Rightarrow> int \<Rightarrow> int \<Rightarrow> int \<Rightarrow> failure + int" where
  "dbus_marshal_skip_array h s byte_order element_type pos =
     (let i = DBUS_ALIGN_VALUE pos 4
      in case dbus_demarshal_basic_type h s DBUS_TYPE_UINT32 byte_order i of
           Inl e \<Rightarrow> Inl e
         | Inr (v, i) \<Rightarrow>
             (case dbus_type_get_alignment element_type of
                Inl e \<Rightarrow> Inl e
              | Inr alignment \<Rightarrow>
                  (case v of
                     U32 array_len \<Rightarrow> Inr (to_int (DBUS_ALIGN_VALUE i alignment + uint array_len))
                   | _ \<Rightarrow> Inl Invalid_read)))"

subsection \<open>Marshaling\<close>

text \<open>
  A marshaling function returns its flag, the position it stored through \<^verbatim>\<open>pos_after\<close>
  (\<open>None\<close> when it stored nothing there) and the memory.
\<close>

type_synonym marshal_result = "failure + (bool \<times> int option \<times> memory)"

definition marshal_4_octets :: "strref \<Rightarrow> int \<Rightarrow> 32 word \<Rightarrow> int \<Rightarrow> memory \<Rightarrow> marshal_result" where
  "marshal_4_octets s insert_at v byte_order h =
     (let v = (if byte_order \<noteq> compiler_byte_order h then DBUS_UINT32_SWAP_LE_BE v else v);
          orig_len = dbus_string_get_length h s
      in case dbus_string_insert_4_aligned s insert_at (stored_bytes h 4 v) h of
           Inl e \<Rightarrow> Inl e
         | Inr (ok, h') \<Rightarrow>
             (let pos_after = insert_at + (dbus_string_get_length h' s - orig_len)
              in if \<not> pos_after \<le> dbus_string_get_length h' s
                 then Inl (Assert ''*pos_after <= _dbus_string_get_length (str)'')
                 else Inr (ok, Some pos_after, h')))"

definition marshal_8_octets :: "strref \<Rightarrow> int \<Rightarrow> 64 word \<Rightarrow> int \<Rightarrow> memory \<Rightarrow> marshal_result" where
  "marshal_8_octets s insert_at v byte_order h =
     (let v = (if byte_order \<noteq> compiler_byte_order h then DBUS_UINT64_SWAP_LE_BE v else v);
          orig_len = dbus_string_get_length h s
      in case dbus_string_insert_8_aligned s insert_at (stored_bytes h 8 v) h of
           Inl e \<Rightarrow> Inl e
         | Inr (ok, h') \<Rightarrow>
             Inr (ok, Some (insert_at + dbus_string_get_length h' s - orig_len), h'))"

datatype marshal_as = MARSHAL_AS_STRING | MARSHAL_AS_SIGNATURE | MARSHAL_AS_BYTE_ARRAY

text \<open>
  \<^verbatim>\<open>marshal_len_followed_by_bytes\<close>; \<open>val\<close> are the bytes behind the pointer
  \<^verbatim>\<open>value\<close>. The label \<^verbatim>\<open>oom\<close> deletes what was inserted up to the position reached.
\<close>

definition marshal_oom :: "strref \<Rightarrow> int \<Rightarrow> int \<Rightarrow> memory \<Rightarrow> marshal_result" where
  "marshal_oom s insert_at pos h =
     (case dbus_string_delete s insert_at (pos - insert_at) h of
        Inl e \<Rightarrow> Inl e
      | Inr h' \<Rightarrow> Inr (False, None, h'))"

definition marshal_len_followed_by_bytes ::
  "marshal_as \<Rightarrow> strref \<Rightarrow> int \<Rightarrow> byte list \<Rightarrow> int \<Rightarrow> int \<Rightarrow> memory \<Rightarrow> marshal_result" where
  "marshal_len_followed_by_bytes how s insert_at val data_len byte_order h =
     (let value_len = (if how = MARSHAL_AS_BYTE_ARRAY then data_len else data_len + 1);
          pos = insert_at;
          len_written =
            (if how = MARSHAL_AS_SIGNATURE then
               (case dbus_string_insert_byte s pos (word_of_int data_len) h of
                  Inl e \<Rightarrow> Inl e
                | Inr (ok, h') \<Rightarrow> Inr (ok, if ok then pos + 1 else pos, h'))
             else
               (case marshal_4_octets s pos (word_of_int data_len) byte_order h of
                  Inl e \<Rightarrow> Inl e
                | Inr (ok, p, h') \<Rightarrow> Inr (ok, case p of Some p' \<Rightarrow> p' | None \<Rightarrow> pos, h')))
      in case len_written of
           Inl e \<Rightarrow> Inl e
         | Inr (False, pos, h') \<Rightarrow> marshal_oom s insert_at pos h'
         | Inr (True, pos, h') \<Rightarrow>
             (case copy_bytes_len val 0 value_len s pos h' of
                Inl e \<Rightarrow> Inl e
              | Inr (False, h'') \<Rightarrow> marshal_oom s insert_at pos h''
              | Inr (True, h'') \<Rightarrow>
                  (case equal_substring_bytes val 0 value_len (strs h'' s) pos of
                     Inl e \<Rightarrow> Inl e
                   | Inr False \<Rightarrow> Inl (Assert ''_dbus_string_equal_substring (&value_str, 0, value_len, str, pos)'')
                   | Inr True \<Rightarrow> Inr (True, Some (pos + value_len), h''))))"

definition marshal_string :: "strref \<Rightarrow> int \<Rightarrow> byte list \<Rightarrow> int \<Rightarrow> memory \<Rightarrow> marshal_result" where
  "marshal_string s insert_at val byte_order h =
     marshal_len_followed_by_bytes MARSHAL_AS_STRING s insert_at (val @ [0]) (strlen val) byte_order h"

definition marshal_signature :: "strref \<Rightarrow> int \<Rightarrow> byte list \<Rightarrow> memory \<Rightarrow> marshal_result" where
  "marshal_signature s insert_at val h =
     marshal_len_followed_by_bytes MARSHAL_AS_SIGNATURE s insert_at (val @ [0]) (strlen val)
       (compiler_byte_order h) h"

text \<open>
  \<^verbatim>\<open>_dbus_marshal_basic_type (str, insert_at, type, value, byte_order, pos_after)\<close>.
  Reading a member of the union other than the one that holds the value is an invalid read.
\<close>

definition dbus_marshal_basic_type ::
  "strref \<Rightarrow> int \<Rightarrow> int \<Rightarrow> DBusBasicValue \<Rightarrow> int \<Rightarrow> memory \<Rightarrow> marshal_result" where
  "dbus_marshal_basic_type s insert_at type v byte_order h =
     (if type = DBUS_TYPE_BYTE \<or> type = DBUS_TYPE_BOOLEAN then
        (case v of
           Byt b \<Rightarrow>
             (case dbus_string_insert_byte s insert_at b h of
                Inl e \<Rightarrow> Inl e
              | Inr (False, h') \<Rightarrow> Inr (False, None, h')
              | Inr (True, h') \<Rightarrow> Inr (True, Some (insert_at + 1), h'))
         | _ \<Rightarrow> Inl Invalid_read)
      else if type = DBUS_TYPE_INT32 \<or> type = DBUS_TYPE_UINT32 then
        (case v of
           U32 u32 \<Rightarrow> marshal_4_octets s insert_at u32 byte_order h
         | _ \<Rightarrow> Inl Invalid_read)
      else if type = DBUS_TYPE_INT64 \<or> type = DBUS_TYPE_UINT64 \<or> type = DBUS_TYPE_DOUBLE then
        (case v of
           U64 u64 \<Rightarrow> marshal_8_octets s insert_at u64 byte_order h
         | _ \<Rightarrow> Inl Invalid_read)
      else if type = DBUS_TYPE_STRING \<or> type = DBUS_TYPE_OBJECT_PATH then
        (case v of
           Str cs \<Rightarrow> marshal_string s insert_at cs byte_order h
         | _ \<Rightarrow> Inl Invalid_read)
      else if type = DBUS_TYPE_SIGNATURE then
        (case v of
           Str cs \<Rightarrow> marshal_signature s insert_at cs h
         | _ \<Rightarrow> Inl Invalid_read)
      else Inl (Not_reached ''not a basic type''))"

subsection \<open>Arrays of basic values\<close>

definition marshal_1_octets_array ::
  "strref \<Rightarrow> int \<Rightarrow> byte list \<Rightarrow> int \<Rightarrow> int \<Rightarrow> memory \<Rightarrow> marshal_result" where
  "marshal_1_octets_array s insert_at val len byte_order h =
     marshal_len_followed_by_bytes MARSHAL_AS_BYTE_ARRAY s insert_at val len byte_order h"

text \<open>
  The helpers for elements of four and of eight bytes begin with an unconditional
  \<^verbatim>\<open>_dbus_assert_not_reached ("FIXME insert_at")\<close>; nothing of their bodies runs.
\<close>

definition marshal_4_octets_array ::
  "strref \<Rightarrow> int \<Rightarrow> byte list \<Rightarrow> int \<Rightarrow> int \<Rightarrow> memory \<Rightarrow> failure + (bool \<times> memory)" where
  "marshal_4_octets_array s insert_at val len byte_order h = Inl (Not_reached ''FIXME insert_at'')"

definition marshal_8_octets_array ::
  "strref \<Rightarrow> int \<Rightarrow> byte list \<Rightarrow> int \<Rightarrow> int \<Rightarrow> memory \<Rightarrow> failure + (bool \<times> memory)" where
  "marshal_8_octets_array s insert_at val len byte_order h = Inl (Not_reached ''FIXME insert_at'')"

definition dbus_marshal_basic_type_array ::
  "strref \<Rightarrow> int \<Rightarrow> int \<Rightarrow> byte list \<Rightarrow> int \<Rightarrow> int \<Rightarrow> memory \<Rightarrow> marshal_result" where
  "dbus_marshal_basic_type_array s insert_at element_type val len byte_order h =
     (if element_type = DBUS_TYPE_BOOLEAN \<or> element_type = DBUS_TYPE_BYTE then
        marshal_1_octets_array s insert_at val len byte_order h
      else if element_type = DBUS_TYPE_INT32 \<or> element_type = DBUS_TYPE_UINT32 then
        (case marshal_4_octets_array s insert_at val len byte_order h of
           Inl e \<Rightarrow> Inl e
         | Inr (ok, h') \<Rightarrow> Inr (ok, None, h'))
      else if element_type = DBUS_TYPE_INT64 \<or> element_type = DBUS_TYPE_UINT64 \<or>
              element_type = DBUS_TYPE_DOUBLE then
        (case marshal_8_octets_array s insert_at val len byte_order h of
           Inl e \<Rightarrow> Inl e
         | Inr (ok, h') \<Rightarrow> Inr (ok, None, h'))
      else if element_type = DBUS_TYPE_STRING \<or> element_type = DBUS_TYPE_OBJECT_PATH then
        Inl (Not_reached ''handle string arrays'')
      else if element_type = DBUS_TYPE_SIGNATURE then
        Inl (Not_reached ''handle signature'')
      else Inl (Not_reached ''non basic type in array''))"

text \<open>
  What a value reads back as: a string pointer yields the characters of the C string, any
  other value yields itself.
\<close>

definition read_back :: "DBusBasicValue \<Rightarrow> DBusBasicValue" where
  "read_back v = (case v of Str cs \<Rightarrow> Str (c_string cs) | _ \<Rightarrow> v)"

text \<open>The values of the ten basic types: which member of the union a type code selects.\<close>

definition basic_value :: "int \<Rightarrow> DBusBasicValue \<Rightarrow> bool" where
  "basic_value t v =
     (case v of
        Byt b \<Rightarrow> t = DBUS_TYPE_BYTE \<or> t = DBUS_TYPE_BOOLEAN
      | U32 w \<Rightarrow> t = DBUS_TYPE_INT32 \<or> t = DBUS_TYPE_UINT32
      | U64 w \<Rightarrow> t = DBUS_TYPE_INT64 \<or> t = DBUS_TYPE_UINT64 \<or> t = DBUS_TYPE_DOUBLE
      | Str cs \<Rightarrow> t = DBUS_TYPE_STRING \<or> t = DBUS_TYPE_OBJECT_PATH \<or> t = DBUS_TYPE_SIGNATURE)"

text \<open>
  What \<^verbatim>\<open>marshal_len_followed_by_bytes\<close> puts in front of the data: one length byte
  for a signature, otherwise the padding to a 4-byte boundary and the 32-bit length.
\<close>

definition length_prefix :: "marshal_as \<Rightarrow> memory \<Rightarrow> int \<Rightarrow> int \<Rightarrow> int \<Rightarrow> byte list" where
  "length_prefix how h i data_len byte_order =
     (if how = MARSHAL_AS_SIGNATURE then [word_of_int data_len]
      else replicate (nat (DBUS_ALIGN_VALUE i 4 - i)) 0 @
           stored_bytes h 4 (if byte_order \<noteq> compiler_byte_order h
                             then DBUS_UINT32_SWAP_LE_BE (word_of_int data_len)
                             else word_of_int data_len))"

section \<open>Recursive types: the type reader (dbus-marshal-recursive.c)\<close>

subsection \<open>Readers\<close>

text \<open>
  The seven reader classes of the table \<^verbatim>\<open>all_reader_classes\<close>. A class says whether
  the reader walks types only, and which of the functions below are its \<^verbatim>\<open>recurse\<close>,
  \<^verbatim>\<open>check_finished\<close> and \<^verbatim>\<open>next\<close>.
\<close>

datatype DBusTypeReaderClass =
    body_reader_class
  | body_types_only_reader_class
  | struct_reader_class
  | struct_types_only_reader_class
  | array_reader_class
  | array_types_only_reader_class
  | variant_reader_class

definition types_only :: "DBusTypeReaderClass \<Rightarrow> bool" where
  "types_only klass =
     (case klass of
        body_reader_class \<Rightarrow> False
      | body_types_only_reader_class \<Rightarrow> True
      | struct_reader_class \<Rightarrow> False
      | struct_types_only_reader_class \<Rightarrow> True
      | array_reader_class \<Rightarrow> False
      | array_types_only_reader_class \<Rightarrow> True
      | variant_reader_class \<Rightarrow> False)"

text \<open>
  Modelled from the spec: \<^verbatim>\<open>struct DBusTypeReader\<close> (dbus-marshal-recursive.h is not
  among the sources), with the fields that the functions of the reader use. Section 4.1:
  a reader holds the byte order, a cursor into the type signature, a cursor into the
  value bytes and a class tag; an array reader also remembers the start of the element
  region and, in three bits, the distance \<^verbatim>\<open>array_len_offset\<close> from the end of the
  length word to that start. Cursors are \<^verbatim>\<open>int\<close>; they are modelled as integers
  without a bound.
\<close>

record DBusTypeReader =
  r_byte_order :: int
  r_finished :: bool
  r_array_len_offset :: "3 word"
  r_type_str :: strref
  r_type_pos :: int
  r_value_str :: strref
  r_value_pos :: int
  r_klass :: DBusTypeReaderClass
  r_array_start_pos :: int

definition first_type_in_signature :: "memory \<Rightarrow> strref \<Rightarrow> int \<Rightarrow> failure + int" where
  "first_type_in_signature h str pos =
     (case dbus_string_get_byte h str pos of
        Inl e \<Rightarrow> Inl e
      | Inr t \<Rightarrow> Inr (if t = DBUS_STRUCT_BEGIN_CHAR then DBUS_TYPE_STRUCT else t))"

definition element_type_get_alignment :: "memory \<Rightarrow> strref \<Rightarrow> int \<Rightarrow> failure + int" where
  "element_type_get_alignment h str pos =
     (case first_type_in_signature h str pos of
        Inl e \<Rightarrow> Inl e
      | Inr t \<Rightarrow> dbus_type_get_alignment t)"

definition reader_init ::
  "DBusTypeReader \<Rightarrow> int \<Rightarrow> strref \<Rightarrow> int \<Rightarrow> strref \<Rightarrow> int \<Rightarrow> DBusTypeReader" where
  "reader_init reader byte_order type_str type_pos value_str value_pos =
     reader\<lparr>r_byte_order := byte_order, r_finished := False, r_type_str := type_str,
            r_type_pos := type_pos, r_value_str := value_str, r_value_pos := value_pos\<rparr>"

subsection \<open>Recursing into a container\<close>

text \<open>
  Each \<^verbatim>\<open>recurse\<close> function fills in the reader \<open>sub\<close> from the reader \<open>parent\<close>; the
  result is \<open>sub\<close> as the function leaves it.
\<close>

definition base_reader_recurse :: "DBusTypeReader \<Rightarrow> DBusTypeReader \<Rightarrow> DBusTypeReader" where
  "base_reader_recurse sub parent =
     reader_init sub (r_byte_order parent) (r_type_str parent) (r_type_pos parent)
       (r_value_str parent) (r_value_pos parent)"

definition struct_types_only_reader_recurse ::
  "memory \<Rightarrow> DBusTypeReader \<Rightarrow> DBusTypeReader \<Rightarrow> failure + DBusTypeReader" where
  "struct_types_only_reader_recurse h sub parent =
     (let sub = base_reader_recurse sub parent
      in case dbus_string_get_byte h (r_type_str sub) (r_type_pos sub) of
           Inl e \<Rightarrow> Inl e
         | Inr c \<Rightarrow>
             if c \<noteq> DBUS_STRUCT_BEGIN_CHAR
             then Inl (Assert ''_dbus_string_get_byte (sub->type_str, sub->type_pos) == DBUS_STRUCT_BEGIN_CHAR'')
             else Inr (sub\<lparr>r_type_pos := r_type_pos sub + 1\<rparr>))"

definition struct_reader_recurse ::
  "memory \<Rightarrow> DBusTypeReader \<Rightarrow> DBusTypeReader \<Rightarrow> failure + DBusTypeReader" where
  "struct_reader_recurse h sub parent =
     (case struct_types_only_reader_recurse h sub parent of
        Inl e \<Rightarrow> Inl e
      | Inr sub \<Rightarrow> Inr (sub\<lparr>r_value_pos := DBUS_ALIGN_VALUE (r_value_pos sub) 8\<rparr>))"

definition array_types_only_reader_recurse :: "DBusTypeReader \<Rightarrow> DBusTypeReader \<Rightarrow> DBusTypeReader" where
  "array_types_only_reader_recurse sub parent =
     (let sub = base_reader_recurse sub parent;
          sub = sub\<lparr>r_type_pos := r_type_pos sub + 1\<rparr>;
          sub = sub\<lparr>r_array_start_pos := DBUS_INT_MAX\<rparr>
      in sub\<lparr>r_array_len_offset := 7\<rparr>)"

text \<open>
  \<^verbatim>\<open>array_reader_get_array_len\<close>: the length word is read at the position that the
  offset gives back from the start of the elements. A read outside the string is not an
  assertion of this function; it shows as \<open>Invalid_read\<close>.
\<close>

definition array_reader_get_array_len :: "memory \<Rightarrow> DBusTypeReader \<Rightarrow> failure + int" where
  "array_reader_get_array_len h reader =
     (let len_pos = r_array_start_pos reader - uint (r_array_len_offset reader) - 4
      in case dbus_demarshal_basic_type h (r_value_str reader) DBUS_TYPE_UINT32
                (r_byte_order reader) len_pos of
           Inl e \<Rightarrow> Inl e
         | Inr (v, new_pos) \<Rightarrow>
             if \<not> (r_array_start_pos reader - len_pos - 4 < 8)
             then Inl (Assert ''reader->u.array.start_pos - len_pos - 4 < 8'')
             else (case v of
                     U32 array_len \<Rightarrow> Inr (int_of_uint32 array_len)
                   | _ \<Rightarrow> Inl Invalid_read))"

definition array_reader_recurse ::
  "memory \<Rightarrow> DBusTypeReader \<Rightarrow> DBusTypeReader \<Rightarrow> failure + DBusTypeReader" where
  "array_reader_recurse h sub parent =
     (let sub = array_types_only_reader_recurse sub parent;
          sub = sub\<lparr>r_value_pos := DBUS_ALIGN_VALUE (r_value_pos sub) 4\<rparr>;
          len_pos = r_value_pos sub;
          sub = sub\<lparr>r_value_pos := r_value_pos sub + 4\<rparr>
      in case element_type_get_alignment h (r_type_str sub) (r_type_pos sub) of
           Inl e \<Rightarrow> Inl e
         | Inr alignment \<Rightarrow>
             (let sub = sub\<lparr>r_value_pos := DBUS_ALIGN_VALUE (r_value_pos sub) alignment\<rparr>;
                  sub = sub\<lparr>r_array_start_pos := r_value_pos sub\<rparr>
              in if \<not> (r_array_start_pos sub - (len_pos + 4) < 8)
                 then Inl (Assert ''(sub->u.array.start_pos - (len_pos + 4)) < 8'')
                 else Inr (sub\<lparr>r_array_len_offset :=
                                  word_of_int (r_array_start_pos sub - (len_pos + 4))\<rparr>)))"

definition variant_reader_recurse ::
  "memory \<Rightarrow> DBusTypeReader \<Rightarrow> DBusTypeReader \<Rightarrow> failure + DBusTypeReader" where
  "variant_reader_recurse h sub parent =
     (let sub = base_reader_recurse sub parent
      in case dbus_string_get_byte h (r_value_str sub) (r_value_pos sub) of
           Inl e \<Rightarrow> Inl e
         | Inr sig_len \<Rightarrow>
             (let sub = sub\<lparr>r_type_str := r_value_str sub\<rparr>;
                  sub = sub\<lparr>r_type_pos := r_value_pos sub + 1\<rparr>;
                  sub = sub\<lparr>r_value_pos := r_type_pos sub + sig_len + 1\<rparr>
              in Inr (sub\<lparr>r_value_pos := DBUS_ALIGN_VALUE (r_value_pos sub) 8\<rparr>)))"

definition array_reader_check_finished :: "memory \<Rightarrow> DBusTypeReader \<Rightarrow> failure + bool" where
  "array_reader_check_finished h reader =
     (case array_reader_get_array_len h reader of
        Inl e \<Rightarrow> Inl e
      | Inr len \<Rightarrow>
          (let end_pos = r_array_start_pos reader + len
           in if \<not> (r_value_pos reader \<le> end_pos)
              then Inl (Assert ''reader->value_pos <= end_pos'')
              else if \<not> (r_value_pos reader \<ge> r_array_start_pos reader)
              then Inl (Assert ''reader->value_pos >= reader->u.array.start_pos'')
              else Inr (r_value_pos reader = end_pos)))"

text \<open>
  \<^verbatim>\<open>_dbus_type_reader_init\<close>, and a reader variable before anything is stored in it
  (\<^verbatim>\<open>DBusTypeReader sub;\<close>): the model fixes one content for it.
\<close>

definition dbus_type_reader_init ::
  "DBusTypeReader \<Rightarrow> int \<Rightarrow> strref \<Rightarrow> int \<Rightarrow> strref \<Rightarrow> int \<Rightarrow> DBusTypeReader" where
  "dbus_type_reader_init reader byte_order type_str type_pos value_str value_pos =
     reader_init (reader\<lparr>r_klass := body_reader_class\<rparr>) byte_order type_str type_pos
       value_str value_pos"

definition uninitialized_reader :: DBusTypeReader where
  "uninitialized_reader =
     \<lparr>r_byte_order = 0, r_finished = False, r_array_len_offset = 0, r_type_str = 0,
      r_type_pos = 0, r_value_str = 0, r_value_pos = 0, r_klass = body_reader_class,
      r_array_start_pos = 0\<rparr>"

subsection \<open>Skipping over a complete type in a signature\<close>

text \<open>
  The two loops of \<^verbatim>\<open>skip_one_complete_type\<close>: over the leading array type codes, and
  over the fields of a struct until its closing parenthesis. Both stop at the nul that ends
  the string at the latest.
\<close>

function skip_array_typecodes :: "memory \<Rightarrow> strref \<Rightarrow> int \<Rightarrow> failure + int" where
  "skip_array_typecodes h type_str type_pos =
     (case dbus_string_get_byte h type_str type_pos of
        Inl e \<Rightarrow> Inl e
      | Inr c \<Rightarrow>
          if c = DBUS_TYPE_ARRAY then skip_array_typecodes h type_str (type_pos + 1)
          else Inr type_pos)"
  by pat_completeness auto
termination
proof (relation "measure (\<lambda>(h, type_str, type_pos). nat (dbus_string_get_length h type_str - type_pos))")
  show "wf (measure (\<lambda>(h, type_str, type_pos). nat (dbus_string_get_length h type_str - type_pos)))"
    by simp
next
  fix h type_str type_pos c
  assume "dbus_string_get_byte h type_str type_pos = Inr c" and "c = DBUS_TYPE_ARRAY"
  then have "type_pos < dbus_string_get_length h type_str"
    by (auto simp add: dbus_string_get_byte_def typecode split: if_splits)
  then show "((h, type_str, type_pos + 1), (h, type_str, type_pos))
               \<in> measure (\<lambda>(h, type_str, type_pos). nat (dbus_string_get_length h type_str - type_pos))"
    by simp
qed

declare skip_array_typecodes.simps [simp del]

function skip_struct_typecodes :: "memory \<Rightarrow> strref \<Rightarrow> int \<Rightarrow> int \<Rightarrow> failure + int" where
  "skip_struct_typecodes h type_str type_pos paren_depth =
     (if paren_depth > 0 then
        (case dbus_string_get_byte h type_str type_pos of
           Inl e \<Rightarrow> Inl e
         | Inr c \<Rightarrow>
             if c = DBUS_STRUCT_BEGIN_CHAR
             then skip_struct_typecodes h type_str (type_pos + 1) (paren_depth + 1)
             else if c = DBUS_STRUCT_END_CHAR
             then skip_struct_typecodes h type_str (type_pos + 1) (paren_depth - 1)
             else if c = DBUS_TYPE_INVALID
             then Inl (Not_reached ''unbalanced parens in signature'')
             else skip_struct_typecodes h type_str (type_pos + 1) paren_depth)
      else Inr type_pos)"
  by pat_completeness auto
termination
proof (relation "measure (\<lambda>(h, type_str, type_pos, paren_depth).
                            nat (dbus_string_get_length h type_str - type_pos))")
  show "wf (measure (\<lambda>(h, type_str, type_pos, paren_depth).
                       nat (dbus_string_get_length h type_str - type_pos)))"
    by simp
next
  fix h type_str type_pos paren_depth c
  assume "dbus_string_get_byte h type_str type_pos = Inr c" and "c = DBUS_STRUCT_BEGIN_CHAR"
  then have "type_pos < dbus_string_get_length h type_str"
    by (auto simp add: dbus_string_get_byte_def typecode split: if_splits)
  then show "((h, type_str, type_pos + 1, paren_depth + 1), (h, type_str, type_pos, paren_depth))
               \<in> measure (\<lambda>(h, type_str, type_pos, paren_depth).
                             nat (dbus_string_get_length h type_str - type_pos))"
    by simp
next
  fix h type_str type_pos paren_depth c
  assume "dbus_string_get_byte h type_str type_pos = Inr c" and "c = DBUS_STRUCT_END_CHAR"
  then have "type_pos < dbus_string_get_length h type_str"
    by (auto simp add: dbus_string_get_byte_def typecode split: if_splits)
  then show "((h, type_str, type_pos + 1, paren_depth - 1), (h, type_str, type_pos, paren_depth))
               \<in> measure (\<lambda>(h, type_str, type_pos, paren_depth).
                             nat (dbus_string_get_length h type_str - type_pos))"
    by simp
next
  fix h type_str type_pos paren_depth c
  assume "dbus_string_get_byte h type_str type_pos = Inr c" and "c \<noteq> DBUS_TYPE_INVALID"
  then have "type_pos < dbus_string_get_length h type_str"
    by (auto simp add: dbus_string_get_byte_def typecode split: if_splits)
  then show "((h, type_str, type_pos + 1, paren_depth), (h, type_str, type_pos, paren_depth))
               \<in> measure (\<lambda>(h, type_str, type_pos, paren_depth).
                             nat (dbus_string_get_length h type_str - type_pos))"
    by simp
qed

declare skip_struct_typecodes.simps [simp del]

definition skip_one_complete_type :: "memory \<Rightarrow> strref \<Rightarrow> int \<Rightarrow> failure + int" where
  "skip_one_complete_type h type_str type_pos =
     (case skip_array_typecodes h type_str type_pos of
        Inl e \<Rightarrow> Inl e
      | Inr type_pos \<Rightarrow>
          (case dbus_string_get_byte h type_str type_pos of
             Inl e \<Rightarrow> Inl e
           | Inr c \<Rightarrow>
               if c = DBUS_STRUCT_BEGIN_CHAR
               then skip_struct_typecodes h type_str (type_pos + 1) 1
               else Inr (type_pos + 1)))"

definition find_len_of_complete_type :: "memory \<Rightarrow> strref \<Rightarrow> int \<Rightarrow> failure + int" where
  "find_len_of_complete_type h type_str type_pos =
     (case skip_one_complete_type h type_str type_pos of
        Inl e \<Rightarrow> Inl e
      | Inr end_pos \<Rightarrow> Inr (end_pos - type_pos))"

subsection \<open>The current type, and recursing through the class\<close>

text \<open>
  Only the class of array readers has a \<^verbatim>\<open>check_finished\<close> function; the assertion on
  \<^verbatim>\<open>all_reader_classes\<close> in \<^verbatim>\<open>_dbus_type_reader_recurse\<close> compares a constant
  table with itself and is left out.
\<close>

definition dbus_type_reader_get_current_type :: "memory \<Rightarrow> DBusTypeReader \<Rightarrow> failure + int" where
  "dbus_type_reader_get_current_type h reader =
     (case (if r_finished reader then Inr True
            else if r_klass reader = array_reader_class then array_reader_check_finished h reader
            else Inr False) of
        Inl e \<Rightarrow> Inl e
      | Inr at_end \<Rightarrow>
          (case (if at_end then Inr DBUS_TYPE_INVALID
                 else first_type_in_signature h (r_type_str reader) (r_type_pos reader)) of
             Inl e \<Rightarrow> Inl e
           | Inr t \<Rightarrow>
               if t = DBUS_STRUCT_END_CHAR then Inl (Assert ''t != DBUS_STRUCT_END_CHAR'')
               else if t = DBUS_STRUCT_BEGIN_CHAR then Inl (Assert ''t != DBUS_STRUCT_BEGIN_CHAR'')
               else Inr t))"

definition dbus_type_reader_recurse ::
  "memory \<Rightarrow> DBusTypeReader \<Rightarrow> DBusTypeReader \<Rightarrow> failure + DBusTypeReader" where
  "dbus_type_reader_recurse h reader sub =
     (case first_type_in_signature h (r_type_str reader) (r_type_pos reader) of
        Inl e \<Rightarrow> Inl e
      | Inr t \<Rightarrow>
          if t = DBUS_TYPE_STRUCT then
            (if types_only (r_klass reader)
             then struct_types_only_reader_recurse h
                    (sub\<lparr>r_klass := struct_types_only_reader_class\<rparr>) reader
             else struct_reader_recurse h (sub\<lparr>r_klass := struct_reader_class\<rparr>) reader)
          else if t = DBUS_TYPE_ARRAY then
            (if types_only (r_klass reader)
             then Inr (array_types_only_reader_recurse
                         (sub\<lparr>r_klass := array_types_only_reader_class\<rparr>) reader)
             else array_reader_recurse h (sub\<lparr>r_klass := array_reader_class\<rparr>) reader)
          else if t = DBUS_TYPE_VARIANT then
            (if types_only (r_klass reader)
             then Inl (Not_reached ''can't recurse into variant typecode'')
             else variant_reader_recurse h (sub\<lparr>r_klass := variant_reader_class\<rparr>) reader)
          else Inl (Not_reached ''don't yet handle recursing into this type''))"

subsection \<open>Moving to the next value\<close>

text \<open>
  \<^verbatim>\<open>_dbus_type_reader_next\<close> calls the \<^verbatim>\<open>next\<close> function of the class, which for a
  struct or a variant recurses into it and calls \<^verbatim>\<open>_dbus_type_reader_next\<close> on the
  subreader until that returns FALSE. The functions take fuel: every call among them
  uses one unit, and \<open>None\<close> says that the fuel did not suffice. The loop
  \<^verbatim>\<open>while (_dbus_type_reader_next (&sub))\<close> is \<open>skip_to_end\<close>.
\<close>

definition array_types_only_reader_next :: "DBusTypeReader \<Rightarrow> int \<Rightarrow> DBusTypeReader" where
  "array_types_only_reader_next reader current_type = reader\<lparr>r_finished := True\<rparr>"

fun dbus_type_reader_next ::
    "nat \<Rightarrow> memory \<Rightarrow> DBusTypeReader \<Rightarrow> (failure + bool \<times> DBusTypeReader) option"
  and skip_to_end :: "nat \<Rightarrow> memory \<Rightarrow> DBusTypeReader \<Rightarrow> (failure + DBusTypeReader) option"
  and base_reader_next ::
    "nat \<Rightarrow> memory \<Rightarrow> DBusTypeReader \<Rightarrow> int \<Rightarrow> (failure + DBusTypeReader) option"
  and struct_reader_next ::
    "nat \<Rightarrow> memory \<Rightarrow> DBusTypeReader \<Rightarrow> int \<Rightarrow> (failure + DBusTypeReader) option"
  and array_reader_next ::
    "nat \<Rightarrow> memory \<Rightarrow> DBusTypeReader \<Rightarrow> int \<Rightarrow> (failure + DBusTypeReader) option"
where
  "dbus_type_reader_next 0 h reader = None"
| "dbus_type_reader_next (Suc n) h reader =
     (case dbus_type_reader_get_current_type h reader of
        Inl e \<Rightarrow> Some (Inl e)
      | Inr t \<Rightarrow>
          if t = DBUS_TYPE_INVALID then Some (Inr (False, reader))
          else
            (case (case r_klass reader of
                     body_reader_class \<Rightarrow> base_reader_next n h reader t
                   | body_types_only_reader_class \<Rightarrow> base_reader_next n h reader t
                   | struct_reader_class \<Rightarrow> struct_reader_next n h reader t
                   | struct_types_only_reader_class \<Rightarrow> struct_reader_next n h reader t
                   | array_reader_class \<Rightarrow> array_reader_next n h reader t
                   | array_types_only_reader_class \<Rightarrow>
                       Some (Inr (array_types_only_reader_next reader t))
                   | variant_reader_class \<Rightarrow> base_reader_next n h reader t) of
               None \<Rightarrow> None
             | Some (Inl e) \<Rightarrow> Some (Inl e)
             | Some (Inr reader) \<Rightarrow>
                 (case dbus_type_reader_get_current_type h reader of
                    Inl e \<Rightarrow> Some (Inl e)
                  | Inr t \<Rightarrow> Some (Inr (t \<noteq> DBUS_TYPE_INVALID, reader)))))"
| "skip_to_end 0 h sub = None"
| "skip_to_end (Suc n) h sub =
     (case dbus_type_reader_next n h sub of
        None \<Rightarrow> None
      | Some (Inl e) \<Rightarrow> Some (Inl e)
      | Some (Inr (again, sub)) \<Rightarrow> if again then skip_to_end n h sub else Some (Inr sub))"
| "base_reader_next 0 h reader current_type = None"
| "base_reader_next (Suc n) h reader current_type =
     (if current_type = DBUS_TYPE_STRUCT \<or> current_type = DBUS_TYPE_VARIANT then
        (case dbus_type_reader_recurse h reader uninitialized_reader of
           Inl e \<Rightarrow> Some (Inl e)
         | Inr sub \<Rightarrow>
             (case skip_to_end n h sub of
                None \<Rightarrow> None
              | Some (Inl e) \<Rightarrow> Some (Inl e)
              | Some (Inr sub) \<Rightarrow>
                  (let reader = (if current_type = DBUS_TYPE_VARIANT
                                 then reader\<lparr>r_type_pos := r_type_pos reader + 1\<rparr>
                                 else reader\<lparr>r_type_pos := r_type_pos sub\<rparr>)
                   in Some (Inr (if \<not> types_only (r_klass reader)
                                 then reader\<lparr>r_value_pos := r_value_pos sub\<rparr>
                                 else reader)))))
      else if current_type = DBUS_TYPE_ARRAY then
        (case (if \<not> types_only (r_klass reader) then
                 (case first_type_in_signature h (r_type_str reader) (r_type_pos reader + 1) of
                    Inl e \<Rightarrow> Inl e
                  | Inr element_type \<Rightarrow>
                      (case dbus_marshal_skip_array h (r_value_str reader) (r_byte_order reader)
                              element_type (r_value_pos reader) of
                         Inl e \<Rightarrow> Inl e
                       | Inr pos \<Rightarrow> Inr (reader\<lparr>r_value_pos := pos\<rparr>)))
               else Inr reader) of
           Inl e \<Rightarrow> Some (Inl e)
         | Inr reader \<Rightarrow>
             (case skip_one_complete_type h (r_type_str reader) (r_type_pos reader) of
                Inl e \<Rightarrow> Some (Inl e)
              | Inr pos \<Rightarrow> Some (Inr (reader\<lparr>r_type_pos := pos\<rparr>))))
      else
        (case (if \<not> types_only (r_klass reader) then
                 (case dbus_marshal_skip_basic_type h (r_value_str reader) current_type
                         (r_byte_order reader) (r_value_pos reader) of
                    Inl e \<Rightarrow> Inl e
                  | Inr pos \<Rightarrow> Inr (reader\<lparr>r_value_pos := pos\<rparr>))
               else Inr reader) of
           Inl e \<Rightarrow> Some (Inl e)
         | Inr reader \<Rightarrow> Some (Inr (reader\<lparr>r_type_pos := r_type_pos reader + 1\<rparr>))))"
| "struct_reader_next 0 h reader current_type = None"
| "struct_reader_next (Suc n) h reader current_type =
     (case base_reader_next n h reader current_type of
        None \<Rightarrow> None
      | Some (Inl e) \<Rightarrow> Some (Inl e)
      | Some (Inr reader) \<Rightarrow>
          (case dbus_string_get_byte h (r_type_str reader) (r_type_pos reader) of
             Inl e \<Rightarrow> Some (Inl e)
           | Inr t \<Rightarrow>
               if t = DBUS_STRUCT_END_CHAR
               then Some (Inr (reader\<lparr>r_type_pos := r_type_pos reader + 1, r_finished := True\<rparr>))
               else Some (Inr reader)))"
| "array_reader_next 0 h reader current_type = None"
| "array_reader_next (Suc n) h reader current_type =
     (case array_reader_get_array_len h reader of
        Inl e \<Rightarrow> Some (Inl e)
      | Inr len \<Rightarrow>
          (let end_pos = r_array_start_pos reader + len
           in if \<not> (r_value_pos reader < end_pos)
              then Some (Inl (Assert ''reader->value_pos < end_pos''))
              else if \<not> (r_value_pos reader \<ge> r_array_start_pos reader)
              then Some (Inl (Assert ''reader->value_pos >= reader->u.array.start_pos''))
              else
                (case first_type_in_signature h (r_type_str reader) (r_type_pos reader) of
                   Inl e \<Rightarrow> Some (Inl e)
                 | Inr t \<Rightarrow>
                     (case (if t = DBUS_TYPE_STRUCT \<or> t = DBUS_TYPE_VARIANT then
                              (case dbus_type_reader_recurse h reader uninitialized_reader of
                                 Inl e \<Rightarrow> Some (Inl e)
                               | Inr sub \<Rightarrow>
                                   (case skip_to_end n h sub of
                                      None \<Rightarrow> None
                                    | Some (Inl e) \<Rightarrow> Some (Inl e)
                                    | Some (Inr sub) \<Rightarrow>
                                        Some (Inr (reader\<lparr>r_value_pos := r_value_pos sub\<rparr>))))
                            else if t = DBUS_TYPE_ARRAY then
                              (case first_type_in_signature h (r_type_str reader)
                                      (r_type_pos reader + 1) of
                                 Inl e \<Rightarrow> Some (Inl e)
                               | Inr element_type \<Rightarrow>
                                   (case dbus_marshal_skip_array h (r_value_str reader)
                                           (r_byte_order reader) element_type
                                           (r_value_pos reader) of
                                      Inl e \<Rightarrow> Some (Inl e)
                                    | Inr pos \<Rightarrow> Some (Inr (reader\<lparr>r_value_pos := pos\<rparr>))))
                            else
                              (case dbus_marshal_skip_basic_type h (r_value_str reader)
                                      current_type (r_byte_order reader) (r_value_pos reader) of
                                 Inl e \<Rightarrow> Some (Inl e)
                               | Inr pos \<Rightarrow> Some (Inr (reader\<lparr>r_value_pos := pos\<rparr>)))) of
                        None \<Rightarrow> None
                      | Some (Inl e) \<Rightarrow> Some (Inl e)
                      | Some (Inr reader) \<Rightarrow>
                          if \<not> (r_value_pos reader \<le> end_pos)
                          then Some (Inl (Assert ''reader->value_pos <= end_pos''))
                          else if r_value_pos reader = end_pos then
                            (case skip_one_complete_type h (r_type_str reader)
                                    (r_type_pos reader) of
                               Inl e \<Rightarrow> Some (Inl e)
                             | Inr pos \<Rightarrow> Some (Inr (reader\<lparr>r_type_pos := pos\<rparr>)))
                          else Some (Inr reader)))))"

subsection \<open>Reading values\<close>

definition dbus_type_reader_read_basic :: "memory \<Rightarrow> DBusTypeReader \<Rightarrow> failure + DBusBasicValue" where
  "dbus_type_reader_read_basic h reader =
     (if types_only (r_klass reader) then Inl (Assert ''!reader->klass->types_only'')
      else
        (case dbus_type_reader_get_current_type h reader of
           Inl e \<Rightarrow> Inl e
         | Inr t \<Rightarrow>
             (case dbus_demarshal_basic_type h (r_value_str reader) t (r_byte_order reader)
                     (r_value_pos reader) of
                Inl e \<Rightarrow> Inl e
              | Inr (v, new_pos) \<Rightarrow> Inr v)))"

text \<open>
  \<^verbatim>\<open>_dbus_type_reader_read_array_of_basic\<close> has one statement, its assertion. Control
  then reaches the closing brace of a function that is declared to return a
  \<^verbatim>\<open>dbus_bool_t\<close>: nothing is stored through \<^verbatim>\<open>array\<close> and \<^verbatim>\<open>array_len\<close>, and the
  value that the caller receives is not specified. The result is the value returned, if
  one is specified, and what was stored through the two pointers, if anything was.
\<close>

definition dbus_type_reader_read_array_of_basic ::
  "DBusTypeReader \<Rightarrow> int \<Rightarrow> failure + (bool option \<times> (byte list \<times> int) option)" where
  "dbus_type_reader_read_array_of_basic reader type =
     (if types_only (r_klass reader) then Inl (Assert ''!reader->klass->types_only'')
      else Inr (None, None))"

text \<open>\<^verbatim>\<open>_dbus_type_reader_get_signature\<close>: the string, the start and the length.\<close>

definition dbus_type_reader_get_signature ::
  "memory \<Rightarrow> DBusTypeReader \<Rightarrow> failure + (strref \<times> int \<times> int)" where
  "dbus_type_reader_get_signature h reader =
     (case find_len_of_complete_type h (r_type_str reader) (r_type_pos reader) of
        Inl e \<Rightarrow> Inl e
      | Inr len \<Rightarrow> Inr (r_type_str reader, r_type_pos reader, len))"

section \<open>Recursive types: the type writer (dbus-marshal-recursive.c)\<close>

subsection \<open>Writers\<close>

text \<open>
  Modelled from the spec: \<^verbatim>\<open>struct DBusTypeWriter\<close> (dbus-marshal-recursive.h is not
  among the sources), with the fields that the functions of the writer use. Section 4.1:
  a writer holds the byte order, the type string and its insertion point, the value
  string and its insertion point, the type of the container it is in and the flag
  \<^verbatim>\<open>type_pos_is_expectation\<close>, which is set inside an array or a variant, where type
  codes are verified and not written. A writer inside an array also holds the positions of
  the length word, of the first element and of the element type.
\<close>

record DBusTypeWriter =
  w_byte_order :: int
  w_container_type :: int
  w_type_pos_is_expectation :: bool
  w_type_str :: strref
  w_type_pos :: int
  w_value_str :: strref
  w_value_pos :: int
  w_array_start_pos :: int
  w_array_len_pos :: int
  w_array_element_type_pos :: int

text \<open>
  A writer variable before anything is stored in it (\<^verbatim>\<open>DBusTypeWriter subwriter;\<close>): the
  model fixes one content for it.
\<close>

definition uninitialized_writer :: DBusTypeWriter where
  "uninitialized_writer =
     \<lparr>w_byte_order = 0, w_container_type = 0, w_type_pos_is_expectation = False,
      w_type_str = 0, w_type_pos = 0, w_value_str = 0, w_value_pos = 0,
      w_array_start_pos = 0, w_array_len_pos = 0, w_array_element_type_pos = 0\<rparr>"

definition dbus_type_writer_init ::
  "DBusTypeWriter \<Rightarrow> int \<Rightarrow> strref \<Rightarrow> int \<Rightarrow> strref \<Rightarrow> int \<Rightarrow> DBusTypeWriter" where
  "dbus_type_writer_init writer byte_order type_str type_pos value_str value_pos =
     writer\<lparr>w_byte_order := byte_order, w_type_str := type_str, w_type_pos := type_pos,
            w_value_str := value_str, w_value_pos := value_pos,
            w_container_type := DBUS_TYPE_INVALID, w_type_pos_is_expectation := False\<rparr>"

text \<open>
  A function of the writer returns its flag, the writer (and the subwriter, where it has
  one) as it leaves them, and the memory.
\<close>

definition dbus_type_writer_write_basic_no_typecode ::
  "DBusTypeWriter \<Rightarrow> int \<Rightarrow> DBusBasicValue \<Rightarrow> memory \<Rightarrow>
     failure + (bool \<times> DBusTypeWriter \<times> memory)" where
  "dbus_type_writer_write_basic_no_typecode writer type v h =
     (case dbus_marshal_basic_type (w_value_str writer) (w_value_pos writer) type v
             (w_byte_order writer) h of
        Inl e \<Rightarrow> Inl e
      | Inr (ok, pos_after, h) \<Rightarrow>
          Inr (ok, (case pos_after of None \<Rightarrow> writer | Some pos \<Rightarrow> writer\<lparr>w_value_pos := pos\<rparr>), h))"

definition writer_recurse_init_and_check ::
  "memory \<Rightarrow> DBusTypeWriter \<Rightarrow> int \<Rightarrow> DBusTypeWriter \<Rightarrow> failure + DBusTypeWriter" where
  "writer_recurse_init_and_check h writer container_type sub =
     (let sub = dbus_type_writer_init sub (w_byte_order writer) (w_type_str writer)
                  (w_type_pos writer) (w_value_str writer) (w_value_pos writer);
          sub = sub\<lparr>w_container_type := container_type\<rparr>;
          sub = (if w_type_pos_is_expectation writer \<or>
                    (w_container_type sub = DBUS_TYPE_ARRAY \<or>
                     w_container_type sub = DBUS_TYPE_VARIANT)
                 then sub\<lparr>w_type_pos_is_expectation := True\<rparr>
                 else sub\<lparr>w_type_pos_is_expectation := False\<rparr>)
      in if w_type_pos_is_expectation writer then
           (case first_type_in_signature h (w_type_str writer) (w_type_pos writer) of
              Inl e \<Rightarrow> Inl e
            | Inr expected \<Rightarrow>
                if expected \<noteq> w_container_type sub
                then Inl (Not_reached ''bad array element or variant content written'')
                else Inr sub)
         else Inr sub)"

definition write_or_verify_typecode ::
  "DBusTypeWriter \<Rightarrow> int \<Rightarrow> memory \<Rightarrow> failure + (bool \<times> DBusTypeWriter \<times> memory)" where
  "write_or_verify_typecode writer typecode h =
     (if w_type_pos_is_expectation writer then
        (case dbus_string_get_byte h (w_type_str writer) (w_type_pos writer) of
           Inl e \<Rightarrow> Inl e
         | Inr expected \<Rightarrow>
             if expected \<noteq> typecode
             then Inl (Not_reached ''bad type inserted somewhere inside an array or variant'')
             else if w_container_type writer \<noteq> DBUS_TYPE_ARRAY
             then Inr (True, writer\<lparr>w_type_pos := w_type_pos writer + 1\<rparr>, h)
             else Inr (True, writer, h))
      else
        (case dbus_string_insert_byte (w_type_str writer) (w_type_pos writer)
                (word_of_int typecode) h of
           Inl e \<Rightarrow> Inl e
         | Inr (ok, h) \<Rightarrow>
             if \<not> ok then Inr (False, writer, h)
             else Inr (True, writer\<lparr>w_type_pos := w_type_pos writer + 1\<rparr>, h)))"

subsection \<open>Recursing into a container\<close>

text \<open>
  The three functions take the writer and the subwriter that
  \<^verbatim>\<open>writer_recurse_init_and_check\<close> prepared, and the signature of the contents as a
  string, a start and a length. The model does not keep track of the space that
  \<^verbatim>\<open>_dbus_string_alloc_space\<close> sets aside: an insertion after it asks the allocator
  again, and a refusal there shows as the \<^verbatim>\<open>_dbus_assert_not_reached\<close> that the source
  has at that place.
\<close>

definition writer_recurse_struct ::
  "DBusTypeWriter \<Rightarrow> strref \<Rightarrow> int \<Rightarrow> int \<Rightarrow> DBusTypeWriter \<Rightarrow> memory \<Rightarrow>
     failure + (bool \<times> DBusTypeWriter \<times> DBusTypeWriter \<times> memory)" where
  "writer_recurse_struct writer contained_type contained_type_start contained_type_len sub h =
     (case dbus_string_alloc_space (w_value_str sub) 8 h of
        (ok, h) \<Rightarrow>
          if \<not> ok then Inr (False, writer, sub, h)
          else
            (case dbus_string_alloc_space (w_type_str sub) 1 h of
               (ok, h) \<Rightarrow>
                 if \<not> ok then Inr (False, writer, sub, h)
                 else
                   (case write_or_verify_typecode sub DBUS_STRUCT_BEGIN_CHAR h of
                      Inl e \<Rightarrow> Inl e
                    | Inr (ok, sub, h) \<Rightarrow>
                        if \<not> ok
                        then Inl (Not_reached ''failed to insert struct typecode after prealloc'')
                        else
                          (case dbus_string_insert_bytes (w_value_str sub) (w_value_pos sub)
                                  (DBUS_ALIGN_VALUE (w_value_pos sub) 8 - w_value_pos sub) 0 h of
                             Inl e \<Rightarrow> Inl e
                           | Inr (ok, h) \<Rightarrow>
                               if \<not> ok
                               then Inl (Not_reached ''should not have failed to insert alignment padding for struct'')
                               else Inr (True, writer,
                                         sub\<lparr>w_value_pos := DBUS_ALIGN_VALUE (w_value_pos sub) 8\<rparr>,
                                         h)))))"

definition writer_recurse_array ::
  "DBusTypeWriter \<Rightarrow> strref \<Rightarrow> int \<Rightarrow> int \<Rightarrow> DBusTypeWriter \<Rightarrow> memory \<Rightarrow>
     failure + (bool \<times> DBusTypeWriter \<times> DBusTypeWriter \<times> memory)" where
  "writer_recurse_array writer contained_type contained_type_start contained_type_len sub h =
     (case (if w_container_type writer = DBUS_TYPE_ARRAY then
              (case dbus_string_equal_substring h contained_type contained_type_start
                      contained_type_len (w_type_str writer)
                      (w_array_element_type_pos writer + 1) of
                 Inl e \<Rightarrow> Inl e
               | Inr same \<Rightarrow>
                   if \<not> same then Inl (Not_reached ''incompatible type for child array'')
                   else Inr ())
            else Inr ()) of
        Inl e \<Rightarrow> Inl e
      | Inr checked \<Rightarrow>
     (case dbus_string_alloc_space (w_value_str sub) (3 + 4 + 4) h of
        (ok, h) \<Rightarrow>
          if \<not> ok then Inr (False, writer, sub, h)
          else
     (let sub = sub\<lparr>w_type_pos := w_type_pos sub + 1\<rparr>;
          sub = sub\<lparr>w_array_element_type_pos := w_type_pos sub\<rparr>
      in
     (case (if \<not> w_type_pos_is_expectation writer then
              (case dbus_string_alloc_space (w_type_str writer) (1 + contained_type_len) h of
                 (ok, h) \<Rightarrow>
                   if \<not> ok then Inr (False, h)
                   else
                     (case dbus_string_insert_byte (w_type_str writer) (w_type_pos writer)
                             (word_of_int DBUS_TYPE_ARRAY) h of
                        Inl e \<Rightarrow> Inl e
                      | Inr (ok, h) \<Rightarrow>
                          if \<not> ok
                          then Inl (Not_reached ''failed to insert array typecode after prealloc'')
                          else
                            (case dbus_string_copy_len contained_type contained_type_start
                                    contained_type_len (w_type_str sub)
                                    (w_array_element_type_pos sub) h of
                               Inl e \<Rightarrow> Inl e
                             | Inr (ok, h) \<Rightarrow>
                                 if \<not> ok
                                 then Inl (Not_reached ''should not have failed to insert array element typecodes'')
                                 else Inr (True, h))))
            else Inr (True, h)) of
        Inl e \<Rightarrow> Inl e
      | Inr (ok, h) \<Rightarrow>
          if \<not> ok then Inr (False, writer, sub, h)
          else
     (case (if w_container_type writer \<noteq> DBUS_TYPE_ARRAY
            then Inr (writer\<lparr>w_type_pos := w_type_pos writer + (1 + contained_type_len)\<rparr>)
            else if \<not> w_type_pos_is_expectation writer
            then Inl (Assert ''writer->type_pos_is_expectation'')
            else Inr writer) of
        Inl e \<Rightarrow> Inl e
      | Inr writer \<Rightarrow>
     (let sub = sub\<lparr>w_array_len_pos := DBUS_ALIGN_VALUE (w_value_pos sub) 4\<rparr>
      in
     (case dbus_type_writer_write_basic_no_typecode sub DBUS_TYPE_UINT32 (U32 0) h of
        Inl e \<Rightarrow> Inl e
      | Inr (ok, sub, h) \<Rightarrow>
          if \<not> ok then Inl (Not_reached ''should not have failed to insert array len'')
          else if \<not> (w_array_len_pos sub = w_value_pos sub - 4)
          then Inl (Assert ''sub->u.array.len_pos == sub->value_pos - 4'')
          else
     (case element_type_get_alignment h contained_type contained_type_start of
        Inl e \<Rightarrow> Inl e
      | Inr alignment \<Rightarrow>
     (let aligned = DBUS_ALIGN_VALUE (w_value_pos sub) alignment
      in
     (case (if aligned \<noteq> w_value_pos sub then
              (case dbus_string_insert_bytes (w_value_str sub) (w_value_pos sub)
                      (aligned - w_value_pos sub) 0 h of
                 Inl e \<Rightarrow> Inl e
               | Inr (ok, h) \<Rightarrow>
                   if \<not> ok
                   then Inl (Not_reached ''should not have failed to insert alignment padding'')
                   else Inr (sub\<lparr>w_value_pos := aligned\<rparr>, h))
            else Inr (sub, h)) of
        Inl e \<Rightarrow> Inl e
      | Inr (sub, h) \<Rightarrow>
     (let sub = sub\<lparr>w_array_start_pos := w_value_pos sub\<rparr>
      in if \<not> (w_array_start_pos sub = w_value_pos sub)
         then Inl (Assert ''sub->u.array.start_pos == sub->value_pos'')
         else if \<not> (w_array_len_pos sub < w_array_start_pos sub)
         then Inl (Assert ''sub->u.array.len_pos < sub->u.array.start_pos'')
         else Inr (True, writer, sub, h))))))))))))"

definition writer_recurse_variant ::
  "DBusTypeWriter \<Rightarrow> strref \<Rightarrow> int \<Rightarrow> int \<Rightarrow> DBusTypeWriter \<Rightarrow> memory \<Rightarrow>
     failure + (bool \<times> DBusTypeWriter \<times> DBusTypeWriter \<times> memory)" where
  "writer_recurse_variant writer contained_type contained_type_start contained_type_len sub h =
     (case dbus_string_alloc_space (w_value_str sub) (contained_type_len + 9) h of
        (ok, h) \<Rightarrow>
          if \<not> ok then Inr (False, writer, sub, h)
          else
     (case write_or_verify_typecode writer DBUS_TYPE_VARIANT h of
        Inl e \<Rightarrow> Inl e
      | Inr (ok, writer, h) \<Rightarrow>
          if \<not> ok then Inr (False, writer, sub, h)
          else
     (case dbus_string_insert_byte (w_value_str sub) (w_value_pos sub)
             (word_of_int contained_type_len) h of
        Inl e \<Rightarrow> Inl e
      | Inr (ok, h) \<Rightarrow>
          if \<not> ok
          then Inl (Not_reached ''should not have failed to insert variant type sig len'')
          else
     (let sub = sub\<lparr>w_value_pos := w_value_pos sub + 1\<rparr>;
          sub = sub\<lparr>w_type_str := w_value_str sub\<rparr>;
          sub = sub\<lparr>w_type_pos := w_value_pos sub\<rparr>
      in
     (case dbus_string_copy_len contained_type contained_type_start contained_type_len
             (w_value_str sub) (w_value_pos sub) h of
        Inl e \<Rightarrow> Inl e
      | Inr (ok, h) \<Rightarrow>
          if \<not> ok
          then Inl (Not_reached ''should not have failed to insert variant type sig'')
          else
     (let sub = sub\<lparr>w_value_pos := w_value_pos sub + contained_type_len\<rparr>
      in
     (case dbus_string_insert_byte (w_value_str sub) (w_value_pos sub)
             (word_of_int DBUS_TYPE_INVALID) h of
        Inl e \<Rightarrow> Inl e
      | Inr (ok, h) \<Rightarrow>
          if \<not> ok
          then Inl (Not_reached ''should not have failed to insert variant type nul termination'')
          else
     (let sub = sub\<lparr>w_value_pos := w_value_pos sub + 1\<rparr>
      in
     (case dbus_string_insert_bytes (w_value_str sub) (w_value_pos sub)
             (DBUS_ALIGN_VALUE (w_value_pos sub) 8 - w_value_pos sub) 0 h of
        Inl e \<Rightarrow> Inl e
      | Inr (ok, h) \<Rightarrow>
          if \<not> ok
          then Inl (Not_reached ''should not have failed to insert alignment padding for variant body'')
          else Inr (True, writer,
                    sub\<lparr>w_value_pos := DBUS_ALIGN_VALUE (w_value_pos sub) 8\<rparr>, h))))))))))"

definition dbus_type_writer_recurse_contained_len ::
  "DBusTypeWriter \<Rightarrow> int \<Rightarrow> strref \<Rightarrow> int \<Rightarrow> int \<Rightarrow> DBusTypeWriter \<Rightarrow> memory \<Rightarrow>
     failure + (bool \<times> DBusTypeWriter \<times> DBusTypeWriter \<times> memory)" where
  "dbus_type_writer_recurse_contained_len writer container_type contained_type
       contained_type_start contained_type_len sub h =
     (case writer_recurse_init_and_check h writer container_type sub of
        Inl e \<Rightarrow> Inl e
      | Inr sub \<Rightarrow>
          if container_type = DBUS_TYPE_STRUCT then
            writer_recurse_struct writer contained_type contained_type_start
              contained_type_len sub h
          else if container_type = DBUS_TYPE_ARRAY then
            writer_recurse_array writer contained_type contained_type_start
              contained_type_len sub h
          else if container_type = DBUS_TYPE_VARIANT then
            writer_recurse_variant writer contained_type contained_type_start
              contained_type_len sub h
          else Inl (Not_reached ''tried to recurse into type that doesn't support that''))"

subsection \<open>Leaving a container, and writing values\<close>

definition dbus_type_writer_unrecurse ::
  "DBusTypeWriter \<Rightarrow> DBusTypeWriter \<Rightarrow> memory \<Rightarrow>
     failure + (bool \<times> DBusTypeWriter \<times> DBusTypeWriter \<times> memory)" where
  "dbus_type_writer_unrecurse writer sub h =
     (if \<not> (w_type_pos sub > 0) then Inl (Assert ''sub->type_pos > 0'')
      else if \<not> (\<not> w_type_pos_is_expectation writer \<or>
                   (w_type_pos_is_expectation writer \<and> w_type_pos_is_expectation sub))
      then Inl (Assert ''!writer->type_pos_is_expectation || (writer->type_pos_is_expectation && sub->type_pos_is_expectation)'')
      else
        (case (if w_container_type sub = DBUS_TYPE_STRUCT then
                 write_or_verify_typecode sub DBUS_STRUCT_END_CHAR h
               else if w_container_type sub = DBUS_TYPE_ARRAY then
                 (let len = word_of_int (w_value_pos sub - w_array_start_pos sub)
                  in case dbus_marshal_set_uint32 (w_value_str sub) (w_byte_order sub)
                            (w_array_len_pos sub) len h of
                       Inl e \<Rightarrow> Inl e
                     | Inr h \<Rightarrow> Inr (True, sub, h))
               else Inr (True, sub, h)) of
           Inl e \<Rightarrow> Inl e
         | Inr (ok, sub, h) \<Rightarrow>
             if \<not> ok then Inr (False, writer, sub, h)
             else
               (let writer = (if w_container_type sub = DBUS_TYPE_STRUCT \<and>
                                 (w_container_type writer = DBUS_TYPE_STRUCT \<or>
                                  w_container_type writer = DBUS_TYPE_INVALID)
                              then writer\<lparr>w_type_pos := w_type_pos sub\<rparr>
                              else writer)
                in Inr (True, writer\<lparr>w_value_pos := w_value_pos sub\<rparr>, sub, h))))"

definition dbus_type_writer_write_basic ::
  "DBusTypeWriter \<Rightarrow> int \<Rightarrow> DBusBasicValue \<Rightarrow> memory \<Rightarrow>
     failure + (bool \<times> DBusTypeWriter \<times> memory)" where
  "dbus_type_writer_write_basic writer type v h =
     (case dbus_string_alloc_space (w_type_str writer) 1 h of
        (ok, h) \<Rightarrow>
          if \<not> ok then Inr (False, writer, h)
          else
            (case dbus_type_writer_write_basic_no_typecode writer type v h of
               Inl e \<Rightarrow> Inl e
             | Inr (ok, writer, h) \<Rightarrow>
                 if \<not> ok then Inr (False, writer, h)
                 else
                   (case write_or_verify_typecode writer type h of
                      Inl e \<Rightarrow> Inl e
                    | Inr (ok, writer, h) \<Rightarrow>
                        if \<not> ok
                        then Inl (Not_reached ''failed to write typecode after prealloc'')
                        else Inr (True, writer, h))))"

text \<open>
  \<^verbatim>\<open>_dbus_type_writer_write_array\<close> has no statement at all. Control reaches the closing
  brace of a function that is declared to return a \<^verbatim>\<open>dbus_bool_t\<close>: the value that the
  caller receives is not specified (\<open>None\<close>), and the writer and the memory are as they
  were.
\<close>

definition dbus_type_writer_write_array ::
  "DBusTypeWriter \<Rightarrow> int \<Rightarrow> byte list \<Rightarrow> int \<Rightarrow> memory \<Rightarrow>
     bool option \<times> DBusTypeWriter \<times> memory" where
  "dbus_type_writer_write_array writer type array array_len h = (None, writer, h)"

subsection \<open>Copying from a reader\<close>

text \<open>
  The block at the label \<^verbatim>\<open>oom\<close> of \<^verbatim>\<open>_dbus_type_writer_write_reader\<close>: it deletes
  what the strings have gained and gives back the writer as it was at the call.
\<close>

definition write_reader_oom ::
  "DBusTypeWriter \<Rightarrow> int \<Rightarrow> int \<Rightarrow> DBusTypeWriter \<Rightarrow> memory \<Rightarrow>
     failure + (DBusTypeWriter \<times> memory)" where
  "write_reader_oom orig orig_type_len orig_value_len writer h =
     (case (if \<not> w_type_pos_is_expectation writer then
              (let new_bytes = dbus_string_get_length h (w_type_str writer) - orig_type_len
               in dbus_string_delete (w_type_str writer) (w_type_pos orig) new_bytes h)
            else Inr h) of
        Inl e \<Rightarrow> Inl e
      | Inr h \<Rightarrow>
          (let new_bytes = dbus_string_get_length h (w_value_str writer) - orig_value_len
           in case dbus_string_delete (w_value_str writer) (w_value_pos orig) new_bytes h of
                Inl e \<Rightarrow> Inl e
              | Inr h \<Rightarrow> Inr (orig, h)))"

text \<open>
  \<^verbatim>\<open>_dbus_type_writer_write_reader\<close> calls itself for the contents of a container, and
  \<^verbatim>\<open>_dbus_type_reader_next\<close> at the end of every round of its loop, so it takes fuel as
  the functions of the reader do. The loop is \<open>write_reader_loop\<close>; its flag is FALSE when
  the loop was left by \<^verbatim>\<open>goto oom\<close>, with the writer and the memory as they were at
  the jump.
\<close>

fun dbus_type_writer_write_reader ::
    "nat \<Rightarrow> DBusTypeWriter \<Rightarrow> DBusTypeReader \<Rightarrow> memory \<Rightarrow>
       (failure + bool \<times> DBusTypeWriter \<times> DBusTypeReader \<times> memory) option"
  and write_reader_loop ::
    "nat \<Rightarrow> DBusTypeWriter \<Rightarrow> DBusTypeReader \<Rightarrow> memory \<Rightarrow>
       (failure + bool \<times> DBusTypeWriter \<times> DBusTypeReader \<times> memory) option"
where
  "dbus_type_writer_write_reader 0 writer reader h = None"
| "dbus_type_writer_write_reader (Suc n) writer reader h =
     (let orig = writer;
          orig_type_len = dbus_string_get_length h (w_type_str writer);
          orig_value_len = dbus_string_get_length h (w_value_str writer)
      in case write_reader_loop n writer reader h of
           None \<Rightarrow> None
         | Some (Inl e) \<Rightarrow> Some (Inl e)
         | Some (Inr (finished, writer, reader, h)) \<Rightarrow>
             if finished then Some (Inr (True, writer, reader, h))
             else
               (case write_reader_oom orig orig_type_len orig_value_len writer h of
                  Inl e \<Rightarrow> Some (Inl e)
                | Inr (writer, h) \<Rightarrow> Some (Inr (False, writer, reader, h))))"
| "write_reader_loop 0 writer reader h = None"
| "write_reader_loop (Suc n) writer reader h =
     (case dbus_type_reader_get_current_type h reader of
        Inl e \<Rightarrow> Some (Inl e)
      | Inr current_type \<Rightarrow>
          if current_type = DBUS_TYPE_INVALID then Some (Inr (True, writer, reader, h))
          else
            (case (if current_type = DBUS_TYPE_STRUCT \<or> current_type = DBUS_TYPE_VARIANT \<or>
                      current_type = DBUS_TYPE_ARRAY then
                     (case dbus_type_reader_recurse h reader uninitialized_reader of
                        Inl e \<Rightarrow> Some (Inl e)
                      | Inr subreader \<Rightarrow>
                     (case dbus_type_reader_get_signature h subreader of
                        Inl e \<Rightarrow> Some (Inl e)
                      | Inr (sig_str, sig_start, sig_len) \<Rightarrow>
                     (case dbus_type_writer_recurse_contained_len writer current_type
                             sig_str sig_start sig_len uninitialized_writer h of
                        Inl e \<Rightarrow> Some (Inl e)
                      | Inr (ok, writer, subwriter, h) \<Rightarrow>
                          if \<not> ok then Some (Inr (False, writer, h))
                          else
                     (case dbus_type_writer_write_reader n subwriter subreader h of
                        None \<Rightarrow> None
                      | Some (Inl e) \<Rightarrow> Some (Inl e)
                      | Some (Inr (ok, subwriter, subreader, h)) \<Rightarrow>
                          if \<not> ok then Some (Inr (False, writer, h))
                          else
                     (case dbus_type_writer_unrecurse writer subwriter h of
                        Inl e \<Rightarrow> Some (Inl e)
                      | Inr (ok, writer, subwriter, h) \<Rightarrow> Some (Inr (ok, writer, h)))))))
                   else
                     (case dbus_type_reader_read_basic h reader of
                        Inl e \<Rightarrow> Some (Inl e)
                      | Inr val \<Rightarrow>
                          (case dbus_type_writer_write_basic writer current_type val h of
                             Inl e \<Rightarrow> Some (Inl e)
                           | Inr (ok, writer, h) \<Rightarrow> Some (Inr (ok, writer, h))))) of
               None \<Rightarrow> None
             | Some (Inl e) \<Rightarrow> Some (Inl e)
             | Some (Inr (ok, writer, h)) \<Rightarrow>
                 if \<not> ok then Some (Inr (False, writer, reader, h))
                 else
                   (case dbus_type_reader_next n h reader of
                      None \<Rightarrow> None
                    | Some (Inl e) \<Rightarrow> Some (Inl e)
                    | Some (Inr (again, reader)) \<Rightarrow> write_reader_loop n writer reader h)))"

subsection \<open>Writers in use, and where a writer is nested\<close>







section \<open>Scenarios\<close>

text \<open>
  Concrete inputs at which the properties below are exercised. A registered caller
  (connection 1, unique name \<open>:1.1\<close>) calls a method of a service owned by connection 2,
  on a bus where memory is plentiful, the policy allows everything and no match rule is
  registered; the individual scenarios change one answer of that bus each.
\<close>

definition call_message :: DBusMessage where
  "call_message =
     \<lparr>msg_type = METHOD_CALL, msg_destination = Some ''com.example.Service'',
      msg_interface = Some ''com.example.Interface'', msg_member = Some ''Ping'',
      msg_sender = None\<rparr>"

definition stamped_call_message :: DBusMessage where
  "stamped_call_message = call_message\<lparr>msg_sender := Some '':1.1''\<rparr>"

definition registered_caller :: bus_state where
  "registered_caller =
     \<lparr>oom_preallocated = False, connected = True, active = True, unique_name = '':1.1'',
      outgoing = [], trace = []\<rparr>"

definition quiet_bus :: bus_env where
  "quiet_bus =
     \<lparr>prealloc = (\<lambda>i. True), transaction_new_ok = True, set_sender_ok = True,
      policy = (\<lambda>s a p m. None),
      driver = (\<lambda>m. \<lparr>drv_error = None, drv_sends = [], drv_activates = False\<rparr>),
      registry = (\<lambda>n. if n = ''com.example.Service'' then Some 2 else None),
      recipients = (\<lambda>m. Some []), send_ok = (\<lambda>r. True), error_reply_ok = True\<rparr>"

text \<open>
  A little-endian machine with plenty of memory and one string, at address 0, that holds
  the three bytes 1, 2, 3.
\<close>

definition example_memory :: memory where
  "example_memory =
     \<lparr>strs = (\<lambda>a. if a = 0 then [1, 2, 3] else []), allocs = [],
      compiler_byte_order = DBUS_LITTLE_ENDIAN\<rparr>"

text \<open>
  A little-endian machine whose string 0 holds the signature \<^verbatim>\<open>ax\<close> and whose string 1
  holds, from position 5 on, an array of one 64-bit integer: padding to position 8, the
  length 8, padding to position 16 and the eight bytes of the element. The reader stands
  in front of the array.
\<close>

definition array_memory :: memory where
  "array_memory =
     \<lparr>strs = (\<lambda>a. if a = 0 then [97, 120]
                   else if a = 1 then [1, 0, 0, 0, 0, 0, 0, 0, 8, 0, 0, 0, 0, 0, 0, 0,
                                       42, 0, 0, 0, 0, 0, 0, 0]
                   else []),
      allocs = [], compiler_byte_order = DBUS_LITTLE_ENDIAN\<rparr>"

definition array_parent :: DBusTypeReader where
  "array_parent = dbus_type_reader_init uninitialized_reader DBUS_LITTLE_ENDIAN 0 0 1 5"

text \<open>
  A reader of the same strings whose class is the one of a types-only reader of a body,
  the class that \<^verbatim>\<open>_dbus_type_reader_init_types_only\<close> gives a reader.
\<close>

definition types_only_parent :: DBusTypeReader where
  "types_only_parent = array_parent\<lparr>r_klass := body_types_only_reader_class\<rparr>"






chapter \<open>Properties\<close>

section \<open>Event loop\<close>

subsection \<open>Arithmetic of the C integer types\<close>

lemma pow_ge_32: "32 \<le> lb \<Longrightarrow> (2::int) ^ 32 \<le> 2 ^ lb"
  by (rule power_increasing) auto

lemma pow_half_ge_31: "32 \<le> lb \<Longrightarrow> (2::int) ^ 31 \<le> 2 ^ (lb - 1)"
  by (rule power_increasing) auto

lemma to_long_id:
  assumes "- (2 ^ (lb - 1)) \<le> x" "x < 2 ^ (lb - 1)" "0 < lb"
  shows "to_long lb x = x"
proof -
  have "(2::int) ^ lb = 2 * 2 ^ (lb - 1)"
    using assms(3) by (cases lb) auto
  then have "(x + 2 ^ (lb - 1)) mod 2 ^ lb = x + 2 ^ (lb - 1)"
    using assms by (intro mod_pos_pos_trivial) auto
  then show ?thesis by (simp add: to_long_def)
qed

lemma to_ulong_id: "0 \<le> x \<Longrightarrow> x < 2 ^ lb \<Longrightarrow> to_ulong lb x = x"
  by (simp add: to_ulong_def)

lemma c_div_nonneg: "0 \<le> a \<Longrightarrow> c_div a 1000 = a div 1000"
  by (cases "a = 0") (simp_all add: c_div_def)

lemma timeval_less:
  fixes es eu ts tu :: int
  assumes "es * 1000000 + eu < ts * 1000000 + tu"
    and "0 \<le> eu" "eu < 1000000" "0 \<le> tu" "tu < 1000000"
  shows "es < ts \<or> (es = ts \<and> eu < tu)"
  using assms by linarith

lemma timeval_eq:
  fixes es eu ts tu :: int
  assumes "es * 1000000 + eu = ts * 1000000 + tu"
    and "0 \<le> eu" "eu < 1000000" "0 \<le> tu" "tu < 1000000"
  shows "es = ts \<and> eu = tu"
proof -
  have a: "es \<le> ts" using assms by linarith
  have b: "ts \<le> es" using assms by linarith
  from a b have "es = ts" by simp
  with assms show ?thesis by simp
qed

subsection \<open>check_timeout\<close>

text \<open>
  For a timeout with a non-negative interval and well-formed times, the expiration time
  that \<^verbatim>\<open>check_timeout\<close> computes is the last-fired time plus the interval, seconds and
  normalised microseconds; the rest of the function is then a function of that pair.
\<close>

lemma check_timeout_expiration:
  assumes lb: "32 \<le> lb"
    and last: "timeval_ok lb (last_tv_sec tcb) (last_tv_usec tcb)"
    and iv: "0 \<le> to_interval (timeout tcb)" "to_interval (timeout tcb) \<le> DBUS_INT_MAX"
    and nowrap: "last_tv_sec tcb + to_interval (timeout tcb) div 1000 + 1 < 2 ^ lb"
  shows "\<exists>es eu. 0 \<le> eu \<and> eu < 1000000 \<and>
           es * 1000000 + eu =
             last_tv_sec tcb * 1000000 + last_tv_usec tcb + to_interval (timeout tcb) * 1000 \<and>
           check_timeout lb tv_sec tv_usec tcb =
             (if es < tv_sec \<or> (es = tv_sec \<and> eu < tv_usec)
              then (False, tcb\<lparr>last_tv_sec := tv_sec, last_tv_usec := tv_usec\<rparr>,
                    to_interval (timeout tcb))
              else
                (let sec_remaining = to_long lb (es - tv_sec);
                     msec_remaining0 = to_long lb (to_ulong lb (eu - tv_usec) div 1000);
                     msec_remaining =
                       (if sec_remaining < 0 \<or> (sec_remaining = 0 \<and> msec_remaining0 < 0) then 0
                        else
                          (let msec_remaining1 =
                                 (if msec_remaining0 < 0 then to_long lb (msec_remaining0 + 1000)
                                  else msec_remaining0)
                           in if msec_remaining1 > DBUS_INT_MAX then DBUS_INT_MAX
                              else msec_remaining1))
                 in (msec_remaining = 0, tcb, to_int msec_remaining)))"
proof -
  define I where "I = to_interval (timeout tcb)"
  define s where "s = I div 1000"
  define m where "m = I mod 1000"
  have I: "I = s * 1000 + m" by (simp add: s_def m_def)
  have m: "0 \<le> m" "m < 1000" by (simp_all add: m_def)
  have s: "0 \<le> s" "s \<le> 2147483" using iv by (simp_all add: s_def I_def DBUS_INT_MAX_def)
  have p32: "(2::int) ^ 32 \<le> 2 ^ lb" using lb by (rule pow_ge_32)
  have p31: "(2::int) ^ 31 \<le> 2 ^ (lb - 1)" using lb by (rule pow_half_ge_31)
  have lbpos: "0 < lb" using lb by simp
  have f1: "c_div I 1000 = s" using iv by (simp add: c_div_nonneg s_def I_def)
  have f2: "to_long lb s = s" using s p31 lbpos by (intro to_long_id) auto
  have f3: "to_long lb (I - s * 1000) = m" using m p31 lbpos I by (simp add: to_long_id)
  have ls: "0 \<le> last_tv_sec tcb" "last_tv_sec tcb < 2 ^ lb"
    "0 \<le> last_tv_usec tcb" "last_tv_usec tcb < 1000000"
    using last by (simp_all add: timeval_ok_def)
  have f4: "to_ulong lb (last_tv_sec tcb + s) = last_tv_sec tcb + s"
    using ls s nowrap by (intro to_ulong_id) (auto simp: s_def I_def)
  have f5: "to_ulong lb (last_tv_usec tcb + m * 1000) = last_tv_usec tcb + m * 1000"
    using ls m p32 by (intro to_ulong_id) auto
  have f6: "to_ulong lb (last_tv_usec tcb + m * 1000 - 1000000) =
      last_tv_usec tcb + m * 1000 - 1000000"
    if "1000000 \<le> last_tv_usec tcb + m * 1000"
    using that ls m p32 by (intro to_ulong_id) auto
  have f7: "to_ulong lb (last_tv_sec tcb + s + 1) = last_tv_sec tcb + s + 1"
    using ls s nowrap by (intro to_ulong_id) (auto simp: s_def I_def)
  show ?thesis
  proof (cases "1000000 \<le> last_tv_usec tcb + m * 1000")
    case True
    show ?thesis
      apply (rule exI[of _ "last_tv_sec tcb + s + 1"])
      apply (rule exI[of _ "last_tv_usec tcb + m * 1000 - 1000000"])
      using True ls s m nowrap
      apply (simp add: check_timeout_def Let_def dbus_timeout_get_interval_def I_def[symmetric]
          f1 f2 f3 f4 f5 f6 f7)
      apply (simp add: I s_def[symmetric])
      done
  next
    case False
    show ?thesis
      apply (rule exI[of _ "last_tv_sec tcb + s"])
      apply (rule exI[of _ "last_tv_usec tcb + m * 1000"])
      using False ls s m nowrap
      apply (simp add: check_timeout_def Let_def dbus_timeout_get_interval_def I_def[symmetric]
          f1 f2 f3 f4 f5 f6 f7)
      apply (simp add: I s_def[symmetric])
      done
  qed
qed

text \<open>
  The reset branch is taken exactly when the expiration lies before the current time, by
  any amount: an overdue timeout is not reported as ready, it is re-armed for a full
  interval from now.
\<close>

lemma check_timeout_overdue:
  assumes lb: "32 \<le> lb"
    and now: "timeval_ok lb tv_sec tv_usec"
    and last: "timeval_ok lb (last_tv_sec tcb) (last_tv_usec tcb)"
    and iv: "0 \<le> to_interval (timeout tcb)" "to_interval (timeout tcb) \<le> DBUS_INT_MAX"
    and nowrap: "last_tv_sec tcb + to_interval (timeout tcb) div 1000 + 1 < 2 ^ lb"
    and neg: "remaining_usec tv_sec tv_usec tcb < 0"
  shows "check_timeout lb tv_sec tv_usec tcb =
           (False, tcb\<lparr>last_tv_sec := tv_sec, last_tv_usec := tv_usec\<rparr>,
            to_interval (timeout tcb))"
proof -
  obtain es eu where e: "0 \<le> eu" "eu < 1000000"
      "es * 1000000 + eu =
        last_tv_sec tcb * 1000000 + last_tv_usec tcb + to_interval (timeout tcb) * 1000"
    and c: "check_timeout lb tv_sec tv_usec tcb =
             (if es < tv_sec \<or> (es = tv_sec \<and> eu < tv_usec)
              then (False, tcb\<lparr>last_tv_sec := tv_sec, last_tv_usec := tv_usec\<rparr>,
                    to_interval (timeout tcb))
              else
                (let sec_remaining = to_long lb (es - tv_sec);
                     msec_remaining0 = to_long lb (to_ulong lb (eu - tv_usec) div 1000);
                     msec_remaining =
                       (if sec_remaining < 0 \<or> (sec_remaining = 0 \<and> msec_remaining0 < 0) then 0
                        else
                          (let msec_remaining1 =
                                 (if msec_remaining0 < 0 then to_long lb (msec_remaining0 + 1000)
                                  else msec_remaining0)
                           in if msec_remaining1 > DBUS_INT_MAX then DBUS_INT_MAX
                              else msec_remaining1))
                 in (msec_remaining = 0, tcb, to_int msec_remaining)))"
    using check_timeout_expiration[OF lb last iv nowrap] by blast
  have tv: "0 \<le> tv_usec" "tv_usec < 1000000" using now by (simp_all add: timeval_ok_def)
  have "es * 1000000 + eu < tv_sec * 1000000 + tv_usec"
    using neg e(3) by (simp add: remaining_usec_def)
  then have "es < tv_sec \<or> (es = tv_sec \<and> eu < tv_usec)"
    using e(1,2) tv by (rule timeval_less)
  then show ?thesis by (simp only: c if_True)
qed

lemma check_timeout_due:
  assumes lb: "32 \<le> lb"
    and now: "timeval_ok lb tv_sec tv_usec"
    and last: "timeval_ok lb (last_tv_sec tcb) (last_tv_usec tcb)"
    and iv: "0 \<le> to_interval (timeout tcb)" "to_interval (timeout tcb) \<le> DBUS_INT_MAX"
    and nowrap: "last_tv_sec tcb + to_interval (timeout tcb) div 1000 + 1 < 2 ^ lb"
    and zero: "remaining_usec tv_sec tv_usec tcb = 0"
  shows "check_timeout lb tv_sec tv_usec tcb = (True, tcb, 0)"
proof -
  obtain es eu where e: "0 \<le> eu" "eu < 1000000"
      "es * 1000000 + eu =
        last_tv_sec tcb * 1000000 + last_tv_usec tcb + to_interval (timeout tcb) * 1000"
    and c: "check_timeout lb tv_sec tv_usec tcb =
             (if es < tv_sec \<or> (es = tv_sec \<and> eu < tv_usec)
              then (False, tcb\<lparr>last_tv_sec := tv_sec, last_tv_usec := tv_usec\<rparr>,
                    to_interval (timeout tcb))
              else
                (let sec_remaining = to_long lb (es - tv_sec);
                     msec_remaining0 = to_long lb (to_ulong lb (eu - tv_usec) div 1000);
                     msec_remaining =
                       (if sec_remaining < 0 \<or> (sec_remaining = 0 \<and> msec_remaining0 < 0) then 0
                        else
                          (let msec_remaining1 =
                                 (if msec_remaining0 < 0 then to_long lb (msec_remaining0 + 1000)
                                  else msec_remaining0)
                           in if msec_remaining1 > DBUS_INT_MAX then DBUS_INT_MAX
                              else msec_remaining1))
                 in (msec_remaining = 0, tcb, to_int msec_remaining)))"
    using check_timeout_expiration[OF lb last iv nowrap] by blast
  have tv: "0 \<le> tv_usec" "tv_usec < 1000000" using now by (simp_all add: timeval_ok_def)
  have "es * 1000000 + eu = tv_sec * 1000000 + tv_usec"
    using zero e(3) by (simp add: remaining_usec_def)
  then have "es = tv_sec \<and> eu = tv_usec"
    using e(1,2) tv by (rule timeval_eq)
  then have eq: "es = tv_sec" "eu = tv_usec" by simp_all
  have z1: "to_long lb 0 = 0" using lb by (intro to_long_id) auto
  have z2: "to_ulong lb 0 = 0" by (simp add: to_ulong_def)
  show ?thesis
    by (simp add: c eq Let_def z1 z2 to_int_def DBUS_INT_MAX_def)
qed

lemma timeval_not_less:
  fixes es eu ts tu :: int
  assumes "ts * 1000000 + tu \<le> es * 1000000 + eu"
    and "0 \<le> eu" "eu < 1000000" "0 \<le> tu" "tu < 1000000"
  shows "\<not> (es < ts \<or> (es = ts \<and> eu < tu))"
proof
  assume "es < ts \<or> (es = ts \<and> eu < tu)"
  then show False
  proof
    assume "es < ts"
    then have "es + 1 \<le> ts" by simp
    then have "(es + 1) * 1000000 \<le> ts * 1000000" by (rule mult_right_mono) simp
    with assms show False by (simp add: algebra_simps)
  next
    assume "es = ts \<and> eu < tu"
    with assms show False by simp
  qed
qed

text \<open>
  When the clock has been set back, so that the current time lies before the time the
  timeout last fired, the expiration lies after the current time: the branch that resets
  the timeout is not taken, and the callback is left as it is.
\<close>

lemma check_timeout_rewound:
  assumes lb: "32 \<le> lb"
    and now: "timeval_ok lb tv_sec tv_usec"
    and last: "timeval_ok lb (last_tv_sec tcb) (last_tv_usec tcb)"
    and iv: "0 \<le> to_interval (timeout tcb)" "to_interval (timeout tcb) \<le> DBUS_INT_MAX"
    and nowrap: "last_tv_sec tcb + to_interval (timeout tcb) div 1000 + 1 < 2 ^ lb"
    and rewound: "tv_sec * 1000000 + tv_usec \<le> last_tv_sec tcb * 1000000 + last_tv_usec tcb"
  shows "\<exists>ready t. check_timeout lb tv_sec tv_usec tcb = (ready, tcb, t)"
proof -
  obtain es eu where e: "0 \<le> eu" "eu < 1000000"
      "es * 1000000 + eu =
        last_tv_sec tcb * 1000000 + last_tv_usec tcb + to_interval (timeout tcb) * 1000"
    and c: "check_timeout lb tv_sec tv_usec tcb =
             (if es < tv_sec \<or> (es = tv_sec \<and> eu < tv_usec)
              then (False, tcb\<lparr>last_tv_sec := tv_sec, last_tv_usec := tv_usec\<rparr>,
                    to_interval (timeout tcb))
              else
                (let sec_remaining = to_long lb (es - tv_sec);
                     msec_remaining0 = to_long lb (to_ulong lb (eu - tv_usec) div 1000);
                     msec_remaining =
                       (if sec_remaining < 0 \<or> (sec_remaining = 0 \<and> msec_remaining0 < 0) then 0
                        else
                          (let msec_remaining1 =
                                 (if msec_remaining0 < 0 then to_long lb (msec_remaining0 + 1000)
                                  else msec_remaining0)
                           in if msec_remaining1 > DBUS_INT_MAX then DBUS_INT_MAX
                              else msec_remaining1))
                 in (msec_remaining = 0, tcb, to_int msec_remaining)))"
    using check_timeout_expiration[OF lb last iv nowrap] by blast
  have tv: "0 \<le> tv_usec" "tv_usec < 1000000" using now by (simp_all add: timeval_ok_def)
  have "tv_sec * 1000000 + tv_usec \<le> es * 1000000 + eu"
    using rewound iv(1) e(3) by simp
  then have "\<not> (es < tv_sec \<or> (es = tv_sec \<and> eu < tv_usec))"
    using e(1,2) tv by (rule timeval_not_less)
  then show ?thesis by (simp only: c if_False Let_def) blast
qed

text \<open>
  Claim C4. For a timeout with a non-negative interval, times as the system clock delivers
  them (microseconds below one million) and an expiration that fits an
  \<^verbatim>\<open>unsigned long\<close>: \<^verbatim>\<open>check_timeout\<close> resets the last-fired time to the current time
  and reports the full interval exactly in the branch that it takes whenever the
  expiration lies before the current time, that is when the timeout is overdue and the
  clock has run ahead of it. When the clock has moved backward, so that the current time
  lies before the last-fired time, this branch is not taken: the last-fired time stays as
  it is, and the timeout goes on waiting for its old expiration. A timeout whose remaining
  time is exactly zero is reported as ready to fire.
\<close>

theorem check_timeout_rewind_no_reset:
  assumes "32 \<le> lb"
    and "timeval_ok lb tv_sec tv_usec"
    and "timeval_ok lb (last_tv_sec tcb) (last_tv_usec tcb)"
    and "0 \<le> to_interval (timeout tcb)" "to_interval (timeout tcb) \<le> DBUS_INT_MAX"
    and "last_tv_sec tcb + to_interval (timeout tcb) div 1000 + 1 < 2 ^ lb"
  shows "(tv_sec * 1000000 + tv_usec < last_tv_sec tcb * 1000000 + last_tv_usec tcb \<longrightarrow>
            (\<exists>ready t. check_timeout lb tv_sec tv_usec tcb = (ready, tcb, t)) \<and>
            check_timeout lb tv_sec tv_usec tcb \<noteq>
              (False, tcb\<lparr>last_tv_sec := tv_sec, last_tv_usec := tv_usec\<rparr>,
               to_interval (timeout tcb)))
       \<and> (remaining_usec tv_sec tv_usec tcb < 0 \<longrightarrow>
            check_timeout lb tv_sec tv_usec tcb =
              (False, tcb\<lparr>last_tv_sec := tv_sec, last_tv_usec := tv_usec\<rparr>,
               to_interval (timeout tcb)))
       \<and> (remaining_usec tv_sec tv_usec tcb = 0 \<longrightarrow>
            check_timeout lb tv_sec tv_usec tcb = (True, tcb, 0))"
proof (intro conjI impI)
  assume rewound: "tv_sec * 1000000 + tv_usec < last_tv_sec tcb * 1000000 + last_tv_usec tcb"
  then have "tv_sec * 1000000 + tv_usec \<le> last_tv_sec tcb * 1000000 + last_tv_usec tcb"
    by simp
  with assms show r: "\<exists>ready t. check_timeout lb tv_sec tv_usec tcb = (ready, tcb, t)"
    by (intro check_timeout_rewound)
  have "tcb\<lparr>last_tv_sec := tv_sec, last_tv_usec := tv_usec\<rparr> \<noteq> tcb"
  proof
    assume "tcb\<lparr>last_tv_sec := tv_sec, last_tv_usec := tv_usec\<rparr> = tcb"
    then have "last_tv_sec (tcb\<lparr>last_tv_sec := tv_sec, last_tv_usec := tv_usec\<rparr>) = last_tv_sec tcb"
      and "last_tv_usec (tcb\<lparr>last_tv_sec := tv_sec, last_tv_usec := tv_usec\<rparr>) = last_tv_usec tcb"
      by simp_all
    with rewound show False by simp
  qed
  with r show "check_timeout lb tv_sec tv_usec tcb \<noteq>
                 (False, tcb\<lparr>last_tv_sec := tv_sec, last_tv_usec := tv_usec\<rparr>,
                  to_interval (timeout tcb))"
    by auto
next
  assume "remaining_usec tv_sec tv_usec tcb < 0"
  with assms show "check_timeout lb tv_sec tv_usec tcb =
      (False, tcb\<lparr>last_tv_sec := tv_sec, last_tv_usec := tv_usec\<rparr>, to_interval (timeout tcb))"
    by (intro check_timeout_overdue)
next
  assume "remaining_usec tv_sec tv_usec tcb = 0"
  with assms show "check_timeout lb tv_sec tv_usec tcb = (True, tcb, 0)"
    by (intro check_timeout_due)
qed

theorem check_timeout_rewind_no_reset_witness:
  "check_timeout 64 50 0
      \<lparr>timeout = \<lparr>to_interval = 1500, to_enabled = True\<rparr>, last_tv_sec = 100,
       last_tv_usec = 0\<rparr> =
     (False,
      \<lparr>timeout = \<lparr>to_interval = 1500, to_enabled = True\<rparr>, last_tv_sec = 100, last_tv_usec = 0\<rparr>,
      500)
   \<and> check_timeout 64 50 600000
      \<lparr>timeout = \<lparr>to_interval = 1500, to_enabled = True\<rparr>, last_tv_sec = 100,
       last_tv_usec = 0\<rparr> =
     (False,
      \<lparr>timeout = \<lparr>to_interval = 1500, to_enabled = True\<rparr>, last_tv_sec = 100, last_tv_usec = 0\<rparr>,
      2147483647)
   \<and> check_timeout 32 100 0
      \<lparr>timeout = \<lparr>to_interval = 1500, to_enabled = True\<rparr>, last_tv_sec = 90,
       last_tv_usec = 600000\<rparr> =
     (False,
      \<lparr>timeout = \<lparr>to_interval = 1500, to_enabled = True\<rparr>, last_tv_sec = 100, last_tv_usec = 0\<rparr>,
      1500)
   \<and> check_timeout 64 92 100000
      \<lparr>timeout = \<lparr>to_interval = 1500, to_enabled = True\<rparr>, last_tv_sec = 90,
       last_tv_usec = 600000\<rparr> =
     (True,
      \<lparr>timeout = \<lparr>to_interval = 1500, to_enabled = True\<rparr>, last_tv_sec = 90,
       last_tv_usec = 600000\<rparr>,
      0)"
proof -
  have ev: ?thesis by code_simp
  from check_timeout_rewind_no_reset [of 64 50 0
      "\<lparr>timeout = \<lparr>to_interval = 1500, to_enabled = True\<rparr>, last_tv_sec = 100,
        last_tv_usec = 0\<rparr>"]
    check_timeout_rewind_no_reset [of 32 100 0
      "\<lparr>timeout = \<lparr>to_interval = 1500, to_enabled = True\<rparr>, last_tv_sec = 90,
        last_tv_usec = 600000\<rparr>"]
    check_timeout_rewind_no_reset [of 64 92 100000
      "\<lparr>timeout = \<lparr>to_interval = 1500, to_enabled = True\<rparr>, last_tv_sec = 90,
        last_tv_usec = 600000\<rparr>"] ev
  show ?thesis by (simp add: timeval_ok_def remaining_usec_def DBUS_INT_MAX_def)
qed

subsection \<open>The poll set and the poll timeout\<close>

text \<open>
  After the first loop of an iteration no watch callback carries the out-of-memory flag;
  a watch that carried it is not in the poll set of this iteration, and the iteration is
  marked as having done work.
\<close>

lemma fill_fds_clears_flags:
  "fill_fds cbs i st = (cbs', st') \<Longrightarrow> CALLBACK_WATCH wcb \<in> set cbs' \<Longrightarrow>
     \<not> last_iteration_oom wcb"
  by (induction cbs i st arbitrary: cbs' st' rule: fill_fds.induct)
    (auto split: prod.splits if_splits)

lemma fill_fds_flags_monotone:
  "fill_fds cbs i st = (cbs', st') \<Longrightarrow>
     (oom_watch_pending st \<longrightarrow> oom_watch_pending st') \<and> (retval st \<longrightarrow> retval st')"
  by (induction cbs i st arbitrary: cbs' st' rule: fill_fds.induct)
    (auto split: prod.splits if_splits)

lemma fill_fds_oom_pending:
  "fill_fds cbs i st = (cbs', st') \<Longrightarrow> CALLBACK_WATCH wcb \<in> set cbs \<Longrightarrow>
     last_iteration_oom wcb \<Longrightarrow> oom_watch_pending st' \<and> retval st'"
proof (induction cbs i st arbitrary: cbs' st' rule: fill_fds.induct)
  case (1 i st)
  then show ?case by simp
next
  case (2 tcb link i st)
  then show ?case by (auto split: prod.splits)
next
  case (3 w link i st)
  show ?case
  proof (cases "last_iteration_oom w")
    case True
    obtain rest where r: "fill_fds link (Suc i) (st\<lparr>oom_watch_pending := True, retval := True\<rparr>) =
        (rest, st')"
      using "3.prems"(1) True by (auto split: prod.splits)
    from fill_fds_flags_monotone[OF r] show ?thesis by simp
  next
    case False
    with 3 show ?thesis
      by (auto split: prod.splits if_splits)
  qed
qed

lemma fill_fds_positions:
  "fill_fds cbs i st = (cbs', st') \<Longrightarrow> j \<in> set (watches_for_fds st') \<Longrightarrow>
     j \<in> set (watches_for_fds st) \<or>
     (i \<le> j \<and> j < i + length cbs \<and>
      (\<exists>wcb. cbs ! (j - i) = CALLBACK_WATCH wcb \<and> \<not> last_iteration_oom wcb \<and>
         dbus_watch_get_enabled (watch wcb)))"
proof (induction cbs i st arbitrary: cbs' st' rule: fill_fds.induct)
  case (1 i st)
  then show ?case by simp
next
  case (2 tcb link i st)
  obtain rest where r: "fill_fds link (Suc i) st = (rest, st')"
    using "2.prems"(1) by (auto split: prod.splits)
  from "2.IH"[OF r "2.prems"(2)] show ?case
    by (auto simp: Suc_diff_le)
next
  case (3 w link i st)
  show ?case
  proof (cases "last_iteration_oom w")
    case True
    obtain rest where r: "fill_fds link (Suc i) (st\<lparr>oom_watch_pending := True, retval := True\<rparr>) =
        (rest, st')"
      using "3.prems"(1) True by (auto split: prod.splits)
    from "3.IH"(1)[OF True r "3.prems"(2)] show ?thesis
      by (auto simp: Suc_diff_le)
  next
    case False
    show ?thesis
    proof (cases "dbus_watch_get_enabled (watch w)")
      case True
      obtain rest where r: "fill_fds link (Suc i)
          (st\<lparr>fds := fds st @ [poll_fd_of_watch (watch w)],
              watches_for_fds := watches_for_fds st @ [i]\<rparr>) = (rest, st')"
        using "3.prems"(1) False True by (auto split: prod.splits)
      from "3.IH"(2)[OF False True r "3.prems"(2)] False True show ?thesis
        by (auto simp: Suc_diff_le)
    next
      case dis: False
      obtain rest where r: "fill_fds link (Suc i) st = (rest, st')"
        using "3.prems"(1) False dis by (auto split: prod.splits)
      from "3.IH"(3)[OF False dis r "3.prems"(2)] show ?thesis
        by (auto simp: Suc_diff_le)
    qed
  qed
qed

lemma fill_fds_skips_oom_watch:
  assumes "fill_fds cbs 0 \<lparr>fds = [], watches_for_fds = [], oom_watch_pending = False,
      retval = False\<rparr> = (cbs', st')"
    and "k < length cbs" "cbs ! k = CALLBACK_WATCH wcb" "last_iteration_oom wcb"
  shows "k \<notin> set (watches_for_fds st')"
  using fill_fds_positions[OF assms(1), of k] assms(2-4) by auto

text \<open>
  Claim C5. The claim holds for the flag, the poll set and the return value (the lemmas
  above), but not for the wait. Whenever some watch ran out of memory on the previous
  iteration, no timeout is registered, nothing is queued for dispatch and the iteration may
  block, the timeout handed to the poll is \<open>-1\<close>, the request to block without limit:
  the minimum of \<open>-1\<close> and the out-of-memory interval is \<open>-1\<close>. The skipped watch is
  not in the poll set that could end the wait.
\<close>

theorem oom_watch_poll_timeout_unbounded:
  assumes "CALLBACK_WATCH wcb \<in> set (callbacks loop)" "last_iteration_oom wcb"
    and "timeout_count loop \<le> 0" "need_dispatch loop = []"
  shows "\<exists>pr. dbus_loop_iterate_to_poll lb tv_sec tv_usec loop True = Inr (Some pr) \<and>
           oom_watch_pending (pr_fill pr) \<and> retval (pr_fill pr) \<and> pr_timeout pr = - 1"
proof -
  obtain cbs1 st1 where f: "fill_fds (callbacks loop) 0
      \<lparr>fds = [], watches_for_fds = [], oom_watch_pending = False, retval = False\<rparr> = (cbs1, st1)"
    by (cases "fill_fds (callbacks loop) 0
      \<lparr>fds = [], watches_for_fds = [], oom_watch_pending = False, retval = False\<rparr>") auto
  from fill_fds_oom_pending[OF f assms(1,2)] have p: "oom_watch_pending st1" "retval st1"
    by simp_all
  have ne: "callbacks loop \<noteq> []" using assms(1) by auto
  show ?thesis
    using ne f p assms(3,4)
    by (simp add: dbus_loop_iterate_to_poll_def Let_def dbus_get_oom_wait_def)
qed

theorem oom_watch_poll_timeout_unbounded_witness:
  "dbus_loop_iterate_to_poll 32 100 0
     \<lparr>callbacks =
        [CALLBACK_WATCH \<lparr>watch = \<lparr>watch_fd = 7, watch_flags = 1, watch_enabled = True\<rparr>,
                         last_iteration_oom = True\<rparr>],
      callback_list_serial = 1, watch_count = 1, timeout_count = 0, depth = 1,
      need_dispatch = []\<rparr> True =
   Inr (Some
     \<lparr>pr_loop =
        \<lparr>callbacks =
           [CALLBACK_WATCH \<lparr>watch = \<lparr>watch_fd = 7, watch_flags = 1, watch_enabled = True\<rparr>,
                            last_iteration_oom = False\<rparr>],
         callback_list_serial = 1, watch_count = 1, timeout_count = 0, depth = 1,
         need_dispatch = []\<rparr>,
      pr_fill = \<lparr>fds = [], watches_for_fds = [], oom_watch_pending = True, retval = True\<rparr>,
      pr_timeout = - 1\<rparr>)"
  using oom_watch_poll_timeout_unbounded [of
      "\<lparr>watch = \<lparr>watch_fd = 7, watch_flags = 1, watch_enabled = True\<rparr>,
        last_iteration_oom = True\<rparr>"
      "\<lparr>callbacks =
        [CALLBACK_WATCH \<lparr>watch = \<lparr>watch_fd = 7, watch_flags = 1, watch_enabled = True\<rparr>,
                         last_iteration_oom = True\<rparr>],
      callback_list_serial = 1, watch_count = 1, timeout_count = 0, depth = 1,
      need_dispatch = []\<rparr>" 32 100 0]
  by (simp add: dbus_loop_iterate_to_poll_def dbus_get_oom_wait_def)

section \<open>Dispatcher\<close>

subsection \<open>The preallocation loop\<close>

text \<open>
  The loop returns as soon as one attempt finds memory (or at once when the reply is
  already preallocated); it then leaves the reply preallocated and changes nothing else
  but the record of the waits.
\<close>

lemma preallocate_loop_returns:
  assumes "oom_preallocated w \<or> memory (i + n)"
  shows "\<exists>w'. preallocate_loop memory i w = Some w' \<and> oom_preallocated w' \<and>
           connected w' = connected w \<and> active w' = active w \<and>
           unique_name w' = unique_name w \<and> outgoing w' = outgoing w"
  using assms
proof (induction n arbitrary: i w)
  case 0
  then show ?case
    by (subst preallocate_loop.simps)
      (auto simp: bus_connection_preallocate_oom_error_def)
next
  case (Suc n)
  show ?case
  proof (cases "oom_preallocated w \<or> memory i")
    case True
    then show ?thesis
      by (subst preallocate_loop.simps)
        (auto simp: bus_connection_preallocate_oom_error_def)
  next
    case False
    with Suc.prems have "memory (Suc i + n)" by simp
    then have "oom_preallocated (dbus_wait_for_memory w) \<or> memory (Suc i + n)" by simp
    from Suc.IH[OF this] obtain w' where
      w': "preallocate_loop memory (Suc i) (dbus_wait_for_memory w) = Some w'"
        "oom_preallocated w'" "connected w' = connected (dbus_wait_for_memory w)"
        "active w' = active (dbus_wait_for_memory w)"
        "unique_name w' = unique_name (dbus_wait_for_memory w)"
        "outgoing w' = outgoing (dbus_wait_for_memory w)"
      by blast
    have "preallocate_loop memory i w = Some w'"
      using False w'(1)
      by (subst preallocate_loop.simps)
        (simp add: bus_connection_preallocate_oom_error_def)
    with w' show ?thesis
      by (simp add: dbus_wait_for_memory_def)
  qed
qed

lemma preallocate_loop_from_start:
  assumes "oom_preallocated w \<or> (\<exists>i. memory i)"
  shows "\<exists>w'. preallocate_loop memory 0 w = Some w' \<and> oom_preallocated w' \<and>
           connected w' = connected w \<and> active w' = active w \<and>
           unique_name w' = unique_name w \<and> outgoing w' = outgoing w"
proof -
  from assms obtain n where "oom_preallocated w \<or> memory (0 + n)" by auto
  then show ?thesis by (rule preallocate_loop_returns[of w memory 0 n])
qed

subsection \<open>Routing\<close>

lemma send_one_message_error:
  "send_one_message env r s a m t e = (ok, t', e') \<Longrightarrow>
     (ok \<and> e' = e \<or> \<not> ok \<and> e' = Some DBUS_ERROR_NO_MEMORY \<and> t' = t)"
  by (auto simp: send_one_message_def split: if_splits option.splits)

lemma send_one_message_plan:
  "send_one_message env r s a m t e = (ok, t', e') \<Longrightarrow>
     t' = t \<or> (policy env s a (Some r) m = None \<and> t' = t @ [(r, Message m)])"
  by (auto simp: send_one_message_def bus_context_check_security_policy_def
      bus_transaction_send_def split: if_splits option.splits)

lemma send_to_recipients_result:
  "send_to_recipients env rs s a m t e = (t', e') \<Longrightarrow>
     (e' = e \<or> e' = Some DBUS_ERROR_NO_MEMORY) \<and>
     (\<exists>sent. t' = t @ map (\<lambda>r. (r, Message m)) sent \<and>
        set sent \<subseteq> {r \<in> set rs. policy env s a (Some r) m = None})"
proof (induction rs arbitrary: t e)
  case Nil
  then show ?case by auto
next
  case (Cons r rs)
  obtain ok t1 e1 where s1: "send_one_message env r s a m t e = (ok, t1, e1)"
    by (cases "send_one_message env r s a m t e") auto
  note err = send_one_message_error[OF s1] and plan = send_one_message_plan[OF s1]
  show ?case
  proof (cases ok)
    case False
    with Cons.prems s1 have eq: "t' = t1" "e' = e1" by simp_all
    from err False have "e1 = Some DBUS_ERROR_NO_MEMORY" "t1 = t" by simp_all
    with eq show ?thesis by (intro conjI exI[of _ "[]"]) auto
  next
    case True
    with Cons.prems s1 have rec: "send_to_recipients env rs s a m t1 e1 = (t', e')" by simp
    from Cons.IH[OF rec] obtain sent where
      ih: "e' = e1 \<or> e' = Some DBUS_ERROR_NO_MEMORY"
        "t' = t1 @ map (\<lambda>r. (r, Message m)) sent"
        "set sent \<subseteq> {r \<in> set rs. policy env s a (Some r) m = None}"
      by blast
    from err True have e1: "e1 = e" by simp
    from plan show ?thesis
    proof
      assume "t1 = t"
      with ih e1 show ?thesis by (intro conjI exI[of _ sent]) auto
    next
      assume "policy env s a (Some r) m = None \<and> t1 = t @ [(r, Message m)]"
      with ih e1 show ?thesis by (intro conjI exI[of _ "r # sent"]) auto
    qed
  qed
qed

text \<open>
  Routing queues nothing: whatever the outcome, the outgoing queues at the label
  \<^verbatim>\<open>out\<close> are those at entry.
\<close>

lemma bus_dispatch_route_outgoing:
  "bus_dispatch_route env c m w = Inr st \<Longrightarrow> outgoing (ds_bus st) = outgoing w"
  by (auto simp: bus_dispatch_route_def Let_def bus_connection_disconnected_def
      dbus_connection_disconnect_def split: if_splits option.splits sum.splits prod.splits)

text \<open>
  When routing ends with an error set, it has not touched the preallocated reply, the
  connected flag or the record of effects.
\<close>

lemma bus_dispatch_route_error:
  "bus_dispatch_route env c m w = Inr st \<Longrightarrow> ds_error st = Some e \<Longrightarrow>
     oom_preallocated (ds_bus st) = oom_preallocated w \<and>
     connected (ds_bus st) = connected w \<and> trace (ds_bus st) = trace w \<and>
     ds_result st = DBUS_HANDLER_RESULT_HANDLED"
  by (auto simp: bus_dispatch_route_def Let_def bus_connection_disconnected_def
      dbus_connection_disconnect_def split: if_splits option.splits sum.splits prod.splits)

subsection \<open>Out of memory during a dispatch\<close>

text \<open>
  Claim C2. If memory for the out-of-memory reply is found at some attempt (or the reply is
  already preallocated), the loop at the head of \<^verbatim>\<open>bus_dispatch\<close> returns with the reply
  preallocated, before any other work. Whenever routing then ends with the NoMemory error
  while the sender is still connected, \<^verbatim>\<open>bus_dispatch\<close> returns, the only thing queued by
  the whole dispatch is the preallocated NoMemory reply to the sender, and the transaction
  (if one was opened) is cancelled and not executed.
\<close>

theorem bus_dispatch_out_of_memory:
  assumes "oom_preallocated w \<or> (\<exists>i. prealloc env i)"
  shows "\<exists>w1. preallocate_loop (prealloc env) 0 w = Some w1 \<and> oom_preallocated w1 \<and>
           (\<forall>st. bus_dispatch_route env c m w1 = Inr st \<and>
                 ds_error st = Some DBUS_ERROR_NO_MEMORY \<and> connected (ds_bus st) \<longrightarrow>
              (\<exists>w'. bus_dispatch env c m w = Some (Inr (w', DBUS_HANDLER_RESULT_HANDLED)) \<and>
                 outgoing w' = outgoing w @ [(c, Oom_error (ds_message st))] \<and>
                 trace w' = trace w1 @
                   (if ds_transaction st = None then [] else [Transaction_cancelled])))"
proof -
  from preallocate_loop_from_start[OF assms] obtain w1 where
    w1: "preallocate_loop (prealloc env) 0 w = Some w1" "oom_preallocated w1"
      "outgoing w1 = outgoing w"
    by blast
  have "\<exists>w'. bus_dispatch env c m w = Some (Inr (w', DBUS_HANDLER_RESULT_HANDLED)) \<and>
          outgoing w' = outgoing w @ [(c, Oom_error (ds_message st))] \<and>
          trace w' = trace w1 @ (if ds_transaction st = None then [] else [Transaction_cancelled])"
    if r: "bus_dispatch_route env c m w1 = Inr st"
      and e: "ds_error st = Some DBUS_ERROR_NO_MEMORY" and conn: "connected (ds_bus st)"
    for st
  proof -
    from bus_dispatch_route_error[OF r e] w1(2)
    have pre: "oom_preallocated (ds_bus st)" "trace (ds_bus st) = trace w1"
      "ds_result st = DBUS_HANDLER_RESULT_HANDLED"
      by simp_all
    from bus_dispatch_route_outgoing[OF r] w1(3)
    have out: "outgoing (ds_bus st) = outgoing w" by simp
    show ?thesis
    proof (cases "ds_transaction st")
      case None
      then show ?thesis
        using w1(1) r e conn pre out
        by (simp add: bus_dispatch_def bus_dispatch_out_def bus_connection_send_oom_error_def)
    next
      case (Some t)
      then show ?thesis
        using w1(1) r e conn pre out
        by (simp add: bus_dispatch_def bus_dispatch_out_def bus_connection_send_oom_error_def
            bus_transaction_cancel_and_free_def)
    qed
  qed
  with w1 show ?thesis by blast
qed

theorem bus_dispatch_out_of_memory_witness:
  "bus_dispatch (quiet_bus\<lparr>prealloc := (\<lambda>i. 2 \<le> i), send_ok := (\<lambda>r. False)\<rparr>) 1 call_message
     registered_caller =
   Some (Inr (\<lparr>oom_preallocated = False, connected = True, active = True, unique_name = '':1.1'',
               outgoing = [(1, Oom_error stamped_call_message)],
               trace = [Waited_for_memory, Waited_for_memory, Transaction_cancelled]\<rparr>,
              DBUS_HANDLER_RESULT_HANDLED))"
proof -
  have h: "oom_preallocated registered_caller \<or>
      (\<exists>i. prealloc (quiet_bus\<lparr>prealloc := (\<lambda>i. 2 \<le> i), send_ok := (\<lambda>r. False)\<rparr>) i)"
    by (auto simp: quiet_bus_def)
  have l: "preallocate_loop (\<lambda>i. 2 \<le> i) 0 registered_caller =
      Some (registered_caller\<lparr>oom_preallocated := True,
              trace := [Waited_for_memory, Waited_for_memory]\<rparr>)"
    by (simp add: preallocate_loop.simps bus_connection_preallocate_oom_error_def
        dbus_wait_for_memory_def registered_caller_def)
  show ?thesis
    using bus_dispatch_out_of_memory [OF h, of 1 call_message]
    apply (simp add: bus_dispatch_def quiet_bus_def l)
    apply (simp add: bus_dispatch_route_def bus_dispatch_out_def Let_def
        registered_caller_def call_message_def stamped_call_message_def
        dbus_message_is_signal_def bus_transaction_send_def bus_connection_send_oom_error_def
        bus_transaction_cancel_and_free_def DBUS_SERVICE_ORG_FREEDESKTOP_DBUS_def)
    done
qed

subsection \<open>A destination that nobody owns\<close>

text \<open>
  Claim C6, as the code has it. The lookup in the registry is reached only for an active
  sender and only after the transaction and the sender stamp found memory; an inactive
  sender is disconnected instead, with no error set. For an active sender whose message
  names a destination that is not the driver and has no owner, routing ends with the
  ServiceDoesNotExist error and an empty transaction; if the sender is still connected and
  the error reply finds memory, the only thing the dispatch queues is that error reply to
  the sender, so the message is delivered to nobody.
\<close>

theorem bus_dispatch_unknown_destination:
  assumes "oom_preallocated w \<or> (\<exists>i. prealloc env i)"
    and "active w" "transaction_new_ok env" "set_sender_ok env"
    and "msg_destination m = Some name" "name \<noteq> DBUS_SERVICE_ORG_FREEDESKTOP_DBUS"
    and "registry env name = None"
  shows "\<exists>w1 st. preallocate_loop (prealloc env) 0 w = Some w1 \<and>
           bus_dispatch_route env c m w1 = Inr st \<and>
           ds_error st = Some DBUS_ERROR_SERVICE_DOES_NOT_EXIST \<and>
           ds_transaction st = Some [] \<and>
           ds_message st = m\<lparr>msg_sender := Some (unique_name w)\<rparr> \<and>
           (connected w \<and> error_reply_ok env \<longrightarrow>
              (\<exists>w'. bus_dispatch env c m w = Some (Inr (w', DBUS_HANDLER_RESULT_HANDLED)) \<and>
                 outgoing w' = outgoing w @
                   [(c, Error_reply DBUS_ERROR_SERVICE_DOES_NOT_EXIST (ds_message st))]))"
proof -
  from preallocate_loop_from_start[OF assms(1)] obtain w1 where
    w1: "preallocate_loop (prealloc env) 0 w = Some w1" "oom_preallocated w1"
      "connected w1 = connected w" "active w1 = active w" "unique_name w1 = unique_name w"
      "outgoing w1 = outgoing w"
    by blast
  define st where "st =
    \<lparr>ds_error = Some DBUS_ERROR_SERVICE_DOES_NOT_EXIST, ds_transaction = Some [],
     ds_result = DBUS_HANDLER_RESULT_HANDLED,
     ds_message = m\<lparr>msg_sender := Some (unique_name w)\<rparr>, ds_bus = w1\<rparr>"
  have r: "bus_dispatch_route env c m w1 = Inr st"
    using assms(2-7) w1(4,5)
    by (simp add: bus_dispatch_route_def Let_def st_def)
  have ne: "DBUS_ERROR_SERVICE_DOES_NOT_EXIST \<noteq> DBUS_ERROR_NO_MEMORY"
    by (simp add: DBUS_ERROR_SERVICE_DOES_NOT_EXIST_def DBUS_ERROR_NO_MEMORY_def)
  have "\<exists>w'. bus_dispatch env c m w = Some (Inr (w', DBUS_HANDLER_RESULT_HANDLED)) \<and>
          outgoing w' = outgoing w @
            [(c, Error_reply DBUS_ERROR_SERVICE_DOES_NOT_EXIST (ds_message st))]"
    if "connected w" "error_reply_ok env"
    using that w1 r ne
    by (simp add: bus_dispatch_def bus_dispatch_out_def st_def
        bus_transaction_send_error_reply_def bus_transaction_execute_and_free_def)
  with w1(1) r show ?thesis
    by (intro exI[of _ w1] exI[of _ st]) (simp add: st_def)
qed

theorem bus_dispatch_unknown_destination_witness:
  "bus_dispatch quiet_bus 1 (call_message\<lparr>msg_destination := Some ''test.nonexistent.xyz''\<rparr>)
     registered_caller =
   Some (Inr (\<lparr>oom_preallocated = True, connected = True, active = True, unique_name = '':1.1'',
               outgoing = [(1, Error_reply DBUS_ERROR_SERVICE_DOES_NOT_EXIST
                  (stamped_call_message\<lparr>msg_destination := Some ''test.nonexistent.xyz''\<rparr>))],
               trace = [Transaction_executed]\<rparr>,
              DBUS_HANDLER_RESULT_HANDLED))"
proof -
  have h: "oom_preallocated registered_caller \<or> (\<exists>i. prealloc quiet_bus i)"
    by (auto simp: quiet_bus_def)
  have l: "preallocate_loop (\<lambda>i. True) 0 registered_caller =
      Some (registered_caller\<lparr>oom_preallocated := True\<rparr>)"
    by (simp add: preallocate_loop.simps bus_connection_preallocate_oom_error_def
        registered_caller_def)
  show ?thesis
    using bus_dispatch_unknown_destination [OF h, of
        "call_message\<lparr>msg_destination := Some ''test.nonexistent.xyz''\<rparr>"
        "''test.nonexistent.xyz''" 1]
    apply (simp add: bus_dispatch_def quiet_bus_def l)
    apply (simp add: bus_dispatch_route_def bus_dispatch_out_def Let_def
        registered_caller_def call_message_def stamped_call_message_def
        dbus_message_is_signal_def bus_transaction_send_error_reply_def
        bus_transaction_execute_and_free_def DBUS_SERVICE_ORG_FREEDESKTOP_DBUS_def
        DBUS_ERROR_SERVICE_DOES_NOT_EXIST_def DBUS_ERROR_NO_MEMORY_def)
    done
qed

text \<open>
  The claim as stated fails for a sender that has not said Hello: its message to a
  destination without an owner sets no error; the sender is disconnected, nothing is
  queued, and the empty transaction is executed.
\<close>

theorem bus_dispatch_unknown_destination_counterexample:
  "bus_dispatch_route quiet_bus 1 (call_message\<lparr>msg_destination := Some ''test.nonexistent.xyz''\<rparr>)
     (registered_caller\<lparr>active := False, oom_preallocated := True\<rparr>) =
   Inr \<lparr>ds_error = None, ds_transaction = Some [], ds_result = DBUS_HANDLER_RESULT_HANDLED,
        ds_message = call_message\<lparr>msg_destination := Some ''test.nonexistent.xyz''\<rparr>,
        ds_bus = \<lparr>oom_preallocated = True, connected = False, active = False,
                  unique_name = '':1.1'', outgoing = [], trace = [Disconnect]\<rparr>\<rparr>
   \<and> bus_dispatch quiet_bus 1 (call_message\<lparr>msg_destination := Some ''test.nonexistent.xyz''\<rparr>)
     (registered_caller\<lparr>active := False\<rparr>) =
   Some (Inr (\<lparr>oom_preallocated = True, connected = False, active = False,
               unique_name = '':1.1'', outgoing = [],
               trace = [Disconnect, Transaction_executed]\<rparr>,
              DBUS_HANDLER_RESULT_HANDLED))"
proof -
  have l: "preallocate_loop (\<lambda>i. True) 0 (registered_caller\<lparr>active := False\<rparr>) =
      Some (registered_caller\<lparr>active := False, oom_preallocated := True\<rparr>)"
    by (simp add: preallocate_loop.simps bus_connection_preallocate_oom_error_def
        registered_caller_def)
  show ?thesis
    apply (simp add: bus_dispatch_def quiet_bus_def l)
    apply (simp add: bus_dispatch_route_def bus_dispatch_out_def Let_def
        registered_caller_def call_message_def
        dbus_message_is_signal_def dbus_connection_disconnect_def
        bus_transaction_execute_and_free_def DBUS_SERVICE_ORG_FREEDESKTOP_DBUS_def)
    done
qed

subsection \<open>Deliveries that the policy denies\<close>

lemma bus_dispatch_matches_result:
  assumes "bus_dispatch_matches env w t s a m = Inr (ok, t', e')"
  shows "(e' = None \<or> e' = Some DBUS_ERROR_NO_MEMORY) \<and>
         (\<exists>sent. t' = t @ map (\<lambda>r. (r, Message m)) sent \<and>
            set sent \<subseteq> {r. policy env s a (Some r) m = None})"
proof (cases "recipients env m")
  case None
  with assms show ?thesis
    by (intro conjI exI[of _ "[]"])
      (auto simp: bus_dispatch_matches_def split: if_splits)
next
  case (Some rs)
  obtain t1 e1 where l: "send_to_recipients env rs s a m t None = (t1, e1)"
    by (cases "send_to_recipients env rs s a m t None") auto
  from send_to_recipients_result[OF l] obtain sent where
    r: "e1 = None \<or> e1 = Some DBUS_ERROR_NO_MEMORY"
      "t1 = t @ map (\<lambda>r. (r, Message m)) sent"
      "set sent \<subseteq> {r \<in> set rs. policy env s a (Some r) m = None}"
    by blast
  from assms Some l have "t' = t1" "e' = e1"
    by (auto simp: bus_dispatch_matches_def split: if_splits)
  with r show ?thesis by (intro conjI exI[of _ sent]) auto
qed

text \<open>
  Claim C3, as the code has it. For a match-rule recipient a denial by the policy is a
  silent drop: \<^verbatim>\<open>send_one_message\<close> reports success and leaves the transaction and the
  error as they are, so \<^verbatim>\<open>bus_dispatch_matches\<close> ends with no error or with NoMemory,
  never with the policy's error, and it plans sends only to recipients that the policy
  allows. For the addressed recipient the denial is not silent: routing ends with the
  policy's error set and an empty transaction, and if the sender is still connected the one
  thing the dispatch queues is a reply to the sender, the error reply with the policy's
  error or the preallocated NoMemory reply.
\<close>

theorem policy_denial_silent_only_for_matches:
  assumes "oom_preallocated w \<or> (\<exists>i. prealloc env i)"
    and "active w" "transaction_new_ok env" "set_sender_ok env"
    and "msg_destination m = Some name" "name \<noteq> DBUS_SERVICE_ORG_FREEDESKTOP_DBUS"
    and "registry env name = Some r"
    and "policy env (Some c) (Some r) (Some r) (m\<lparr>msg_sender := Some (unique_name w)\<rparr>) = Some e"
  shows "(\<forall>d s a m' t e'. policy env s a (Some d) m' \<noteq> None \<longrightarrow>
            send_one_message env d s a m' t e' = (True, t, e'))
       \<and> (\<forall>w2 t s a m' ok t' e'. bus_dispatch_matches env w2 t s a m' = Inr (ok, t', e') \<longrightarrow>
            (e' = None \<or> e' = Some DBUS_ERROR_NO_MEMORY) \<and>
            (\<exists>sent. t' = t @ map (\<lambda>d. (d, Message m')) sent \<and>
               set sent \<subseteq> {d. policy env s a (Some d) m' = None}))
       \<and> (\<exists>w1 st. preallocate_loop (prealloc env) 0 w = Some w1 \<and>
            bus_dispatch_route env c m w1 = Inr st \<and> ds_error st = Some e \<and>
            ds_transaction st = Some [] \<and>
            (connected w \<longrightarrow>
               (\<exists>w' q. bus_dispatch env c m w = Some (Inr (w', DBUS_HANDLER_RESULT_HANDLED)) \<and>
                  outgoing w' = outgoing w @ [(c, q)] \<and>
                  (q = Error_reply e (ds_message st) \<or> q = Oom_error (ds_message st)))))"
proof (intro conjI allI impI)
  fix d s a m' t e'
  assume "policy env s a (Some d) m' \<noteq> None"
  then show "send_one_message env d s a m' t e' = (True, t, e')"
    by (simp add: send_one_message_def bus_context_check_security_policy_def)
next
  fix w2 t s a m' ok t' e'
  assume "bus_dispatch_matches env w2 t s a m' = Inr (ok, t', e')"
  from bus_dispatch_matches_result[OF this]
  show "e' = None \<or> e' = Some DBUS_ERROR_NO_MEMORY"
    and "\<exists>sent. t' = t @ map (\<lambda>d. (d, Message m')) sent \<and>
           set sent \<subseteq> {d. policy env s a (Some d) m' = None}"
    by simp_all
next
  from preallocate_loop_from_start[OF assms(1)] obtain w1 where
    w1: "preallocate_loop (prealloc env) 0 w = Some w1" "oom_preallocated w1"
      "connected w1 = connected w" "active w1 = active w" "unique_name w1 = unique_name w"
      "outgoing w1 = outgoing w"
    by blast
  define st where "st =
    \<lparr>ds_error = Some e, ds_transaction = Some [], ds_result = DBUS_HANDLER_RESULT_HANDLED,
     ds_message = m\<lparr>msg_sender := Some (unique_name w)\<rparr>, ds_bus = w1\<rparr>"
  have r: "bus_dispatch_route env c m w1 = Inr st"
    using assms(2-8) w1(4,5)
    by (simp add: bus_dispatch_route_def Let_def st_def)
  have "\<exists>w' q. bus_dispatch env c m w = Some (Inr (w', DBUS_HANDLER_RESULT_HANDLED)) \<and>
          outgoing w' = outgoing w @ [(c, q)] \<and>
          (q = Error_reply e (ds_message st) \<or> q = Oom_error (ds_message st))"
    if "connected w"
  proof (cases "e \<noteq> DBUS_ERROR_NO_MEMORY \<and> error_reply_ok env")
    case True
    then show ?thesis
      using that w1 r
      by (intro exI[of _ "bus_transaction_execute_and_free
            [(c, Error_reply e (ds_message st))] w1"] exI[of _ "Error_reply e (ds_message st)"])
        (simp add: bus_dispatch_def bus_dispatch_out_def st_def
          bus_transaction_send_error_reply_def bus_transaction_execute_and_free_def)
  next
    case False
    then show ?thesis
      using that w1 r
      by (intro exI[of _ "bus_transaction_cancel_and_free []
            (w1\<lparr>outgoing := outgoing w1 @ [(c, Oom_error (ds_message st))],
                oom_preallocated := False\<rparr>)"] exI[of _ "Oom_error (ds_message st)"])
        (auto simp add: bus_dispatch_def bus_dispatch_out_def st_def
          bus_transaction_send_error_reply_def bus_connection_send_oom_error_def
          bus_transaction_cancel_and_free_def)
  qed
  with w1(1) r show "\<exists>w1 st. preallocate_loop (prealloc env) 0 w = Some w1 \<and>
      bus_dispatch_route env c m w1 = Inr st \<and> ds_error st = Some e \<and>
      ds_transaction st = Some [] \<and>
      (connected w \<longrightarrow>
         (\<exists>w' q. bus_dispatch env c m w = Some (Inr (w', DBUS_HANDLER_RESULT_HANDLED)) \<and>
            outgoing w' = outgoing w @ [(c, q)] \<and>
            (q = Error_reply e (ds_message st) \<or> q = Oom_error (ds_message st))))"
    by (intro exI[of _ w1] exI[of _ st]) (simp add: st_def)
qed

text \<open>
  At a concrete input: the policy forbids deliveries to connection 2, which owns the
  destination and is also the only match-rule recipient of a second message. The caller
  of the first is sent an AccessDenied error reply; for the second (a signal with no
  destination) nothing at all is queued.
\<close>

theorem policy_denial_silent_only_for_matches_witness:
  "bus_dispatch
     (quiet_bus\<lparr>policy := (\<lambda>s a p m. if p = Some 2 then Some DBUS_ERROR_ACCESS_DENIED else None)\<rparr>)
     1 call_message registered_caller =
   Some (Inr (\<lparr>oom_preallocated = True, connected = True, active = True, unique_name = '':1.1'',
               outgoing = [(1, Error_reply DBUS_ERROR_ACCESS_DENIED stamped_call_message)],
               trace = [Transaction_executed]\<rparr>,
              DBUS_HANDLER_RESULT_HANDLED))
   \<and> bus_dispatch
     (quiet_bus\<lparr>policy := (\<lambda>s a p m. if p = Some 2 then Some DBUS_ERROR_ACCESS_DENIED else None),
                recipients := (\<lambda>m. Some [2])\<rparr>)
     1 (call_message\<lparr>msg_type := SIGNAL, msg_destination := None\<rparr>) registered_caller =
   Some (Inr (\<lparr>oom_preallocated = True, connected = True, active = True, unique_name = '':1.1'',
               outgoing = [], trace = [Transaction_executed]\<rparr>,
              DBUS_HANDLER_RESULT_HANDLED))"
proof -
  have h: "oom_preallocated registered_caller \<or>
      (\<exists>i. prealloc (quiet_bus\<lparr>policy :=
          (\<lambda>s a p m. if p = Some 2 then Some DBUS_ERROR_ACCESS_DENIED else None)\<rparr>) i)"
    by (auto simp: quiet_bus_def)
  have l: "preallocate_loop (\<lambda>i. True) 0 registered_caller =
      Some (registered_caller\<lparr>oom_preallocated := True\<rparr>)"
    by (simp add: preallocate_loop.simps bus_connection_preallocate_oom_error_def
        registered_caller_def)
  show ?thesis
    using policy_denial_silent_only_for_matches [OF h, of call_message
        "''com.example.Service''" 2 1 DBUS_ERROR_ACCESS_DENIED]
    apply (simp add: bus_dispatch_def quiet_bus_def l)
    apply (simp add: bus_dispatch_route_def bus_dispatch_out_def bus_dispatch_matches_def Let_def
        registered_caller_def call_message_def stamped_call_message_def
        send_one_message_def bus_context_check_security_policy_def
        dbus_message_is_signal_def bus_transaction_send_error_reply_def
        bus_transaction_execute_and_free_def DBUS_SERVICE_ORG_FREEDESKTOP_DBUS_def
        DBUS_ERROR_ACCESS_DENIED_def DBUS_ERROR_NO_MEMORY_def)
    done
qed

text \<open>
  The claim as stated fails for the addressed recipient: when the policy denies the
  delivery of a method call to the owner of its destination, the caller is sent an
  AccessDenied error reply.
\<close>

theorem policy_denial_counterexample:
  "bus_dispatch
     (quiet_bus\<lparr>policy := (\<lambda>s a p m. if p = Some 2 then Some DBUS_ERROR_ACCESS_DENIED else None)\<rparr>)
     1 call_message registered_caller =
   Some (Inr (\<lparr>oom_preallocated = True, connected = True, active = True, unique_name = '':1.1'',
               outgoing = [(1, Error_reply DBUS_ERROR_ACCESS_DENIED stamped_call_message)],
               trace = [Transaction_executed]\<rparr>,
              DBUS_HANDLER_RESULT_HANDLED))"
proof -
  have l: "preallocate_loop (\<lambda>i. True) 0 registered_caller =
      Some (registered_caller\<lparr>oom_preallocated := True\<rparr>)"
    by (simp add: preallocate_loop.simps bus_connection_preallocate_oom_error_def
        registered_caller_def)
  show ?thesis
    apply (simp add: bus_dispatch_def quiet_bus_def l)
    apply (simp add: bus_dispatch_route_def bus_dispatch_out_def Let_def
        registered_caller_def call_message_def stamped_call_message_def
        dbus_message_is_signal_def bus_transaction_send_error_reply_def
        bus_transaction_execute_and_free_def DBUS_SERVICE_ORG_FREEDESKTOP_DBUS_def
        DBUS_ERROR_ACCESS_DENIED_def DBUS_ERROR_NO_MEMORY_def)
    done
qed

section \<open>Wire codec\<close>

subsection \<open>Words and their bytes\<close>

lemma length_le_bytes [simp]: "length (le_bytes n w) = n"
  by (induction n arbitrary: w) auto

lemma le_word_le_bytes: "le_word (le_bytes n w) = take_bit (8 * n) w"
proof (induction n arbitrary: w)
  case 0
  then show ?case by simp
next
  case (Suc n)
  show ?case
  proof (rule bit_word_eqI)
    fix k assume kl: "k < LENGTH('a)"
    show "bit (le_word (le_bytes (Suc n) w) :: 'a word) k = bit (take_bit (8 * Suc n) w) k"
    proof (cases "k < 8")
      case True
      with kl show ?thesis by (simp add: Suc.IH bit_simps)
    next
      case False
      then have "8 + (k - 8) = k" by simp
      with False kl show ?thesis by (auto simp add: Suc.IH bit_simps)
    qed
  qed
qed

lemma bit_le_word_bound: "bit (le_word bs :: 'a::len word) k \<Longrightarrow> k < 8 * length bs"
proof (induction bs arbitrary: k)
  case Nil
  then show ?case by simp
next
  case (Cons b bs)
  then show ?case
    by (fastforce simp add: bit_simps dest: bit_imp_le_length)
qed

lemma le_bytes_le_word:
  "8 * length bs \<le> LENGTH('a::len) \<Longrightarrow> le_bytes (length bs) (le_word bs :: 'a word) = bs"
proof (induction bs)
  case Nil
  then show ?case by simp
next
  case (Cons b bs)
  have hd: "ucast (ucast b OR push_bit 8 (le_word bs :: 'a word) :: 'a word) = b"
    using Cons.prems
    by (intro bit_word_eqI) (auto simp add: bit_simps)
  have tl: "drop_bit 8 (ucast b OR push_bit 8 (le_word bs :: 'a word) :: 'a word) = le_word bs"
  proof (rule bit_word_eqI)
    fix k assume k: "k < LENGTH('a)"
    show "bit (drop_bit 8 (ucast b OR push_bit 8 (le_word bs :: 'a word))) k =
        bit (le_word bs :: 'a word) k"
      using Cons.prems k bit_le_word_bound[of bs k, where 'a='a]
      by (auto simp add: bit_simps dest: bit_imp_le_length)
  qed
  have ih: "le_bytes (length bs) (le_word bs :: 'a word) = bs"
    using Cons by simp
  have "le_bytes (length (b # bs)) (le_word (b # bs) :: 'a word) =
      ucast (le_word (b # bs) :: 'a word) #
        le_bytes (length bs) (drop_bit 8 (le_word (b # bs) :: 'a word))"
    by simp
  also have "\<dots> = b # bs"
    unfolding le_word.simps hd tl ih ..
  finally show ?case .
qed

lemma loaded_stored_32:
  "compiler_byte_order h' = compiler_byte_order h \<Longrightarrow>
     loaded_word h' (stored_bytes h 4 (w :: 32 word)) = w"
  by (simp add: loaded_word_def stored_bytes_def le_word_le_bytes take_bit_word_eq_self)

lemma loaded_stored_64:
  "compiler_byte_order h' = compiler_byte_order h \<Longrightarrow>
     loaded_word h' (stored_bytes h 8 (w :: 64 word)) = w"
  by (simp add: loaded_word_def stored_bytes_def le_word_le_bytes take_bit_word_eq_self)

lemma length_stored_bytes [simp]: "length (stored_bytes h n w) = n"
  by (simp add: stored_bytes_def)

lemma swap32_swap32: "DBUS_UINT32_SWAP_LE_BE (DBUS_UINT32_SWAP_LE_BE w) = w"
proof -
  have "le_bytes 4 (le_word (rev (le_bytes 4 w)) :: 32 word) = rev (le_bytes 4 w)"
    using le_bytes_le_word[of "rev (le_bytes 4 w)", where 'a=32] by simp
  then show ?thesis
    by (simp add: DBUS_UINT32_SWAP_LE_BE_def le_word_le_bytes take_bit_word_eq_self)
qed

lemma swap64_swap64: "DBUS_UINT64_SWAP_LE_BE (DBUS_UINT64_SWAP_LE_BE w) = w"
proof -
  have "le_bytes 8 (le_word (rev (le_bytes 8 w)) :: 64 word) = rev (le_bytes 8 w)"
    using le_bytes_le_word[of "rev (le_bytes 8 w)", where 'a=64] by simp
  then show ?thesis
    by (simp add: DBUS_UINT64_SWAP_LE_BE_def le_word_le_bytes take_bit_word_eq_self)
qed

subsection \<open>Alignment\<close>

lemma align_ge: "0 < b \<Longrightarrow> x \<le> DBUS_ALIGN_VALUE x b"
proof -
  assume b: "0 < b"
  have "(x + (b - 1)) div b * b = x + (b - 1) - (x + (b - 1)) mod b"
    by (simp add: minus_mod_eq_div_mult)
  moreover have "(x + (b - 1)) mod b \<le> b - 1"
    using b pos_mod_bound[of b "x + (b - 1)"] by simp
  ultimately show ?thesis by (simp add: DBUS_ALIGN_VALUE_def)
qed

lemma align_less: "0 < b \<Longrightarrow> DBUS_ALIGN_VALUE x b < x + b"
proof -
  assume b: "0 < b"
  have "(x + (b - 1)) div b * b = x + (b - 1) - (x + (b - 1)) mod b"
    by (simp add: minus_mod_eq_div_mult)
  moreover have "0 \<le> (x + (b - 1)) mod b"
    using b by simp
  ultimately show ?thesis by (simp add: DBUS_ALIGN_VALUE_def)
qed

lemma align_idem: "0 < b \<Longrightarrow> DBUS_ALIGN_VALUE (DBUS_ALIGN_VALUE x b) b = DBUS_ALIGN_VALUE x b"
proof -
  assume b: "0 < b"
  have "(q * b + (b - 1)) div b = q" for q
  proof -
    have "(q * b + (b - 1)) div b = q + (b - 1) div b"
      using b by (simp add: div_mult_self3)
    then show ?thesis using b by (simp add: div_pos_pos_trivial)
  qed
  then show ?thesis by (simp add: DBUS_ALIGN_VALUE_def)
qed

lemma align_mod: "0 < b \<Longrightarrow> DBUS_ALIGN_VALUE x b mod b = 0"
  by (simp add: DBUS_ALIGN_VALUE_def)

subsection \<open>Strings after an insertion\<close>

lemma grow_success:
  assumes "grow s pos bs h = Inr (True, h')"
  shows "strs h' s = insert_at_pos (strs h s) pos bs"
    and "0 \<le> pos" and "pos \<le> int (length (strs h s))"
    and "compiler_byte_order h' = compiler_byte_order h"
    and "\<And>a. a \<noteq> s \<Longrightarrow> strs h' a = strs h a"
  using assms
  by (auto simp: grow_def allocate_def dbus_string_get_length_def insert_at_pos_def
      split: if_splits list.splits prod.splits bool.splits)

lemma grow_failure:
  assumes "grow s pos bs h = Inr (False, h')"
  shows "strs h' = strs h" and "compiler_byte_order h' = compiler_byte_order h"
  using assms
  by (auto simp: grow_def allocate_def split: if_splits list.splits prod.splits bool.splits)

lemma read_inserted:
  assumes "strs h s = insert_at_pos old pos (pad @ bs @ rest)"
    and "0 \<le> pos" "pos \<le> int (length old)"
  shows "read_bytes h s (pos + int (length pad)) (length bs) = Inr bs"
proof -
  have n: "nat (pos + int (length pad)) = nat pos + length pad"
    using assms(2) by (simp add: nat_add_distrib)
  have l: "length (take (nat pos) old) = nat pos"
    using assms(3) by simp
  have "drop (nat pos + length pad) (take (nat pos) old @ pad @ bs @ rest @ drop (nat pos) old) =
      bs @ rest @ drop (nat pos) old"
    using l by (simp add: drop_append)
  then show ?thesis
    using assms
    by (simp add: read_bytes_def dbus_string_get_length_def insert_at_pos_def n)
qed

lemma string_at_inserted:
  assumes "strs h s = insert_at_pos old pos (pad @ cs @ 0 # rest)"
    and "0 \<le> pos" "pos \<le> int (length old)" "0 \<notin> set cs"
  shows "string_at h s (pos + int (length pad)) = Inr cs"
proof -
  have n: "nat (pos + int (length pad)) = nat pos + length pad"
    using assms(2) by (simp add: nat_add_distrib)
  have l: "length (take (nat pos) old) = nat pos"
    using assms(3) by simp
  have "drop (nat pos + length pad) (take (nat pos) old @ pad @ cs @ 0 # rest @ drop (nat pos) old) =
      cs @ 0 # rest @ drop (nat pos) old"
    using l by (simp add: drop_append)
  moreover have "takeWhile (\<lambda>b. b \<noteq> 0) (cs @ 0 # rest @ drop (nat pos) old) = cs"
    using assms(4) by (induction cs) auto
  ultimately show ?thesis
    using assms
    by (simp add: string_at_def c_string_def dbus_string_get_length_def insert_at_pos_def n)
qed

lemma c_string_no_nul: "0 \<notin> set (c_string bs)"
  unfolding c_string_def by (induction bs) auto

lemma c_string_take: "take (length (c_string bs) + 1) (bs @ [0]) = c_string bs @ [0]"
  unfolding c_string_def by (induction bs) auto

subsection \<open>Marshaling four and eight octets\<close>

lemma marshal_4_octets_success:
  assumes "marshal_4_octets s i v byte_order h = Inr (True, p, h')"
  shows "strs h' s = insert_at_pos (strs h s) i
           (replicate (nat (DBUS_ALIGN_VALUE i 4 - i)) 0 @
            stored_bytes h 4 (if byte_order \<noteq> compiler_byte_order h
                              then DBUS_UINT32_SWAP_LE_BE v else v))"
    and "p = Some (DBUS_ALIGN_VALUE i 4 + 4)"
    and "0 \<le> i" "i \<le> int (length (strs h s))"
    and "compiler_byte_order h' = compiler_byte_order h"
proof -
  let ?bs = "replicate (nat (DBUS_ALIGN_VALUE i 4 - i)) 0 @
      stored_bytes h 4 (if byte_order \<noteq> compiler_byte_order h then DBUS_UINT32_SWAP_LE_BE v else v)"
  from assms have g: "grow s i ?bs h = Inr (True, h')"
    by (auto simp: marshal_4_octets_def dbus_string_insert_4_aligned_def Let_def
        split: sum.splits prod.splits if_splits)
  note gs = grow_success[OF g]
  show "strs h' s = insert_at_pos (strs h s) i ?bs" by (rule gs(1))
  show "0 \<le> i" "i \<le> int (length (strs h s))" "compiler_byte_order h' = compiler_byte_order h"
    by (rule gs)+
  have "i \<le> DBUS_ALIGN_VALUE i 4" by (rule align_ge) simp
  then have "int (length (strs h' s)) - int (length (strs h s)) = DBUS_ALIGN_VALUE i 4 - i + 4"
    using gs(2,3) by (simp add: gs(1) insert_at_pos_def)
  with assms g show "p = Some (DBUS_ALIGN_VALUE i 4 + 4)"
    by (auto simp: marshal_4_octets_def dbus_string_insert_4_aligned_def Let_def
        dbus_string_get_length_def split: sum.splits prod.splits if_splits)
qed

lemma marshal_8_octets_success:
  assumes "marshal_8_octets s i v byte_order h = Inr (True, p, h')"
  shows "strs h' s = insert_at_pos (strs h s) i
           (replicate (nat (DBUS_ALIGN_VALUE i 8 - i)) 0 @
            stored_bytes h 8 (if byte_order \<noteq> compiler_byte_order h
                              then DBUS_UINT64_SWAP_LE_BE v else v))"
    and "p = Some (DBUS_ALIGN_VALUE i 8 + 8)"
    and "0 \<le> i" "i \<le> int (length (strs h s))"
    and "compiler_byte_order h' = compiler_byte_order h"
proof -
  let ?bs = "replicate (nat (DBUS_ALIGN_VALUE i 8 - i)) 0 @
      stored_bytes h 8 (if byte_order \<noteq> compiler_byte_order h then DBUS_UINT64_SWAP_LE_BE v else v)"
  from assms have g: "grow s i ?bs h = Inr (True, h')"
    by (auto simp: marshal_8_octets_def dbus_string_insert_8_aligned_def Let_def
        split: sum.splits prod.splits if_splits)
  note gs = grow_success[OF g]
  show "strs h' s = insert_at_pos (strs h s) i ?bs" by (rule gs(1))
  show "0 \<le> i" "i \<le> int (length (strs h s))" "compiler_byte_order h' = compiler_byte_order h"
    by (rule gs)+
  have "i \<le> DBUS_ALIGN_VALUE i 8" by (rule align_ge) simp
  then have "int (length (strs h' s)) - int (length (strs h s)) = DBUS_ALIGN_VALUE i 8 - i + 8"
    using gs(2,3) by (simp add: gs(1) insert_at_pos_def)
  with assms g show "p = Some (DBUS_ALIGN_VALUE i 8 + 8)"
    by (auto simp: marshal_8_octets_def dbus_string_insert_8_aligned_def Let_def
        dbus_string_get_length_def split: sum.splits prod.splits if_splits)
qed

text \<open>What was marshaled as four octets is read back by both ways of reading.\<close>

lemma read_marshaled_4_octets:
  assumes "strs h' s = insert_at_pos (strs h s) i
           (replicate (nat (DBUS_ALIGN_VALUE i 4 - i)) 0 @
            stored_bytes h 4 (if byte_order \<noteq> compiler_byte_order h
                              then DBUS_UINT32_SWAP_LE_BE v else v) @ rest)"
    and "0 \<le> i" "i \<le> int (length (strs h s))"
  shows "read_bytes h' s (DBUS_ALIGN_VALUE i 4) 4 =
           Inr (stored_bytes h 4 (if byte_order \<noteq> compiler_byte_order h
                                  then DBUS_UINT32_SWAP_LE_BE v else v))"
proof -
  have a: "i \<le> DBUS_ALIGN_VALUE i 4" by (rule align_ge) simp
  from read_inserted[OF assms(1) assms(2,3)] a show ?thesis by simp
qed

lemma unpack_marshaled_4_octets:
  assumes "strs h' s = insert_at_pos (strs h s) i
           (replicate (nat (DBUS_ALIGN_VALUE i 4 - i)) 0 @
            stored_bytes h 4 (if byte_order \<noteq> compiler_byte_order h
                              then DBUS_UINT32_SWAP_LE_BE v else v) @ rest)"
    and "0 \<le> i" "i \<le> int (length (strs h s))"
    and "compiler_byte_order h' = compiler_byte_order h"
    and "compiler_byte_order h = DBUS_LITTLE_ENDIAN \<or> compiler_byte_order h = DBUS_BIG_ENDIAN"
    and "byte_order = DBUS_LITTLE_ENDIAN \<or> byte_order = DBUS_BIG_ENDIAN"
  shows "dbus_demarshal_uint32 h' s byte_order i = Inr (v, DBUS_ALIGN_VALUE i 4 + 4)"
proof -
  note r = read_marshaled_4_octets[OF assms(1-3)]
  have ne: "DBUS_LITTLE_ENDIAN \<noteq> DBUS_BIG_ENDIAN"
    by (simp add: DBUS_LITTLE_ENDIAN_def DBUS_BIG_ENDIAN_def)
  show ?thesis
    using assms(4-6) ne
    by (auto simp: dbus_demarshal_uint32_def demarshal_4_octets_def unpack_4_octets_def Let_def
        align_idem r loaded_stored_32 DBUS_UINT32_FROM_LE_def DBUS_UINT32_FROM_BE_def
        swap32_swap32)
qed

subsection \<open>Marshaling a length followed by bytes\<close>

lemma insert_at_pos_twice:
  assumes "0 \<le> i" "i \<le> int (length old)"
  shows "insert_at_pos (insert_at_pos old i xs) (i + int (length xs)) ys =
         insert_at_pos old i (xs @ ys)"
proof -
  have n: "nat (i + int (length xs)) = nat i + length xs"
    using assms(1) by (simp add: nat_add_distrib)
  have l: "length (take (nat i) old) = nat i"
    using assms(2) by simp
  show ?thesis
    using l by (simp add: insert_at_pos_def n drop_append take_append)
qed

lemma marshal_len_followed_by_bytes_success:
  assumes "marshal_len_followed_by_bytes how s i val data_len byte_order h = Inr (True, p, h')"
  shows "strs h' s = insert_at_pos (strs h s) i
           (length_prefix how h i data_len byte_order @
            take (nat (if how = MARSHAL_AS_BYTE_ARRAY then data_len else data_len + 1)) val)"
    and "0 \<le> i" "i \<le> int (length (strs h s))"
    and "compiler_byte_order h' = compiler_byte_order h"
proof -
  let ?vl = "if how = MARSHAL_AS_BYTE_ARRAY then data_len else data_len + 1"
  let ?pre = "length_prefix how h i data_len byte_order"
  have first: "\<exists>h1. strs h1 s = insert_at_pos (strs h s) i ?pre \<and> 0 \<le> i \<and>
      i \<le> int (length (strs h s)) \<and> compiler_byte_order h1 = compiler_byte_order h \<and>
      copy_bytes_len val 0 ?vl s (i + int (length ?pre)) h1 = Inr (True, h')"
  proof (cases "how = MARSHAL_AS_SIGNATURE")
    case True
    from assms True obtain h1 where
      g: "grow s i [word_of_int data_len] h = Inr (True, h1)"
      and c: "copy_bytes_len val 0 ?vl s (i + 1) h1 = Inr (True, h')"
      by (auto simp: marshal_len_followed_by_bytes_def Let_def dbus_string_insert_byte_def
          marshal_oom_def split: sum.splits prod.splits if_splits bool.splits)
    from grow_success[OF g] c True show ?thesis
      by (intro exI[of _ h1]) (simp add: length_prefix_def)
  next
    case False
    from assms False obtain h1 p1 where
      m: "marshal_4_octets s i (word_of_int data_len) byte_order h = Inr (True, p1, h1)"
      and c: "copy_bytes_len val 0 ?vl s (case p1 of Some p' \<Rightarrow> p' | None \<Rightarrow> i) h1 = Inr (True, h')"
      by (auto simp: marshal_len_followed_by_bytes_def Let_def marshal_oom_def
          split: sum.splits prod.splits if_splits bool.splits)
    note ms = marshal_4_octets_success[OF m]
    have a: "i \<le> DBUS_ALIGN_VALUE i 4" by (rule align_ge) simp
    have "i + int (length ?pre) = DBUS_ALIGN_VALUE i 4 + 4"
      using False a by (simp add: length_prefix_def)
    with ms c False a show ?thesis
      by (intro exI[of _ h1]) (auto simp add: length_prefix_def)
  qed
  then obtain h1 where h1: "strs h1 s = insert_at_pos (strs h s) i ?pre" "0 \<le> i"
      "i \<le> int (length (strs h s))" "compiler_byte_order h1 = compiler_byte_order h"
      "copy_bytes_len val 0 ?vl s (i + int (length ?pre)) h1 = Inr (True, h')"
    by blast
  from h1(5) have g: "grow s (i + int (length ?pre)) (take (nat ?vl) val) h1 = Inr (True, h')"
    by (auto simp: copy_bytes_len_def split: if_splits)
  note gs = grow_success[OF g]
  show "strs h' s = insert_at_pos (strs h s) i (?pre @ take (nat ?vl) val)"
    using gs(1) h1(1) insert_at_pos_twice[OF h1(2,3)] by simp
  show "0 \<le> i" "i \<le> int (length (strs h s))" by fact+
  show "compiler_byte_order h' = compiler_byte_order h"
    using gs(4) h1(4) by simp
qed

subsection \<open>Round trip of a basic value\<close>

lemma get_byte_inserted:
  assumes "strs h s = insert_at_pos old pos (b # rest)" "0 \<le> pos" "pos \<le> int (length old)"
  shows "dbus_string_get_byte h s pos = Inr (uint b)"
proof -
  have l: "length (take (nat pos) old) = nat pos"
    using assms(3) by simp
  have "(take (nat pos) old @ b # rest @ drop (nat pos) old) ! nat pos = b"
    using l by (simp add: nth_append)
  then show ?thesis
    using assms l
    by (simp add: dbus_string_get_byte_def dbus_string_get_length_def insert_at_pos_def)
qed

lemma roundtrip_byte:
  assumes "t = DBUS_TYPE_BYTE \<or> t = DBUS_TYPE_BOOLEAN"
    and "dbus_marshal_basic_type s i t v byte_order h = Inr (True, p, h')"
  shows "dbus_demarshal_basic_type h' s t byte_order i = Inr (read_back v, i + 1)"
proof -
  from assms obtain b where v: "v = Byt b" and g: "grow s i [b] h = Inr (True, h')"
    by (auto simp: dbus_marshal_basic_type_def dbus_string_insert_byte_def
        split: DBusBasicValue.splits sum.splits prod.splits bool.splits)
  note gs = grow_success[OF g]
  from get_byte_inserted[OF gs(1) gs(2,3)] assms(1) v show ?thesis
    by (auto simp: dbus_demarshal_basic_type_def read_back_def)
qed

lemma roundtrip_4:
  assumes "t = DBUS_TYPE_INT32 \<or> t = DBUS_TYPE_UINT32"
    and "dbus_marshal_basic_type s i t v byte_order h = Inr (True, p, h')"
  shows "dbus_demarshal_basic_type h' s t byte_order i = Inr (read_back v, DBUS_ALIGN_VALUE i 4 + 4)"
proof -
  from assms obtain w where v: "v = U32 w"
    and m: "marshal_4_octets s i w byte_order h = Inr (True, p, h')"
    by (auto simp: dbus_marshal_basic_type_def typecode split: DBusBasicValue.splits)
  note ms = marshal_4_octets_success[OF m]
  have r: "read_bytes h' s (DBUS_ALIGN_VALUE i 4) 4 =
      Inr (stored_bytes h 4 (if byte_order \<noteq> compiler_byte_order h
                             then DBUS_UINT32_SWAP_LE_BE w else w))"
    using read_marshaled_4_octets[of h' s h i byte_order w "[]"] ms by simp
  show ?thesis
    using assms(1) v ms(5)
    by (auto simp: dbus_demarshal_basic_type_def typecode Let_def r loaded_stored_32
        swap32_swap32 read_back_def)
qed

lemma roundtrip_8:
  assumes "t = DBUS_TYPE_INT64 \<or> t = DBUS_TYPE_UINT64 \<or> t = DBUS_TYPE_DOUBLE"
    and "dbus_marshal_basic_type s i t v byte_order h = Inr (True, p, h')"
  shows "dbus_demarshal_basic_type h' s t byte_order i = Inr (read_back v, DBUS_ALIGN_VALUE i 8 + 8)"
proof -
  from assms obtain w where v: "v = U64 w"
    and m: "marshal_8_octets s i w byte_order h = Inr (True, p, h')"
    by (auto simp: dbus_marshal_basic_type_def typecode split: DBusBasicValue.splits)
  note ms = marshal_8_octets_success[OF m]
  have a: "i \<le> DBUS_ALIGN_VALUE i 8" by (rule align_ge) simp
  have "read_bytes h' s (i + int (length (replicate (nat (DBUS_ALIGN_VALUE i 8 - i)) (0::byte))))
          (length (stored_bytes h 8 (if byte_order \<noteq> compiler_byte_order h
                                     then DBUS_UINT64_SWAP_LE_BE w else w))) =
      Inr (stored_bytes h 8 (if byte_order \<noteq> compiler_byte_order h
                             then DBUS_UINT64_SWAP_LE_BE w else w))"
    using ms(1,3,4) by (intro read_inserted[where rest = "[]"]) simp_all
  with a have r: "read_bytes h' s (DBUS_ALIGN_VALUE i 8) 8 =
      Inr (stored_bytes h 8 (if byte_order \<noteq> compiler_byte_order h
                             then DBUS_UINT64_SWAP_LE_BE w else w))"
    by simp
  show ?thesis
    using assms(1) v ms(5)
    by (auto simp: dbus_demarshal_basic_type_def typecode Let_def r loaded_stored_64
        swap64_swap64 read_back_def)
qed

lemma roundtrip_string:
  assumes "t = DBUS_TYPE_STRING \<or> t = DBUS_TYPE_OBJECT_PATH"
    and host: "compiler_byte_order h = DBUS_LITTLE_ENDIAN \<or> compiler_byte_order h = DBUS_BIG_ENDIAN"
    and bo: "byte_order = DBUS_LITTLE_ENDIAN \<or> byte_order = DBUS_BIG_ENDIAN"
    and "dbus_marshal_basic_type s i t v byte_order h = Inr (True, p, h')"
  shows "\<exists>cs. v = Str cs \<and> dbus_demarshal_basic_type h' s t byte_order i =
           Inr (read_back v, DBUS_ALIGN_VALUE i 4 + 4 + (int_of_uint32 (word_of_int (strlen cs)) + 1))"
proof -
  from assms(1,4) obtain cs where v: "v = Str cs"
    and m: "marshal_len_followed_by_bytes MARSHAL_AS_STRING s i (cs @ [0]) (strlen cs)
        byte_order h = Inr (True, p, h')"
    by (auto simp: dbus_marshal_basic_type_def typecode marshal_string_def
        split: DBusBasicValue.splits)
  note ms = marshal_len_followed_by_bytes_success[OF m]
  let ?w = "word_of_int (strlen cs) :: 32 word"
  let ?pad = "replicate (nat (DBUS_ALIGN_VALUE i 4 - i)) (0::byte)"
  let ?st = "stored_bytes h 4 (if byte_order \<noteq> compiler_byte_order h
                               then DBUS_UINT32_SWAP_LE_BE ?w else ?w)"
  have tk: "take (nat (strlen cs + 1)) (cs @ [0]) = c_string cs @ [0]"
    using c_string_take[of cs] by (simp add: strlen_def nat_add_distrib)
  have str: "strs h' s = insert_at_pos (strs h s) i (?pad @ ?st @ c_string cs @ [0])"
    using ms(1) by (simp add: length_prefix_def tk del: take_append)
  have len: "dbus_demarshal_uint32 h' s byte_order i = Inr (?w, DBUS_ALIGN_VALUE i 4 + 4)"
    using str ms(2-4) host bo by (intro unpack_marshaled_4_octets) simp_all
  have a: "i \<le> DBUS_ALIGN_VALUE i 4" by (rule align_ge) simp
  have "string_at h' s (i + int (length (?pad @ ?st))) = Inr (c_string cs)"
    using str ms(2,3) c_string_no_nul[of cs]
    by (intro string_at_inserted[where rest = "[]"]) simp_all
  with a have sa: "string_at h' s (DBUS_ALIGN_VALUE i 4 + 4) = Inr (c_string cs)"
    by simp
  show ?thesis
    using assms(1) v
    by (auto simp: dbus_demarshal_basic_type_def typecode Let_def len sa read_back_def)
qed

lemma roundtrip_signature:
  assumes "t = DBUS_TYPE_SIGNATURE"
    and "dbus_marshal_basic_type s i t v byte_order h = Inr (True, p, h')"
  shows "\<exists>cs. v = Str cs \<and> dbus_demarshal_basic_type h' s t byte_order i =
           Inr (read_back v, i + 1 + (uint (word_of_int (strlen cs) :: byte) + 1))"
proof -
  from assms obtain cs where v: "v = Str cs"
    and m: "marshal_len_followed_by_bytes MARSHAL_AS_SIGNATURE s i (cs @ [0]) (strlen cs)
        (compiler_byte_order h) h = Inr (True, p, h')"
    by (auto simp: dbus_marshal_basic_type_def typecode marshal_signature_def
        split: DBusBasicValue.splits)
  note ms = marshal_len_followed_by_bytes_success[OF m]
  have tk: "take (nat (strlen cs + 1)) (cs @ [0]) = c_string cs @ [0]"
    using c_string_take[of cs] by (simp add: strlen_def nat_add_distrib)
  have str: "strs h' s = insert_at_pos (strs h s) i
      ([word_of_int (strlen cs)] @ c_string cs @ [0])"
    using ms(1) by (simp add: length_prefix_def tk del: take_append)
  have gb: "dbus_string_get_byte h' s i = Inr (uint (word_of_int (strlen cs) :: byte))"
    using str ms(2,3) by (intro get_byte_inserted) simp_all
  have "string_at h' s (i + int (length [word_of_int (strlen cs) :: byte])) = Inr (c_string cs)"
    using str ms(2,3) c_string_no_nul[of cs]
    by (intro string_at_inserted[where rest = "[]"]) simp_all
  then have sa: "string_at h' s (i + 1) = Inr (c_string cs)" by simp
  show ?thesis
    using assms(1) v
    by (auto simp: dbus_demarshal_basic_type_def typecode Let_def gb sa read_back_def)
qed

subsection \<open>Marshaling succeeds when memory is granted\<close>

lemma grow_with_memory:
  assumes "allocs h = []" "0 \<le> i" "i \<le> int (length (strs h s))"
  shows "grow s i bs h = Inr (True, h\<lparr>strs := (strs h)(s := insert_at_pos (strs h s) i bs)\<rparr>)"
proof (cases "bs = []")
  case True
  have "h\<lparr>strs := (strs h)(s := take (nat i) (strs h s) @ drop (nat i) (strs h s))\<rparr> = h"
    by simp
  with True assms show ?thesis
    by (simp add: grow_def dbus_string_get_length_def insert_at_pos_def)
next
  case False
  with assms show ?thesis
    by (simp add: grow_def allocate_def dbus_string_get_length_def)
qed

lemma marshal_4_octets_with_memory:
  assumes "allocs h = []" "0 \<le> i" "i \<le> int (length (strs h s))"
  shows "\<exists>h'. marshal_4_octets s i v byte_order h = Inr (True, Some (DBUS_ALIGN_VALUE i 4 + 4), h') \<and>
           allocs h' = []"
proof -
  have a: "i \<le> DBUS_ALIGN_VALUE i 4" by (rule align_ge) simp
  show ?thesis
    using assms a
    by (simp add: marshal_4_octets_def dbus_string_insert_4_aligned_def Let_def
        grow_with_memory dbus_string_get_length_def insert_at_pos_def)
qed

lemma marshal_8_octets_with_memory:
  assumes "allocs h = []" "0 \<le> i" "i \<le> int (length (strs h s))"
  shows "\<exists>h'. marshal_8_octets s i v byte_order h = Inr (True, Some (DBUS_ALIGN_VALUE i 8 + 8), h')"
proof -
  have a: "i \<le> DBUS_ALIGN_VALUE i 8" by (rule align_ge) simp
  show ?thesis
    using assms a
    by (simp add: marshal_8_octets_def dbus_string_insert_8_aligned_def Let_def
        grow_with_memory dbus_string_get_length_def insert_at_pos_def)
qed

lemma equal_substring_inserted:
  assumes "0 \<le> pos" "pos \<le> int (length old)" "0 \<le> n" "n \<le> int (length val)"
  shows "equal_substring_bytes val 0 n (insert_at_pos old pos (take (nat n) val)) pos = Inr True"
proof -
  have l: "length (take (nat pos) old) = nat pos"
    using assms(2) by simp
  have d: "drop (nat pos) (take (nat pos) old @ take (nat n) val @ drop (nat pos) old) =
      take (nat n) val @ drop (nat pos) old"
    using l by (simp add: drop_append)
  have m: "min (length val) (nat n) = nat n"
    using assms(3,4) by simp
  show ?thesis
    using assms l d m
    by (simp add: equal_substring_bytes_def insert_at_pos_def)
qed

lemma marshal_len_followed_by_bytes_with_memory:
  assumes "allocs h = []" "0 \<le> i" "i \<le> int (length (strs h s))"
    and "how \<noteq> MARSHAL_AS_BYTE_ARRAY" "0 \<le> data_len" "data_len + 1 \<le> int (length val)"
  shows "\<exists>p h'. marshal_len_followed_by_bytes how s i val data_len byte_order h =
           Inr (True, Some p, h')"
proof -
  let ?pre = "length_prefix how h i data_len byte_order"
  let ?h1 = "h\<lparr>strs := (strs h)(s := insert_at_pos (strs h s) i ?pre)\<rparr>"
  have a: "i \<le> DBUS_ALIGN_VALUE i 4" by (rule align_ge) simp
  have len_written:
    "(if how = MARSHAL_AS_SIGNATURE then
        (case dbus_string_insert_byte s i (word_of_int data_len) h of
           Inl e \<Rightarrow> Inl e
         | Inr (ok, h') \<Rightarrow> Inr (ok, if ok then i + 1 else i, h'))
      else
        (case marshal_4_octets s i (word_of_int data_len) byte_order h of
           Inl e \<Rightarrow> Inl e
         | Inr (ok, p, h') \<Rightarrow> Inr (ok, case p of Some p' \<Rightarrow> p' | None \<Rightarrow> i, h'))) =
     Inr (True, i + int (length ?pre), ?h1)"
    using assms(1-3) a
    by (simp add: dbus_string_insert_byte_def grow_with_memory length_prefix_def
        marshal_4_octets_def dbus_string_insert_4_aligned_def Let_def
        dbus_string_get_length_def insert_at_pos_def)
  have p1: "0 \<le> i + int (length ?pre)" "i + int (length ?pre) \<le> int (length (strs ?h1 s))"
    using assms(2,3) by (simp_all add: insert_at_pos_def)
  have c: "copy_bytes_len val 0 (data_len + 1) s (i + int (length ?pre)) ?h1 =
      Inr (True, ?h1\<lparr>strs := (strs ?h1)(s := insert_at_pos (strs ?h1 s) (i + int (length ?pre))
                                               (take (nat (data_len + 1)) val))\<rparr>)"
    using assms(1,5,6) p1
    by (simp add: copy_bytes_len_def grow_with_memory)
  have e: "equal_substring_bytes val 0 (data_len + 1)
      (insert_at_pos (strs ?h1 s) (i + int (length ?pre)) (take (nat (data_len + 1)) val))
      (i + int (length ?pre)) = Inr True"
    using p1 assms(5,6) by (intro equal_substring_inserted) simp_all
  show ?thesis
    using assms(4) e
    apply (simp only: marshal_len_followed_by_bytes_def Let_def len_written)
    apply (simp add: c)
    done
qed

lemma marshal_basic_type_with_memory:
  assumes "allocs h = []" "0 \<le> i" "i \<le> int (length (strs h s))" "basic_value t v"
  shows "\<exists>p h'. dbus_marshal_basic_type s i t v byte_order h = Inr (True, Some p, h')"
proof (cases v)
  case (Byt b)
  with assms show ?thesis
    by (auto simp: basic_value_def dbus_marshal_basic_type_def dbus_string_insert_byte_def
        grow_with_memory)
next
  case (U32 w)
  with assms marshal_4_octets_with_memory[OF assms(1-3), of w byte_order] show ?thesis
    by (auto simp: basic_value_def dbus_marshal_basic_type_def typecode)
next
  case (U64 w)
  with assms marshal_8_octets_with_memory[OF assms(1-3), of w byte_order] show ?thesis
    by (auto simp: basic_value_def dbus_marshal_basic_type_def typecode)
next
  case (Str cs)
  have l: "0 \<le> strlen cs" "strlen cs + 1 \<le> int (length (cs @ [0]))"
    using length_takeWhile_le[of "\<lambda>b. b \<noteq> 0" cs] by (simp_all add: strlen_def c_string_def)
  from marshal_len_followed_by_bytes_with_memory[OF assms(1-3) _ l, of MARSHAL_AS_STRING byte_order]
    marshal_len_followed_by_bytes_with_memory[OF assms(1-3) _ l, of MARSHAL_AS_SIGNATURE
      "compiler_byte_order h"]
    Str assms(4)
  show ?thesis
    by (auto simp: basic_value_def dbus_marshal_basic_type_def typecode marshal_string_def
        marshal_signature_def)
qed

text \<open>
  Claim C1. On a machine of either byte order and for either byte order of the wire: for a
  value of one of the ten basic types and an insertion position within the string,
  \<^verbatim>\<open>_dbus_marshal_basic_type\<close> returns TRUE when the allocator grants memory; and
  whenever it returns TRUE, the value is of a basic type and
  \<^verbatim>\<open>_dbus_demarshal_basic_type\<close> at the same position of the resulting string, for the
  same type code and byte order, yields the value that was marshaled (for a string, an
  object path or a signature, the characters of the C string that was marshaled).
\<close>

theorem marshal_demarshal_roundtrip:
  assumes "compiler_byte_order h = DBUS_LITTLE_ENDIAN \<or> compiler_byte_order h = DBUS_BIG_ENDIAN"
    and "byte_order = DBUS_LITTLE_ENDIAN \<or> byte_order = DBUS_BIG_ENDIAN"
  shows "(allocs h = [] \<and> 0 \<le> insert_at \<and> insert_at \<le> dbus_string_get_length h s \<and>
          basic_value t v \<longrightarrow>
            (\<exists>p h'. dbus_marshal_basic_type s insert_at t v byte_order h = Inr (True, Some p, h')))
       \<and> (\<forall>p h'. dbus_marshal_basic_type s insert_at t v byte_order h = Inr (True, p, h') \<longrightarrow>
            basic_value t v \<and>
            (\<exists>new_pos. dbus_demarshal_basic_type h' s t byte_order insert_at =
               Inr (read_back v, new_pos)))"
proof (intro conjI allI impI)
  assume "allocs h = [] \<and> 0 \<le> insert_at \<and> insert_at \<le> dbus_string_get_length h s \<and>
      basic_value t v"
  then show "\<exists>p h'. dbus_marshal_basic_type s insert_at t v byte_order h = Inr (True, Some p, h')"
    by (intro marshal_basic_type_with_memory) (simp_all add: dbus_string_get_length_def)
next
  fix p h'
  assume m: "dbus_marshal_basic_type s insert_at t v byte_order h = Inr (True, p, h')"
  then show "basic_value t v"
    by (auto simp: dbus_marshal_basic_type_def basic_value_def
        split: if_splits DBusBasicValue.splits)
  consider "t = DBUS_TYPE_BYTE \<or> t = DBUS_TYPE_BOOLEAN"
    | "t = DBUS_TYPE_INT32 \<or> t = DBUS_TYPE_UINT32"
    | "t = DBUS_TYPE_INT64 \<or> t = DBUS_TYPE_UINT64 \<or> t = DBUS_TYPE_DOUBLE"
    | "t = DBUS_TYPE_STRING \<or> t = DBUS_TYPE_OBJECT_PATH"
    | "t = DBUS_TYPE_SIGNATURE"
    using m by (auto simp: dbus_marshal_basic_type_def split: if_splits)
  then show "\<exists>new_pos. dbus_demarshal_basic_type h' s t byte_order insert_at =
      Inr (read_back v, new_pos)"
  proof cases
    case 1
    from roundtrip_byte[OF 1 m] show ?thesis by blast
  next
    case 2
    from roundtrip_4[OF 2 m] show ?thesis by blast
  next
    case 3
    from roundtrip_8[OF 3 m] show ?thesis by blast
  next
    case 4
    from roundtrip_string[OF 4 assms m] show ?thesis by blast
  next
    case 5
    from roundtrip_signature[OF 5 m] show ?thesis by blast
  qed
qed

text \<open>
  At a concrete input: the 32-bit value 0x11223344 marshaled big-endian at position 1 (three
  bytes of padding, then the four octets), and the string "hi" marshaled little-endian at
  the same position; both read back.
\<close>

theorem marshal_demarshal_roundtrip_witness:
  "(case dbus_marshal_basic_type 0 1 DBUS_TYPE_INT32 (U32 0x11223344) DBUS_BIG_ENDIAN
           example_memory of
      Inl e \<Rightarrow> False
    | Inr (ok, p, h') \<Rightarrow>
        ok \<and> p = Some 8 \<and> strs h' 0 = [1, 0, 0, 0, 0x11, 0x22, 0x33, 0x44, 2, 3] \<and>
        dbus_demarshal_basic_type h' 0 DBUS_TYPE_INT32 DBUS_BIG_ENDIAN 1 =
          Inr (U32 0x11223344, 8))
   \<and> (case dbus_marshal_basic_type 0 1 DBUS_TYPE_STRING (Str [104, 105]) DBUS_LITTLE_ENDIAN
           example_memory of
      Inl e \<Rightarrow> False
    | Inr (ok, p, h') \<Rightarrow>
        ok \<and> p = Some 11 \<and> strs h' 0 = [1, 0, 0, 0, 2, 0, 0, 0, 104, 105, 0, 2, 3] \<and>
        dbus_demarshal_basic_type h' 0 DBUS_TYPE_STRING DBUS_LITTLE_ENDIAN 1 =
          Inr (Str [104, 105], 11))"
proof -
  have ev: ?thesis by code_simp
  have host: "compiler_byte_order example_memory = DBUS_LITTLE_ENDIAN \<or>
      compiler_byte_order example_memory = DBUS_BIG_ENDIAN"
    by (simp add: example_memory_def)
  from marshal_demarshal_roundtrip [OF host, of DBUS_BIG_ENDIAN 1 0 DBUS_TYPE_INT32
      "U32 0x11223344"] ev
  show ?thesis by simp
qed

section \<open>The type reader\<close>

subsection \<open>The offset of an array reader\<close>

lemma alignment_values:
  assumes "dbus_type_get_alignment t = Inr a"
  shows "a = 1 \<or> a = 4 \<or> a = 8"
  using assms by (auto simp add: dbus_type_get_alignment_def split: if_splits)

lemma element_alignment_values:
  assumes "element_type_get_alignment h str pos = Inr a"
  shows "a = 1 \<or> a = 4 \<or> a = 8"
  using assms alignment_values
  by (auto simp add: element_type_get_alignment_def split: sum.splits)

lemma align_gap:
  assumes "a = 1 \<or> a = 4 \<or> a = 8"
  shows "0 \<le> DBUS_ALIGN_VALUE x a - x" and "DBUS_ALIGN_VALUE x a - x \<le> 7"
proof -
  have a: "0 < a" "a \<le> 8" using assms by auto
  show "0 \<le> DBUS_ALIGN_VALUE x a - x" using align_ge[OF a(1), of x] by simp
  show "DBUS_ALIGN_VALUE x a - x \<le> 7" using align_less[OF a(1), of x] a(2) by simp
qed

lemma uint_offset:
  assumes "0 \<le> d" and "d \<le> 7"
  shows "uint (word_of_int d :: 3 word) = d"
  using assms by (simp add: uint_word_of_int)

lemma array_reader_recurse_result:
  assumes "array_reader_recurse h sub parent = Inr sub'"
  shows "\<exists>a. element_type_get_alignment h (r_type_str parent) (r_type_pos parent + 1) = Inr a \<and>
             r_array_start_pos sub' =
               DBUS_ALIGN_VALUE (DBUS_ALIGN_VALUE (r_value_pos parent) 4 + 4) a \<and>
             r_array_len_offset sub' =
               word_of_int (r_array_start_pos sub' - (DBUS_ALIGN_VALUE (r_value_pos parent) 4 + 4)) \<and>
             r_value_pos sub' = r_array_start_pos sub' \<and>
             r_value_str sub' = r_value_str parent \<and>
             r_byte_order sub' = r_byte_order parent \<and>
             r_type_str sub' = r_type_str parent \<and>
             r_type_pos sub' = r_type_pos parent + 1"
  using assms
  by (auto simp add: array_reader_recurse_def array_types_only_reader_recurse_def
        base_reader_recurse_def reader_init_def Let_def split: sum.splits if_splits)

lemma array_reader_recurse_failure:
  assumes "array_reader_recurse h sub parent = Inl e"
  shows "element_type_get_alignment h (r_type_str parent) (r_type_pos parent + 1) = Inl e \<or>
         (\<exists>a. element_type_get_alignment h (r_type_str parent) (r_type_pos parent + 1) = Inr a \<and>
              \<not> DBUS_ALIGN_VALUE (DBUS_ALIGN_VALUE (r_value_pos parent) 4 + 4) a -
                  (DBUS_ALIGN_VALUE (r_value_pos parent) 4 + 4) < 8 \<and>
              e = Assert ''(sub->u.array.start_pos - (len_pos + 4)) < 8'')"
  using assms
  by (auto simp add: array_reader_recurse_def array_types_only_reader_recurse_def
        base_reader_recurse_def reader_init_def Let_def split: sum.splits if_splits)

lemma get_alignment_failure:
  assumes "dbus_type_get_alignment t = Inl e"
  shows "e = Not_reached ''unknown typecode in _dbus_type_get_alignment()''"
  using assms by (simp add: dbus_type_get_alignment_def split: if_splits)

lemma get_byte_failure:
  assumes "dbus_string_get_byte h s p = Inl e"
  shows "e = Assert ''start <= real->len''"
  using assms by (simp add: dbus_string_get_byte_def split: if_splits)

lemma first_type_failure:
  assumes "first_type_in_signature h s p = Inl e"
  shows "e = Assert ''start <= real->len''"
proof (cases "dbus_string_get_byte h s p")
  case (Inl e')
  with assms have "e' = e" by (simp add: first_type_in_signature_def)
  with Inl show ?thesis using get_byte_failure by simp
next
  case (Inr t)
  with assms show ?thesis by (simp add: first_type_in_signature_def)
qed

lemma element_alignment_failure:
  assumes "element_type_get_alignment h s p = Inl e"
  shows "e = Assert ''start <= real->len'' \<or>
         e = Not_reached ''unknown typecode in _dbus_type_get_alignment()''"
proof (cases "first_type_in_signature h s p")
  case (Inl e')
  with assms have "e' = e" by (simp add: element_type_get_alignment_def)
  with Inl show ?thesis using first_type_failure by simp
next
  case (Inr t)
  with assms have "dbus_type_get_alignment t = Inl e" by (simp add: element_type_get_alignment_def)
  then show ?thesis using get_alignment_failure by simp
qed

lemma array_reader_get_array_len_assert:
  "array_reader_get_array_len h reader \<noteq> Inl (Assert ''reader->u.array.start_pos - len_pos - 4 < 8'')"
proof -
  have "uint (r_array_len_offset reader) < 8"
    using uint_bounded[of "r_array_len_offset reader"] by simp
  moreover have "dbus_demarshal_basic_type h s DBUS_TYPE_UINT32 b p \<noteq>
                   Inl (Assert ''reader->u.array.start_pos - len_pos - 4 < 8'')" for s b p
    by (auto simp add: dbus_demarshal_basic_type_def read_bytes_def Let_def typecode
          split: sum.splits if_splits)
  ultimately show ?thesis
    by (auto simp add: array_reader_get_array_len_def Let_def
          split: sum.splits prod.splits DBusBasicValue.splits)
qed

text \<open>
  For cursors that leave room for the length word and the padding, no cursor that
  \<^verbatim>\<open>array_reader_recurse\<close> computes leaves the range of \<^verbatim>\<open>int\<close>.
\<close>

lemma array_reader_recurse_int_range:
  assumes "array_reader_recurse h sub parent = Inr sub'"
    and "0 \<le> r_value_pos parent" and "r_value_pos parent \<le> DBUS_INT_MAX - 14"
  shows "0 \<le> r_array_start_pos sub'" and "r_array_start_pos sub' \<le> DBUS_INT_MAX"
proof -
  let ?p = "DBUS_ALIGN_VALUE (r_value_pos parent) 4"
  from array_reader_recurse_result[OF assms(1)] obtain a where
    a: "element_type_get_alignment h (r_type_str parent) (r_type_pos parent + 1) = Inr a"
    and s: "r_array_start_pos sub' = DBUS_ALIGN_VALUE (?p + 4) a"
    by blast
  have v: "a = 1 \<or> a = 4 \<or> a = 8" using element_alignment_values[OF a] .
  have p: "r_value_pos parent \<le> ?p" "?p < r_value_pos parent + 4"
    using align_ge[of 4 "r_value_pos parent"] align_less[of 4 "r_value_pos parent"] by simp_all
  from align_gap[OF v, of "?p + 4"] s p assms(2,3)
  show "0 \<le> r_array_start_pos sub'" and "r_array_start_pos sub' \<le> DBUS_INT_MAX"
    by simp_all
qed

text \<open>
  Claim C9. For every recursion of a reader into an array whose cursor into the values is
  0 or greater: the assertion of \<^verbatim>\<open>array_reader_recurse\<close> does not fire, the recursion
  returns whenever the element type has an alignment, and the reader it returns stores as
  \<^verbatim>\<open>array_len_offset\<close> the start of the element region minus the end of the 4-byte
  length word, a number from 0 to 7 that the three bits hold unchanged. The assertion of
  \<^verbatim>\<open>array_reader_get_array_len\<close> does not fire either, and that function reads the
  length word at the place where the recursion passed it.
\<close>

theorem array_len_offset_in_range:
  assumes "0 \<le> r_value_pos parent"
  shows "array_reader_recurse h sub parent \<noteq>
           Inl (Assert ''(sub->u.array.start_pos - (len_pos + 4)) < 8'')
       \<and> (\<forall>a. element_type_get_alignment h (r_type_str parent) (r_type_pos parent + 1) = Inr a \<longrightarrow>
              (\<exists>sub'. array_reader_recurse h sub parent = Inr sub'))
       \<and> (\<forall>sub'. array_reader_recurse h sub parent = Inr sub' \<longrightarrow>
              0 \<le> r_array_start_pos sub' - (DBUS_ALIGN_VALUE (r_value_pos parent) 4 + 4)
            \<and> r_array_start_pos sub' - (DBUS_ALIGN_VALUE (r_value_pos parent) 4 + 4) \<le> 7
            \<and> uint (r_array_len_offset sub') =
                r_array_start_pos sub' - (DBUS_ALIGN_VALUE (r_value_pos parent) 4 + 4)
            \<and> array_reader_get_array_len h sub' \<noteq>
                Inl (Assert ''reader->u.array.start_pos - len_pos - 4 < 8'')
            \<and> array_reader_get_array_len h sub' =
                (case dbus_demarshal_basic_type h (r_value_str parent) DBUS_TYPE_UINT32
                        (r_byte_order parent) (DBUS_ALIGN_VALUE (r_value_pos parent) 4) of
                   Inl e \<Rightarrow> Inl e
                 | Inr (v, new_pos) \<Rightarrow>
                     (case v of U32 array_len \<Rightarrow> Inr (int_of_uint32 array_len)
                              | _ \<Rightarrow> Inl Invalid_read)))"
proof (intro conjI allI impI)
  let ?p = "DBUS_ALIGN_VALUE (r_value_pos parent) 4"
  show "array_reader_recurse h sub parent \<noteq>
          Inl (Assert ''(sub->u.array.start_pos - (len_pos + 4)) < 8'')"
  proof
    assume f: "array_reader_recurse h sub parent =
                 Inl (Assert ''(sub->u.array.start_pos - (len_pos + 4)) < 8'')"
    from array_reader_recurse_failure[OF f] show False
    proof
      assume "element_type_get_alignment h (r_type_str parent) (r_type_pos parent + 1) =
                Inl (Assert ''(sub->u.array.start_pos - (len_pos + 4)) < 8'')"
      from element_alignment_failure[OF this] show False by simp
    next
      assume "\<exists>a. element_type_get_alignment h (r_type_str parent) (r_type_pos parent + 1) = Inr a \<and>
                  \<not> DBUS_ALIGN_VALUE (?p + 4) a - (?p + 4) < 8 \<and>
                  Assert ''(sub->u.array.start_pos - (len_pos + 4)) < 8'' =
                    Assert ''(sub->u.array.start_pos - (len_pos + 4)) < 8''"
      then obtain a where
        a: "element_type_get_alignment h (r_type_str parent) (r_type_pos parent + 1) = Inr a"
        and n: "\<not> DBUS_ALIGN_VALUE (?p + 4) a - (?p + 4) < 8"
        by blast
      from align_gap(2)[OF element_alignment_values[OF a], of "?p + 4"] n show False by simp
    qed
  qed
next
  fix a
  assume a: "element_type_get_alignment h (r_type_str parent) (r_type_pos parent + 1) = Inr a"
  let ?p = "DBUS_ALIGN_VALUE (r_value_pos parent) 4"
  from align_gap(2)[OF element_alignment_values[OF a], of "?p + 4"]
  have "DBUS_ALIGN_VALUE (?p + 4) a - (?p + 4) < 8" by simp
  with a show "\<exists>sub'. array_reader_recurse h sub parent = Inr sub'"
    by (simp add: array_reader_recurse_def array_types_only_reader_recurse_def
          base_reader_recurse_def reader_init_def Let_def)
next
  fix sub'
  assume r: "array_reader_recurse h sub parent = Inr sub'"
  let ?p = "DBUS_ALIGN_VALUE (r_value_pos parent) 4"
  from array_reader_recurse_result[OF r] obtain a where
    a: "element_type_get_alignment h (r_type_str parent) (r_type_pos parent + 1) = Inr a"
    and s: "r_array_start_pos sub' = DBUS_ALIGN_VALUE (?p + 4) a"
    and off: "r_array_len_offset sub' = word_of_int (r_array_start_pos sub' - (?p + 4))"
    and vs: "r_value_str sub' = r_value_str parent"
    and bo: "r_byte_order sub' = r_byte_order parent"
    by blast
  from align_gap[OF element_alignment_values[OF a], of "?p + 4"] s
  have g: "0 \<le> r_array_start_pos sub' - (?p + 4)" "r_array_start_pos sub' - (?p + 4) \<le> 7"
    by simp_all
  from g show "0 \<le> r_array_start_pos sub' - (?p + 4)" by simp
  from g show "r_array_start_pos sub' - (?p + 4) \<le> 7" by simp
  from off uint_offset[OF g]
  show u: "uint (r_array_len_offset sub') = r_array_start_pos sub' - (?p + 4)" by simp
  show "array_reader_get_array_len h sub' \<noteq>
          Inl (Assert ''reader->u.array.start_pos - len_pos - 4 < 8'')"
    by (rule array_reader_get_array_len_assert)
  have lp: "r_array_start_pos sub' - uint (r_array_len_offset sub') - 4 = ?p"
    using u by simp
  show "array_reader_get_array_len h sub' =
          (case dbus_demarshal_basic_type h (r_value_str parent) DBUS_TYPE_UINT32
                  (r_byte_order parent) ?p of
             Inl e \<Rightarrow> Inl e
           | Inr (v, new_pos) \<Rightarrow>
               (case v of U32 array_len \<Rightarrow> Inr (int_of_uint32 array_len)
                        | _ \<Rightarrow> Inl Invalid_read))"
    unfolding array_reader_get_array_len_def Let_def lp vs bo
    using g(2) by (simp split: sum.splits prod.splits)
qed

theorem array_len_offset_in_range_witness:
  "0 \<le> r_value_pos array_parent \<and>
   (case array_reader_recurse array_memory uninitialized_reader array_parent of
      Inl e \<Rightarrow> False
    | Inr sub \<Rightarrow>
        r_array_start_pos sub = 16 \<and> uint (r_array_len_offset sub) = 4 \<and>
        array_reader_get_array_len array_memory sub = Inr 8)"
proof -
  have ev: ?thesis by code_simp
  from array_len_offset_in_range[of array_parent array_memory uninitialized_reader] ev
  show ?thesis by simp
qed

section \<open>Arrays of basic values\<close>

text \<open>
  Claim C10. For every element type other than byte and boolean,
  \<^verbatim>\<open>_dbus_marshal_basic_type_array\<close> ends in a \<^verbatim>\<open>_dbus_assert_not_reached\<close>: the
  helpers for elements of four and of eight bytes reach theirs before they write anything,
  the string, object-path and signature element types and every other type code reach one
  in the switch. \<^verbatim>\<open>_dbus_type_writer_write_array\<close> computes nothing, changes nothing and
  returns no specified value. The body of \<^verbatim>\<open>_dbus_type_reader_read_array_of_basic\<close> is
  not empty, it is the assertion that the reader is not types-only: for a types-only
  reader the assertion fails, for any other reader the function stores nothing and returns
  no specified value.
\<close>

theorem basic_type_array_paths_unimplemented:
  "(element_type \<noteq> DBUS_TYPE_BYTE \<and> element_type \<noteq> DBUS_TYPE_BOOLEAN \<longrightarrow>
      (\<exists>msg. dbus_marshal_basic_type_array s insert_at element_type val len byte_order h =
               Inl (Not_reached msg)))
   \<and> marshal_4_octets_array s insert_at val len byte_order h = Inl (Not_reached ''FIXME insert_at'')
   \<and> marshal_8_octets_array s insert_at val len byte_order h = Inl (Not_reached ''FIXME insert_at'')
   \<and> (element_type = DBUS_TYPE_INT32 \<or> element_type = DBUS_TYPE_UINT32 \<or>
       element_type = DBUS_TYPE_INT64 \<or> element_type = DBUS_TYPE_UINT64 \<or>
       element_type = DBUS_TYPE_DOUBLE \<longrightarrow>
        dbus_marshal_basic_type_array s insert_at element_type val len byte_order h =
          Inl (Not_reached ''FIXME insert_at''))
   \<and> (element_type = DBUS_TYPE_STRING \<or> element_type = DBUS_TYPE_OBJECT_PATH \<longrightarrow>
        dbus_marshal_basic_type_array s insert_at element_type val len byte_order h =
          Inl (Not_reached ''handle string arrays''))
   \<and> (element_type = DBUS_TYPE_SIGNATURE \<longrightarrow>
        dbus_marshal_basic_type_array s insert_at element_type val len byte_order h =
          Inl (Not_reached ''handle signature''))
   \<and> dbus_type_writer_write_array writer type array array_len h = (None, writer, h)
   \<and> dbus_type_reader_read_array_of_basic reader type =
       (if types_only (r_klass reader) then Inl (Assert ''!reader->klass->types_only'')
        else Inr (None, None))"
proof (intro conjI impI)
  assume "element_type \<noteq> DBUS_TYPE_BYTE \<and> element_type \<noteq> DBUS_TYPE_BOOLEAN"
  then show "\<exists>msg. dbus_marshal_basic_type_array s insert_at element_type val len byte_order h =
                 Inl (Not_reached msg)"
    by (simp add: dbus_marshal_basic_type_array_def marshal_4_octets_array_def
          marshal_8_octets_array_def)
next
  show "marshal_4_octets_array s insert_at val len byte_order h = Inl (Not_reached ''FIXME insert_at'')"
    by (simp add: marshal_4_octets_array_def)
next
  show "marshal_8_octets_array s insert_at val len byte_order h = Inl (Not_reached ''FIXME insert_at'')"
    by (simp add: marshal_8_octets_array_def)
next
  assume "element_type = DBUS_TYPE_INT32 \<or> element_type = DBUS_TYPE_UINT32 \<or>
          element_type = DBUS_TYPE_INT64 \<or> element_type = DBUS_TYPE_UINT64 \<or>
          element_type = DBUS_TYPE_DOUBLE"
  then show "dbus_marshal_basic_type_array s insert_at element_type val len byte_order h =
               Inl (Not_reached ''FIXME insert_at'')"
    by (auto simp add: dbus_marshal_basic_type_array_def marshal_4_octets_array_def
          marshal_8_octets_array_def typecode)
next
  assume "element_type = DBUS_TYPE_STRING \<or> element_type = DBUS_TYPE_OBJECT_PATH"
  then show "dbus_marshal_basic_type_array s insert_at element_type val len byte_order h =
               Inl (Not_reached ''handle string arrays'')"
    by (auto simp add: dbus_marshal_basic_type_array_def typecode)
next
  assume "element_type = DBUS_TYPE_SIGNATURE"
  then show "dbus_marshal_basic_type_array s insert_at element_type val len byte_order h =
               Inl (Not_reached ''handle signature'')"
    by (simp add: dbus_marshal_basic_type_array_def typecode)
next
  show "dbus_type_writer_write_array writer type array array_len h = (None, writer, h)"
    by (simp add: dbus_type_writer_write_array_def)
next
  show "dbus_type_reader_read_array_of_basic reader type =
          (if types_only (r_klass reader) then Inl (Assert ''!reader->klass->types_only'')
           else Inr (None, None))"
    by (simp add: dbus_type_reader_read_array_of_basic_def)
qed

theorem basic_type_array_paths_unimplemented_witness:
  "DBUS_TYPE_INT32 \<noteq> DBUS_TYPE_BYTE \<and> DBUS_TYPE_INT32 \<noteq> DBUS_TYPE_BOOLEAN \<and>
   (case dbus_marshal_basic_type_array 0 3 DBUS_TYPE_INT32 [1, 0, 0, 0] 1 DBUS_LITTLE_ENDIAN
           example_memory of
      Inl e \<Rightarrow> e = Not_reached ''FIXME insert_at''
    | Inr r \<Rightarrow> False) \<and>
   \<not> types_only (r_klass array_parent) \<and>
   dbus_type_reader_read_array_of_basic array_parent DBUS_TYPE_INT32 = Inr (None, None)"
proof -
  have ev: ?thesis by code_simp
  from basic_type_array_paths_unimplemented
         [of DBUS_TYPE_INT32 0 3 "[1, 0, 0, 0]" 1 DBUS_LITTLE_ENDIAN example_memory
             uninitialized_writer DBUS_TYPE_INT32 "[]" 0 array_parent] ev
  show ?thesis by simp
qed

text \<open>
  A types-only reader: \<^verbatim>\<open>_dbus_type_reader_read_array_of_basic\<close> does not return an
  unspecified value, its assertion fails.
\<close>

theorem read_array_of_basic_counterexample:
  "dbus_type_reader_read_array_of_basic types_only_parent DBUS_TYPE_INT32 =
     Inl (Assert ''!reader->klass->types_only'')"
  by (simp add: dbus_type_reader_read_array_of_basic_def types_only_parent_def types_only_def)

section \<open>The type writer\<close>

subsection \<open>What the operations on strings leave unchanged\<close>









subsection \<open>Recursing into an array\<close>



lemma case_sum_Inr_iff:
  "(case a of Inl e \<Rightarrow> Inl e | Inr x \<Rightarrow> f x) = Inr r \<longleftrightarrow> (\<exists>x. a = Inr x \<and> f x = Inr r)"
  by (cases a) auto




lemma insert_nothing:
  assumes "0 \<le> pos"
  shows "insert_at_pos old pos [] = old"
  by (simp add: insert_at_pos_def)



subsection \<open>The flag of a subwriter\<close>









subsection \<open>The flags of a stack of writers\<close>

lemma recurse_container_types:
  assumes "dbus_type_writer_recurse_contained_len writer container_type contained_type
             contained_type_start contained_type_len sub0 h = Inr r"
  shows "container_type = DBUS_TYPE_STRUCT \<or> container_type = DBUS_TYPE_ARRAY \<or>
         container_type = DBUS_TYPE_VARIANT"
  using assms unfolding dbus_type_writer_recurse_contained_len_def
  by (auto simp add: case_sum_Inr_iff split: if_splits)










subsection \<open>When the recursion into an array returns TRUE\<close>








subsection \<open>What the recursion into an array writes\<close>




end
